(* ===== verification/Prelude.thy ===== *)
theory Prelude
  imports Main "HOL-Library.Word" "HOL-Library.AList"
begin

text \<open>
  Shared vocabulary of the development: the result type of fallible Rust code, the
  unsigned integer operations of the standard library (checked, saturating and rounding
  arithmetic on values of a fixed width), association lists as the model of a
  \<open>HashMap\<close> with an unspecified iteration order, and the list lemmas that several
  components use.  Nothing here models code of the repository itself.
\<close>

section \<open>Results\<close>

text \<open>
  \<open>Result<T, E>\<close> is a sum whose left side is the error.  The abbreviations keep the
  source's spelling; \<open>and_then\<close> is the sequencing that the \<open>?\<close> operator performs.
\<close>

abbreviation Ok :: "'a \<Rightarrow> 'e + 'a" where
  "Ok \<equiv> Inr"

abbreviation Err :: "'e \<Rightarrow> 'e + 'a" where
  "Err \<equiv> Inl"

definition and_then :: "'e + 'a \<Rightarrow> ('a \<Rightarrow> 'e + 'b) \<Rightarrow> 'e + 'b" where
  "and_then r f = (case r of Inl e \<Rightarrow> Inl e | Inr x \<Rightarrow> f x)"

definition is_ok :: "'e + 'a \<Rightarrow> bool" where
  "is_ok r = (case r of Inl _ \<Rightarrow> False | Inr _ \<Rightarrow> True)"

definition ok_or :: "'a option \<Rightarrow> 'e \<Rightarrow> 'e + 'a" where
  "ok_or x e = (case x of None \<Rightarrow> Inl e | Some v \<Rightarrow> Inr v)"

definition map_err :: "('e \<Rightarrow> 'f) \<Rightarrow> 'e + 'a \<Rightarrow> 'f + 'a" where
  "map_err f r = (case r of Inl e \<Rightarrow> Inl (f e) | Inr x \<Rightarrow> Inr x)"

section \<open>Fixed-width unsigned integers\<close>

text \<open>
  A \<open>u32\<close> or \<open>u64\<close> is a natural number with its bound; the operations write out what
  the standard library does at the bound.  \<open>usize\<close> is 64 bits wide on both supported
  architectures.
\<close>

definition u8_max :: nat where "u8_max = 255"
definition u16_max :: nat where "u16_max = 65535"
definition u32_max :: nat where "u32_max = 4294967295"
definition u64_max :: nat where "u64_max = 18446744073709551615"

definition checked_add :: "nat \<Rightarrow> nat \<Rightarrow> nat \<Rightarrow> nat option" where
  "checked_add m a b = (if a + b \<le> m then Some (a + b) else None)"

definition checked_sub :: "nat \<Rightarrow> nat \<Rightarrow> nat option" where
  "checked_sub a b = (if b \<le> a then Some (a - b) else None)"

definition checked_mul :: "nat \<Rightarrow> nat \<Rightarrow> nat \<Rightarrow> nat option" where
  "checked_mul m a b = (if a * b \<le> m then Some (a * b) else None)"

definition saturating_add :: "nat \<Rightarrow> nat \<Rightarrow> nat \<Rightarrow> nat" where
  "saturating_add m a b = min m (a + b)"

definition saturating_mul :: "nat \<Rightarrow> nat \<Rightarrow> nat \<Rightarrow> nat" where
  "saturating_mul m a b = min m (a * b)"

text \<open>
  \<open>wrapping_add\<close>, \<open>wrapping_sub\<close> and \<open>wrapping_mul\<close> of a type with largest value \<open>m\<close>, and
  \<open>next_multiple_of\<close>, which wraps as well without overflow checks.
\<close>

definition wrapping_add :: "nat \<Rightarrow> nat \<Rightarrow> nat \<Rightarrow> nat" where
  "wrapping_add m a b = (a + b) mod (m + 1)"

definition wrapping_sub :: "nat \<Rightarrow> nat \<Rightarrow> nat \<Rightarrow> nat" where
  "wrapping_sub m a b = (a + (m + 1) - b) mod (m + 1)"

definition wrapping_mul :: "nat \<Rightarrow> nat \<Rightarrow> nat \<Rightarrow> nat" where
  "wrapping_mul m a b = (a * b) mod (m + 1)"

text \<open>\<open>saturating_sub\<close> is subtraction on \<open>nat\<close> itself; \<open>div_ceil\<close> rounds up.\<close>

definition div_ceil :: "nat \<Rightarrow> nat \<Rightarrow> nat" where
  "div_ceil a b = (if a mod b = 0 then a div b else Suc (a div b))"

definition round_up :: "nat \<Rightarrow> nat \<Rightarrow> nat \<Rightarrow> nat" where
  "round_up m a b = (div_ceil a b * b) mod (m + 1)"

named_theorems arith_defs \<open>the integer operations of the standard library, unfolded\<close>

declare checked_add_def [arith_defs] checked_sub_def [arith_defs] checked_mul_def [arith_defs]
  saturating_add_def [arith_defs] saturating_mul_def [arith_defs]

section \<open>Iterators\<close>

text \<open>\<open>iter.find_map(f)\<close>, and \<open>iter.max()\<close> on numbers.\<close>

primrec find_map :: "('a \<Rightarrow> 'b option) \<Rightarrow> 'a list \<Rightarrow> 'b option" where
  "find_map f [] = None"
| "find_map f (x # xs) = (case f x of None \<Rightarrow> find_map f xs | Some y \<Rightarrow> Some y)"

fun iter_max :: "nat list \<Rightarrow> nat option" where
  "iter_max [] = None"
| "iter_max (x # xs) = Some (fold max xs x)"

section \<open>Association lists as hash maps\<close>

text \<open>
  A \<open>HashMap\<close> is an association list with distinct keys.  The order of the list stands
  for the iteration order, which the standard library leaves unspecified; a lookup does
  not depend on it.  \<open>get_mut\<close> followed by an assignment is \<open>alter\<close>: the entry is
  replaced in place and the order stays.
\<close>

definition alter :: "'k \<Rightarrow> ('v \<Rightarrow> 'v) \<Rightarrow> ('k \<times> 'v) list \<Rightarrow> ('k \<times> 'v) list" where
  "alter k f m = map (\<lambda>(k', v). if k' = k then (k', f v) else (k', v)) m"

definition keys_of :: "('k \<times> 'v) list \<Rightarrow> 'k list" where
  "keys_of m = map fst m"

text \<open>Collecting pairs into a map: a later pair replaces an earlier one with its key.\<close>

definition collect_map :: "('k \<times> 'v) list \<Rightarrow> ('k \<times> 'v) list" where
  "collect_map ps = fold (\<lambda>(k, v) m. AList.update k v m) ps []"

section \<open>Lemmas on iterators\<close>

lemma find_map_None: "find_map f xs = None \<longleftrightarrow> (\<forall>x \<in> set xs. f x = None)"
  by (induction xs) (auto split: option.splits)

lemma find_map_Some: "find_map f xs = Some y \<Longrightarrow> \<exists>x \<in> set xs. f x = Some y"
  by (induction xs) (auto split: option.splits)

lemma set_map_filter_iff: "y \<in> set (List.map_filter f xs) \<longleftrightarrow> (\<exists>x \<in> set xs. f x = Some y)"
  by (force simp: List.map_filter_def)

lemma fold_max_ge: "x \<le> fold max xs x" "y \<in> set xs \<Longrightarrow> (y :: nat) \<le> fold max xs x"
  by (simp_all flip: Max.set_eq_fold)

lemma iter_max_ge: "iter_max xs = Some m \<Longrightarrow> x \<in> set xs \<Longrightarrow> x \<le> m"
  using fold_max_ge by (cases xs) auto

section \<open>Lemmas on results\<close>

lemma and_then_Ok [simp]: "and_then (Ok x) f = f x"
  by (simp add: and_then_def)

lemma and_then_Err [simp]: "and_then (Err e) f = Err e"
  by (simp add: and_then_def)

lemma and_then_eq_Ok: "and_then r f = Ok y \<longleftrightarrow> (\<exists>x. r = Ok x \<and> f x = Ok y)"
  by (cases r) (auto simp: and_then_def)

lemma and_then_eq_Err: "and_then r f = Err e \<longleftrightarrow> r = Err e \<or> (\<exists>x. r = Ok x \<and> f x = Err e)"
  by (cases r) (auto simp: and_then_def)

lemma is_ok_simps [simp]: "is_ok (Ok x)" "\<not> is_ok (Err e)"
  by (simp_all add: is_ok_def)

lemma is_ok_iff: "is_ok r \<longleftrightarrow> (\<exists>x. r = Ok x)"
  by (cases r) (auto simp: is_ok_def)

lemma ok_or_simps [simp]: "ok_or (Some v) e = Ok v" "ok_or None e = Err e"
  by (simp_all add: ok_or_def)

lemma ok_or_eq_Ok: "ok_or x e = Ok v \<longleftrightarrow> x = Some v"
  by (cases x) (auto simp: ok_or_def)

lemma ok_or_eq_Err: "ok_or x e = Err e' \<longleftrightarrow> x = None \<and> e' = e"
  by (cases x) (auto simp: ok_or_def)

lemma map_err_eq_Ok [simp]: "map_err f r = Ok x \<longleftrightarrow> r = Ok x"
  by (cases r) (simp_all add: map_err_def)

lemma map_err_Ok [simp]: "map_err f (Ok x) = Ok x"
  by (simp add: map_err_def)

lemmas result_iffs = and_then_eq_Ok and_then_eq_Err ok_or_eq_Ok ok_or_eq_Err

section \<open>Lemmas on integers\<close>

lemma div_ceil_bounds:
  assumes "0 < b"
  shows "a \<le> div_ceil a b * b" and "div_ceil a b * b < a + b"
proof -
  have eq: "a = a div b * b + a mod b" by (simp add: mult.commute)
  have lt: "a mod b < b" using assms by simp
  show "a \<le> div_ceil a b * b"
  proof (cases "a mod b = 0")
    case True then show ?thesis using eq by (simp add: div_ceil_def)
  next
    case False
    have "a < a div b * b + b" using eq lt by linarith
    then show ?thesis using False by (simp add: div_ceil_def)
  qed
  show "div_ceil a b * b < a + b"
  proof (cases "a mod b = 0")
    case True then show ?thesis using assms eq by (simp add: div_ceil_def)
  next
    case False
    then have "a div b * b + b < a + b" using eq by linarith
    then show ?thesis using False by (simp add: div_ceil_def)
  qed
qed

lemma div_ceil_eq_0: "0 < b \<Longrightarrow> div_ceil a b = 0 \<longleftrightarrow> a = 0"
  by (cases "a = 0") (auto simp: div_ceil_def)

lemma div_ceil_pos: "0 < b \<Longrightarrow> 0 < a \<Longrightarrow> 0 < div_ceil a b"
  by (metis div_ceil_eq_0 gr0I less_numeral_extra(3))

lemma wrapping_add_exact: "a + b \<le> m \<Longrightarrow> wrapping_add m a b = a + b"
  by (simp add: wrapping_add_def)

lemma wrapping_sub_exact: "b \<le> a \<Longrightarrow> a \<le> m \<Longrightarrow> wrapping_sub m a b = a - b"
proof -
  assume "b \<le> a" "a \<le> m"
  then have "a + (m + 1) - b = (a - b) + (m + 1)" by simp
  then show ?thesis using \<open>a \<le> m\<close> by (simp only: wrapping_sub_def mod_add_self2) simp
qed

lemma wrapping_mul_exact: "a * b \<le> m \<Longrightarrow> wrapping_mul m a b = a * b"
  by (simp add: wrapping_mul_def)

lemma round_up_exact: "div_ceil a b * b \<le> m \<Longrightarrow> round_up m a b = div_ceil a b * b"
  by (simp add: round_up_def)

section \<open>Lemmas on association lists\<close>

lemma map_of_alter: "map_of (alter k f m) x = (if x = k then map_option f (map_of m k) else map_of m x)"
  by (induction m) (auto simp: alter_def)

lemma keys_of_alter [simp]: "keys_of (alter k f m) = keys_of m"
  by (induction m) (auto simp: alter_def keys_of_def)

lemma length_alter [simp]: "length (alter k f m) = length m"
  by (simp add: alter_def)

lemma map_of_None_keys: "map_of m k = None \<longleftrightarrow> k \<notin> set (keys_of m)"
  by (simp add: keys_of_def map_of_eq_None_iff)

lemma map_of_Some_keys: "map_of m k = Some v \<Longrightarrow> k \<in> set (keys_of m)"
  by (metis map_of_None_keys option.distinct(1))

lemma alter_absent: "k \<notin> set (keys_of m) \<Longrightarrow> alter k f m = m"
  by (induction m) (auto simp: alter_def keys_of_def)

lemma map_of_mem_iff: "distinct (keys_of m) \<Longrightarrow> (k, v) \<in> set m \<longleftrightarrow> map_of m k = Some v"
  by (simp add: keys_of_def)

lemma fold_update_map_of:
  "map_of (fold (\<lambda>(k, v) m. AList.update k v m) ps m) = map_of m ++ map_of (rev ps)"
proof (induction ps arbitrary: m)
  case Nil
  then show ?case by simp
next
  case (Cons p ps)
  obtain k v where p: "p = (k, v)" by (cases p)
  show ?case
    by (simp add: p Cons.IH update_conv' map_add_upd_left map_add_def fun_eq_iff split: option.split)
qed

lemma map_of_collect_map: "map_of (collect_map ps) = map_of (rev ps)"
  by (simp add: collect_map_def fold_update_map_of)

lemma distinct_collect_map: "distinct (keys_of (collect_map ps))"
proof -
  have "distinct (map fst m) \<Longrightarrow> distinct (map fst (fold (\<lambda>(k, v) m. AList.update k v m) ps m))" for m :: "('a \<times> 'b) list"
    by (induction ps arbitrary: m) (auto simp: distinct_update)
  from this [of "[]"] show ?thesis by (simp add: collect_map_def keys_of_def)
qed

end
