(* ===== verification/Rust_Strings.thy ===== *)
theory Rust_Strings
  imports Prelude "HOL-Library.List_Lexorder" "HOL-Library.Char_ord"
begin

text \<open>
  The string operations of the Rust standard library that the components call.  A
  \<open>str\<close> is the list of its UTF-8 bytes (\<^typ>\<open>string\<close>); every delimiter the code looks for
  is ASCII, so splitting bytes and splitting characters agree.  The order on strings is
  the bytewise lexicographic one, as \<open>Ord for str\<close> has it.
\<close>

section \<open>Definitions\<close>

definition newline :: char where "newline = CHR 0x0A"
definition carriage_return :: char where "carriage_return = CHR 0x0D"

text \<open>\<open>str::strip_prefix\<close>.\<close>

fun strip_prefix :: "string \<Rightarrow> string \<Rightarrow> string option" where
  "strip_prefix [] s = Some s"
| "strip_prefix (p # ps) [] = None"
| "strip_prefix (p # ps) (c # s) = (if p = c then strip_prefix ps s else None)"

text \<open>\<open>str::strip_suffix\<close>.\<close>

definition strip_suffix :: "string \<Rightarrow> string \<Rightarrow> string option" where
  "strip_suffix suffix s = map_option rev (strip_prefix (rev suffix) (rev s))"

text \<open>
  \<open>str::lines\<close>: pieces end at a line feed, which is removed together with one carriage
  return before it; a last piece without a line feed is kept as it is, and no empty piece
  follows a final line feed.
\<close>

definition strip_cr :: "string \<Rightarrow> string" where
  "strip_cr s = (if s \<noteq> [] \<and> last s = carriage_return then butlast s else s)"

fun lines_from :: "string \<Rightarrow> string \<Rightarrow> string list" where
  "lines_from cur [] = (if cur = [] then [] else [cur])"
| "lines_from cur (c # s) =
     (if c = newline then strip_cr cur # lines_from [] s else lines_from (cur @ [c]) s)"

definition lines :: "string \<Rightarrow> string list" where
  "lines s = lines_from [] s"

text \<open>
  \<open>str::parse\<close> for an unsigned type with largest value \<open>m\<close>: an optional plus sign, then
  at least one decimal digit, with the accumulator checked at every digit.
\<close>

definition digit_val :: "char \<Rightarrow> nat option" where
  "digit_val c = (let n = of_char c :: nat in if 48 \<le> n \<and> n \<le> 57 then Some (n - 48) else None)"

fun parse_digits :: "nat \<Rightarrow> nat \<Rightarrow> string \<Rightarrow> nat option" where
  "parse_digits m acc [] = Some acc"
| "parse_digits m acc (c # s) =
     (case digit_val c of
        None \<Rightarrow> None
      | Some d \<Rightarrow>
          (case checked_mul m acc 10 of
             None \<Rightarrow> None
           | Some a \<Rightarrow>
               (case checked_add m a d of
                  None \<Rightarrow> None
                | Some a' \<Rightarrow> parse_digits m a' s)))"

definition parse_unsigned :: "nat \<Rightarrow> string \<Rightarrow> nat option" where
  "parse_unsigned m s =
     (case s of
        [] \<Rightarrow> None
      | c # rest \<Rightarrow>
          if c = CHR ''+'' then (if rest = [] then None else parse_digits m 0 rest)
          else parse_digits m 0 s)"

text \<open>\<open>Display\<close> of an unsigned integer: its decimal digits.\<close>

definition digit_char :: "nat \<Rightarrow> char" where
  "digit_char d = char_of (48 + d)"

fun decimal :: "nat \<Rightarrow> string" where
  "decimal n = (if n < 10 then [digit_char n] else decimal (n div 10) @ [digit_char (n mod 10)])"

declare decimal.simps [simp del]

text \<open>\<open>std::str::from_utf8\<close> accepts exactly the well-formed UTF-8 byte sequences.\<close>

definition byte_between :: "nat \<Rightarrow> nat \<Rightarrow> char \<Rightarrow> bool" where
  "byte_between lo hi c = (lo \<le> (of_char c :: nat) \<and> (of_char c :: nat) \<le> hi)"

fun utf8_valid :: "string \<Rightarrow> bool" where
  "utf8_valid [] = True"
| "utf8_valid (a # s) =
     (if byte_between 0x00 0x7F a then utf8_valid s
      else if byte_between 0xC2 0xDF a then
        (case s of b # s' \<Rightarrow> byte_between 0x80 0xBF b \<and> utf8_valid s' | _ \<Rightarrow> False)
      else if byte_between 0xE0 0xEF a then
        (case s of b # c # s' \<Rightarrow>
           byte_between (if a = CHR 0xE0 then 0xA0 else 0x80) (if a = CHR 0xED then 0x9F else 0xBF) b
           \<and> byte_between 0x80 0xBF c \<and> utf8_valid s' | _ \<Rightarrow> False)
      else if byte_between 0xF0 0xF4 a then
        (case s of b # c # d # s' \<Rightarrow>
           byte_between (if a = CHR 0xF0 then 0x90 else 0x80) (if a = CHR 0xF4 then 0x8F else 0xBF) b
           \<and> byte_between 0x80 0xBF c \<and> byte_between 0x80 0xBF d \<and> utf8_valid s' | _ \<Rightarrow> False)
      else False)"

text \<open>\<open>char::is_ascii_alphanumeric\<close>.\<close>

definition is_ascii_alphanumeric :: "char \<Rightarrow> bool" where
  "is_ascii_alphanumeric c =
     (byte_between 48 57 c \<or> byte_between 65 90 c \<or> byte_between 97 122 c)"

section \<open>Prefixes and lines\<close>

lemma strip_prefix_append [simp]: "strip_prefix p (p @ s) = Some s"
  by (induction p) auto

lemma strip_prefix_Some: "strip_prefix p s = Some r \<longleftrightarrow> s = p @ r"
  by (induction p s rule: strip_prefix.induct) auto

lemma strip_prefix_eq: "strip_prefix p s = (if take (length p) s = p then Some (drop (length p) s) else None)"
  by (induction p s rule: strip_prefix.induct) auto

lemma strip_suffix_append [simp]: "strip_suffix suf (s @ suf) = Some s"
  by (simp add: strip_suffix_def strip_prefix_eq)

lemma strip_suffix_Some: "strip_suffix w s = Some r \<longleftrightarrow> s = r @ w"
  by (auto simp: strip_suffix_def strip_prefix_Some rev_swap)

lemma lines_from_no_newline:
  "newline \<notin> set a \<Longrightarrow> lines_from cur (a @ s) = lines_from (cur @ a) s"
  by (induction a arbitrary: cur) auto

lemma lines_terminated:
  "newline \<notin> set a \<Longrightarrow> lines (a @ newline # s) = strip_cr a # lines s"
  by (simp add: lines_def lines_from_no_newline)

lemma lines_last: "newline \<notin> set a \<Longrightarrow> a \<noteq> [] \<Longrightarrow> lines a = [a]"
  using lines_from_no_newline [of a "[]" "[]"] by (simp add: lines_def)

lemma lines_Nil [simp]: "lines [] = []"
  by (simp add: lines_def)

lemma strip_cr_id: "s = [] \<or> last s \<noteq> carriage_return \<Longrightarrow> strip_cr s = s"
  by (auto simp: strip_cr_def)

section \<open>Numbers\<close>

lemma digit_val_char: "d < 10 \<Longrightarrow> digit_val (digit_char d) = Some d"
  by (simp add: digit_val_def digit_char_def of_char_of)

lemma digit_val_Some_less: "digit_val c = Some d \<Longrightarrow> d < 10"
  by (auto simp: digit_val_def Let_def split: if_splits)

lemma parse_digits_append:
  "parse_digits m acc (s @ t) =
     (case parse_digits m acc s of None \<Rightarrow> None | Some a \<Rightarrow> parse_digits m a t)"
  by (induction m acc s rule: parse_digits.induct) (auto split: option.splits)

lemma parse_digits_decimal: "n \<le> m \<Longrightarrow> parse_digits m 0 (decimal n) = Some n"
proof (induction n rule: decimal.induct)
  case (1 n)
  show ?case
  proof (cases "n < 10")
    case True
    with 1 show ?thesis
      by (subst decimal.simps) (simp add: digit_val_char checked_mul_def checked_add_def)
  next
    case False
    have le: "n div 10 \<le> m" using 1(2) by linarith
    have eq: "n div 10 * 10 + n mod 10 = n" by simp
    have "n div 10 * 10 \<le> m" using 1(2) eq by linarith
    then show ?thesis using False 1 le eq
      by (subst decimal.simps)
        (simp add: parse_digits_append digit_val_char checked_mul_def checked_add_def)
  qed
qed

lemma decimal_nonempty: "decimal n \<noteq> []"
  by (subst decimal.simps) simp

lemma set_decimal: "c \<in> set (decimal n) \<Longrightarrow> \<exists>d<10. c = digit_char d"
proof (induction n rule: decimal.induct)
  case (1 n)
  from 1(2) have "c \<in> set (if n < 10 then [digit_char n] else decimal (n div 10) @ [digit_char (n mod 10)])"
    by (simp only: decimal.simps [of n, symmetric])
  then show ?case
    using 1(1) by (cases "n < 10") (auto intro: exI [of _ "n mod 10"])
qed

lemma of_char_digit: "d < 10 \<Longrightarrow> of_char (digit_char d) = 48 + d"
  by (simp add: digit_char_def of_char_of)

lemma digit_char_neq:
  assumes "d < 10"
  shows "digit_char d \<noteq> newline" "digit_char d \<noteq> CHR ''+''" "digit_char d \<noteq> carriage_return"
  using of_char_digit [OF assms] by (auto simp: newline_def carriage_return_def)

lemma decimal_chars: "newline \<notin> set (decimal n)" "carriage_return \<notin> set (decimal n)"
  using set_decimal digit_char_neq by metis+

lemma parse_unsigned_decimal: "n \<le> m \<Longrightarrow> parse_unsigned m (decimal n) = Some n"
proof -
  assume le: "n \<le> m"
  obtain c r where cr: "decimal n = c # r" using decimal_nonempty by (cases "decimal n") auto
  then have "c \<noteq> CHR ''+''"
    using set_decimal [of c n] digit_char_neq(2) by auto
  then show ?thesis
    using parse_digits_decimal [OF le] by (simp add: parse_unsigned_def cr)
qed

lemma parse_digits_bound: "parse_digits m acc s = Some n \<Longrightarrow> acc \<le> m \<Longrightarrow> n \<le> m"
  by (induction m acc s rule: parse_digits.induct)
    (auto simp: checked_add_def split: option.splits if_splits)

lemma parse_unsigned_bound: "parse_unsigned m s = Some n \<Longrightarrow> n \<le> m"
  by (cases s) (auto simp: parse_unsigned_def simp del: parse_digits.simps dest: parse_digits_bound split: if_splits)

end
