(* ===== verification/Service.thy ===== *)
theory Service
  imports Rust_Strings
begin

text \<open>
  Granola's service blueprint and runtime state (\<open>init/granola/src/supervisor/service.rs\<close>),
  the health values of the notification protocol (\<open>runtime/notify.rs\<close>) and the dependency
  gate (\<open>supervisor/dependency.rs\<close>).
\<close>

section \<open>Definitions\<close>

text \<open>A service blueprint; its command is split into an argument vector on demand.\<close>

record service =
  svc_name :: string
  command :: string
  depends_on :: "string list"

record argv_builder =
  args :: "string list"
  current :: string
  quote :: "char option"

definition double_quote :: char where "double_quote = CHR 0x22"
definition single_quote :: char where "single_quote = CHR 0x27"
definition tab_char :: char where "tab_char = CHR 0x09"

definition argv_default :: argv_builder where
  "argv_default = \<lparr>args = [], current = [], quote = None\<rparr>"

definition argv_flush :: "argv_builder \<Rightarrow> argv_builder" where
  "argv_flush b =
     (if current b = [] then b else b\<lparr>args := args b @ [current b], current := []\<rparr>)"

definition accept_unquoted :: "char \<Rightarrow> argv_builder \<Rightarrow> argv_builder" where
  "accept_unquoted ch b =
     (if ch = double_quote \<or> ch = single_quote then b\<lparr>quote := Some ch\<rparr>
      else if ch = CHR '' '' \<or> ch = tab_char then argv_flush b
      else b\<lparr>current := current b @ [ch]\<rparr>)"

definition argv_accept :: "char \<Rightarrow> argv_builder \<Rightarrow> argv_builder" where
  "argv_accept ch b =
     (case quote b of
        Some opening \<Rightarrow>
          if ch = opening then b\<lparr>quote := None\<rparr> else b\<lparr>current := current b @ [ch]\<rparr>
      | None \<Rightarrow> accept_unquoted ch b)"

definition argv :: "service \<Rightarrow> string list" where
  "argv svc = args (argv_flush (fold argv_accept (command svc) argv_default))"

text \<open>Lifecycle states and the names they are reported under.\<close>

datatype service_status = Pending | Starting | Ready | Degraded | Stopping | Failed

fun status_wire :: "service_status \<Rightarrow> string" where
  "status_wire Pending = ''pending''"
| "status_wire Starting = ''starting''"
| "status_wire Ready = ''ready''"
| "status_wire Degraded = ''degraded''"
| "status_wire Stopping = ''stopping''"
| "status_wire Failed = ''failed''"

datatype health = Healthy | HealthDegraded | Unhealthy

fun health_as_str :: "health \<Rightarrow> string" where
  "health_as_str Healthy = ''healthy''"
| "health_as_str HealthDegraded = ''degraded''"
| "health_as_str Unhealthy = ''unhealthy''"

definition health_from_str :: "string \<Rightarrow> health option" where
  "health_from_str s =
     (if s = ''healthy'' then Some Healthy
      else if s = ''degraded'' then Some HealthDegraded
      else if s = ''unhealthy'' then Some Unhealthy
      else None)"

text \<open>
  Runtime state of a supervised service.  A file descriptor and a process identifier are
  integers, an \<open>Instant\<close> is a number of nanoseconds.
\<close>

record service_state =
  service_def :: service
  pid :: "int option"
  status :: service_status
  listener_fd :: "int option"
  restart_count :: nat
  last_restart :: "nat option"
  last_status :: "(string \<times> health) option"

definition service_state_new :: "service \<Rightarrow> service_state" where
  "service_state_new svc =
     \<lparr>service_def = svc, pid = None, status = Pending, listener_fd = None,
      restart_count = 0, last_restart = None, last_status = None\<rparr>"

type_synonym services = "(string \<times> service_state) list"

text \<open>The dependency gate.\<close>

definition are_satisfied :: "service \<Rightarrow> services \<Rightarrow> bool" where
  "are_satisfied svc svcs =
     list_all (\<lambda>dep. case map_of svcs dep of None \<Rightarrow> False | Some st \<Rightarrow> status st = Ready)
       (depends_on svc)"

definition collect_startable :: "services \<Rightarrow> string list" where
  "collect_startable svcs =
     map fst (filter (\<lambda>(name, st). status st = Pending \<and> are_satisfied (service_def st) svcs) svcs)"

section \<open>Argument vectors\<close>

definition quoted :: "string \<Rightarrow> string" where
  "quoted w = double_quote # w @ [double_quote]"

fun spaced :: "string list \<Rightarrow> string" where
  "spaced [] = []"
| "spaced (w # ws) = w @ CHR '' '' # spaced ws"

lemma quote_chars [simp]:
  "double_quote \<noteq> CHR '' ''" "single_quote \<noteq> CHR '' ''" "double_quote \<noteq> single_quote"
  "double_quote \<noteq> tab_char" "CHR '' '' \<noteq> double_quote" "CHR '' '' \<noteq> single_quote"
  by (simp_all add: double_quote_def single_quote_def tab_char_def)

lemma argv_inside_quotes:
  "quote b = Some q \<Longrightarrow> q \<notin> set w \<Longrightarrow> fold argv_accept w b = b\<lparr>current := current b @ w\<rparr>"
  by (induction w arbitrary: b) (auto simp: argv_accept_def)

lemma argv_quoted_word:
  assumes "double_quote \<notin> set w" and "w \<noteq> []"
  shows "fold argv_accept (quoted w @ [CHR '' '']) \<lparr>args = as, current = [], quote = None\<rparr>
         = \<lparr>args = as @ [w], current = [], quote = None\<rparr>"
  using assms argv_inside_quotes [of "\<lparr>args = as, current = [], quote = Some double_quote\<rparr>" double_quote w]
  by (simp add: quoted_def argv_accept_def accept_unquoted_def argv_flush_def)

lemma argv_quoted_words:
  assumes "\<forall>w \<in> set ws. double_quote \<notin> set w \<and> w \<noteq> []"
  shows "fold argv_accept (spaced (map quoted ws)) \<lparr>args = as, current = [], quote = None\<rparr>
         = \<lparr>args = as @ ws, current = [], quote = None\<rparr>"
  using assms
proof (induction ws arbitrary: as)
  case Nil
  then show ?case by simp
next
  case (Cons w ws)
  have split: "spaced (map quoted (w # ws)) = (quoted w @ [CHR '' '']) @ spaced (map quoted ws)"
    by simp
  have "double_quote \<notin> set w" and "w \<noteq> []" using Cons.prems by auto
  from argv_quoted_word [OF this, of as] show ?case
    using Cons.IH [of "as @ [w]"] Cons.prems unfolding split fold_append comp_def by simp
qed

lemma argv_accept_args_nonempty:
  "\<forall>a \<in> set (args b). a \<noteq> [] \<Longrightarrow> \<forall>a \<in> set (args (argv_accept c b)). a \<noteq> []"
  by (auto simp: argv_accept_def accept_unquoted_def argv_flush_def split: option.splits)

lemma argv_fold_args_nonempty:
  "\<forall>a \<in> set (args b). a \<noteq> [] \<Longrightarrow> \<forall>a \<in> set (args (fold argv_accept s b)). a \<noteq> []"
  by (induction s arbitrary: b) (auto dest: argv_accept_args_nonempty)

lemma argv_args_nonempty: "a \<in> set (argv svc) \<Longrightarrow> a \<noteq> []"
proof -
  have "\<forall>a \<in> set (args (fold argv_accept (command svc) argv_default)). a \<noteq> []"
    by (rule argv_fold_args_nonempty) (simp add: argv_default_def)
  then show "a \<in> set (argv svc) \<Longrightarrow> a \<noteq> []"
    by (auto simp: argv_def argv_flush_def split: if_splits)
qed

section \<open>Health and dependencies\<close>

lemma health_round_trip: "health_from_str (health_as_str h) = Some h"
  by (cases h) (auto simp: health_from_str_def)

lemma are_satisfied_iff:
  "are_satisfied svc svcs \<longleftrightarrow>
     (\<forall>dep \<in> set (depends_on svc). \<exists>st. map_of svcs dep = Some st \<and> status st = Ready)"
  by (auto simp: are_satisfied_def list_all_iff split: option.splits)

lemma collect_startable_iff:
  assumes "distinct (keys_of svcs)"
  shows "name \<in> set (collect_startable svcs) \<longleftrightarrow>
           (\<exists>st. map_of svcs name = Some st \<and> status st = Pending \<and> are_satisfied (service_def st) svcs)"
proof -
  have "name \<in> set (collect_startable svcs) \<longleftrightarrow>
          (\<exists>st. (name, st) \<in> set svcs \<and> status st = Pending \<and> are_satisfied (service_def st) svcs)"
    by (force simp: collect_startable_def)
  then show ?thesis using map_of_mem_iff [OF assms] by simp
qed

lemma distinct_collect_startable:
  "distinct (keys_of svcs) \<Longrightarrow> distinct (collect_startable svcs)"
  by (simp add: collect_startable_def keys_of_def distinct_map_filter)

text \<open>
  Satisfied dependencies are monotone in the set of ready services: marking a service
  ready never unsatisfies a gate, and a gate only looks at the statuses.
\<close>

lemma are_satisfied_mono:
  assumes "are_satisfied svc svcs"
    and "\<And>n st. map_of svcs n = Some st \<Longrightarrow> status st = Ready \<Longrightarrow>
           \<exists>st'. map_of svcs' n = Some st' \<and> status st' = Ready"
  shows "are_satisfied svc svcs'"
  using assms by (meson are_satisfied_iff)

end
