(* ===== verification/Notify.thy ===== *)
theory Notify
  imports Service
begin

text \<open>
  The notification protocol between a service and its supervisor: the client messages of
  \<open>init/granola/src/runtime/notify.rs\<close>, the parser and the socket drain of
  \<open>init/granola/src/supervisor/notify.rs\<close>.  The socket is the list of datagrams waiting
  in it; the log lines that the functions print are not modelled.
\<close>

section \<open>Definitions\<close>

abbreviation (input) MAX_DATAGRAM_SIZE :: nat where "MAX_DATAGRAM_SIZE \<equiv> 4096"

datatype service_notification =
    NotifyReady string
  | NotifyStatusUpdate string string health
  | NotifyStopping string

text \<open>The client: each call formats one datagram.\<close>

record notifier =
  nt_service_name :: string
  nt_socket_path :: string

abbreviation (input) DEFAULT_NOTIFY_SOCKET :: string where
  "DEFAULT_NOTIFY_SOCKET \<equiv> ''/run/services/granola-notify.sock''"

definition notifier_new_with_socket :: "string \<Rightarrow> string \<Rightarrow> notifier" where
  "notifier_new_with_socket name path = \<lparr>nt_service_name = name, nt_socket_path = path\<rparr>"

definition notifier_new :: "string \<Rightarrow> notifier" where
  "notifier_new name = notifier_new_with_socket name DEFAULT_NOTIFY_SOCKET"

definition notifier_ready :: "notifier \<Rightarrow> nat \<Rightarrow> string" where
  "notifier_ready n process_id =
     ''SERVICE_NAME='' @ nt_service_name n @ newline # ''READY='' @ decimal process_id"

definition notifier_status :: "notifier \<Rightarrow> string \<Rightarrow> health \<Rightarrow> string" where
  "notifier_status n message h =
     ''SERVICE_NAME='' @ nt_service_name n @ newline # ''STATUS='' @ message @
     newline # ''HEALTH='' @ health_as_str h"

definition notifier_stopping :: "notifier \<Rightarrow> string \<Rightarrow> string" where
  "notifier_stopping n reason =
     ''SERVICE_NAME='' @ nt_service_name n @ newline # ''STOPPING='' @ reason"

definition notifier_watchdog :: "notifier \<Rightarrow> string" where
  "notifier_watchdog n = ''SERVICE_NAME='' @ nt_service_name n @ newline # ''WATCHDOG=1''"

text \<open>Delivery: a missing or refusing supervisor is tolerated, other errors are returned.\<close>

datatype io_error_kind = ConnectionRefused | NotFound | OtherKind string

fun notifier_send :: "io_error_kind + nat \<Rightarrow> io_error_kind + unit" where
  "notifier_send (Inr _) = Ok ()"
| "notifier_send (Inl ConnectionRefused) = Ok ()"
| "notifier_send (Inl NotFound) = Ok ()"
| "notifier_send (Inl (OtherKind e)) = Err (OtherKind e)"

text \<open>The parser: the last field of a kind wins, unknown lines are ignored.\<close>

record notify_fields =
  nf_service_name :: "string option"
  nf_ready_pid :: "nat option"
  nf_status_msg :: "string option"
  nf_health :: "health option"
  nf_stopping_reason :: "string option"
  nf_is_watchdog :: bool

definition no_fields :: notify_fields where
  "no_fields = \<lparr>nf_service_name = None, nf_ready_pid = None, nf_status_msg = None,
     nf_health = None, nf_stopping_reason = None, nf_is_watchdog = False\<rparr>"

definition parse_field :: "string \<Rightarrow> notify_fields \<Rightarrow> notify_fields" where
  "parse_field line f =
     (case strip_prefix ''SERVICE_NAME='' line of Some name \<Rightarrow> f\<lparr>nf_service_name := Some name\<rparr>
      | None \<Rightarrow>
     (case strip_prefix ''READY='' line of Some t \<Rightarrow> f\<lparr>nf_ready_pid := parse_unsigned u32_max t\<rparr>
      | None \<Rightarrow>
     (case strip_prefix ''STATUS='' line of Some t \<Rightarrow> f\<lparr>nf_status_msg := Some t\<rparr>
      | None \<Rightarrow>
     (case strip_prefix ''HEALTH='' line of Some t \<Rightarrow> f\<lparr>nf_health := health_from_str t\<rparr>
      | None \<Rightarrow>
     (case strip_prefix ''STOPPING='' line of Some t \<Rightarrow> f\<lparr>nf_stopping_reason := Some t\<rparr>
      | None \<Rightarrow>
      if line = ''WATCHDOG=1'' then f\<lparr>nf_is_watchdog := True\<rparr> else f)))))"

definition parse_notification :: "string \<Rightarrow> service_notification option" where
  "parse_notification text =
     (let f = fold parse_field (lines text) no_fields in
      case nf_service_name f of
        None \<Rightarrow> None
      | Some name \<Rightarrow>
          (case nf_ready_pid f of Some _ \<Rightarrow> Some (NotifyReady name)
           | None \<Rightarrow>
          (case nf_status_msg f of
             Some msg \<Rightarrow>
               Some (NotifyStatusUpdate name msg
                 (case nf_health f of Some h \<Rightarrow> h | None \<Rightarrow> Healthy))
           | None \<Rightarrow>
          (case nf_stopping_reason f of Some _ \<Rightarrow> Some (NotifyStopping name)
           | None \<Rightarrow> if nf_is_watchdog f then None else None))))"

text \<open>
  The drain.  The loop condition chains the receive, the decoding and the parse, so it
  ends at the first datagram that does not parse; that datagram is consumed, the ones
  behind it stay in the socket.
\<close>

fun poll :: "string list \<Rightarrow> service_notification list \<times> string list" where
  "poll [] = ([], [])"
| "poll (d # ds) =
     (let text = take MAX_DATAGRAM_SIZE d in
      if utf8_valid text then
        (case parse_notification text of
           Some n \<Rightarrow> (let (ns, rest) = poll ds in (n # ns, rest))
         | None \<Rightarrow> ([], ds))
      else ([], ds))"

section \<open>What the client sends is what the parser reads\<close>

definition field_text :: "string \<Rightarrow> bool" where
  "field_text s \<longleftrightarrow> newline \<notin> set s \<and> (s = [] \<or> last s \<noteq> carriage_return)"

lemma newline_literals [simp]:
  "newline \<notin> set ''SERVICE_NAME=''" "newline \<notin> set ''READY=''" "newline \<notin> set ''STATUS=''"
  "newline \<notin> set ''HEALTH=''" "newline \<notin> set ''STOPPING=''" "newline \<notin> set ''WATCHDOG=1''"
  by (simp_all add: newline_def)

lemma field_line:
  assumes "field_text v" and "newline \<notin> set k" and "k \<noteq> []" and "last k \<noteq> carriage_return"
  shows "lines (k @ v @ newline # s) = (k @ v) # lines s"
proof -
  have "strip_cr (k @ v) = k @ v"
    using assms by (cases v rule: rev_cases) (auto simp: field_text_def strip_cr_def)
  then show ?thesis
    using lines_terminated [of "k @ v" s] assms by (simp add: field_text_def)
qed

lemma name_line:
  "field_text name \<Longrightarrow>
     lines (''SERVICE_NAME='' @ name @ newline # s) = (''SERVICE_NAME='' @ name) # lines s"
  using field_line [of name "''SERVICE_NAME=''" s] newline_literals(1)
  by (simp add: carriage_return_def)

lemma parse_field_simps [simp]:
  "parse_field (''SERVICE_NAME='' @ v) f = f\<lparr>nf_service_name := Some v\<rparr>"
  "parse_field (''READY='' @ v) f = f\<lparr>nf_ready_pid := parse_unsigned u32_max v\<rparr>"
  "parse_field (''STATUS='' @ v) f = f\<lparr>nf_status_msg := Some v\<rparr>"
  "parse_field (''HEALTH='' @ v) f = f\<lparr>nf_health := health_from_str v\<rparr>"
  "parse_field (''STOPPING='' @ v) f = f\<lparr>nf_stopping_reason := Some v\<rparr>"
  "parse_field ''WATCHDOG=1'' f = f\<lparr>nf_is_watchdog := True\<rparr>"
  by (simp_all add: parse_field_def)

lemma parse_ready:
  assumes "field_text (nt_service_name n)" and "process_id \<le> u32_max"
  shows "parse_notification (notifier_ready n process_id) = Some (NotifyReady (nt_service_name n))"
proof -
  let ?tail = "''READY='' @ decimal process_id"
  have "lines ?tail = [?tail]"
    by (rule lines_last) (use newline_literals decimal_chars in auto)
  then show ?thesis
    using name_line [OF assms(1), of ?tail] parse_field_simps(1) [of "nt_service_name n"]
      parse_field_simps(2) [of "decimal process_id"] parse_unsigned_decimal [OF assms(2)]
    unfolding notifier_ready_def parse_notification_def by (simp add: no_fields_def Let_def)
qed

lemma parse_status:
  assumes "field_text (nt_service_name n)" and "field_text message"
  shows "parse_notification (notifier_status n message h) =
           Some (NotifyStatusUpdate (nt_service_name n) message h)"
proof -
  let ?last = "''HEALTH='' @ health_as_str h"
  have "newline \<notin> set (health_as_str h)" by (cases h) (simp_all add: newline_def)
  then have last: "lines ?last = [?last]"
    by (intro lines_last) (use newline_literals in auto)
  have mid: "lines (''STATUS='' @ message @ newline # ?last) = (''STATUS='' @ message) # lines ?last"
    using field_line [of message "''STATUS=''" ?last] assms(2) newline_literals(3)
    by (simp add: carriage_return_def)
  show ?thesis
    using name_line [OF assms(1), of "''STATUS='' @ message @ newline # ?last"] mid last
      parse_field_simps(1) [of "nt_service_name n"] parse_field_simps(3) [of message]
      parse_field_simps(4) [of "health_as_str h"] health_round_trip [of h]
    unfolding notifier_status_def parse_notification_def by (simp add: no_fields_def Let_def)
qed

lemma parse_stopping:
  assumes "field_text (nt_service_name n)" and "newline \<notin> set reason"
  shows "parse_notification (notifier_stopping n reason) = Some (NotifyStopping (nt_service_name n))"
proof -
  let ?tail = "''STOPPING='' @ reason"
  have "lines ?tail = [?tail]"
    by (rule lines_last) (use newline_literals assms in auto)
  then show ?thesis
    using name_line [OF assms(1), of ?tail] parse_field_simps(1) [of "nt_service_name n"]
      parse_field_simps(5) [of reason]
    unfolding notifier_stopping_def parse_notification_def by (simp add: no_fields_def Let_def)
qed

lemma parse_watchdog:
  assumes "field_text (nt_service_name n)"
  shows "parse_notification (notifier_watchdog n) = None"
proof -
  have "lines ''WATCHDOG=1'' = [''WATCHDOG=1'']"
    by (rule lines_last) (use newline_literals in auto)
  then show ?thesis
    using name_line [OF assms(1), of "''WATCHDOG=1''"] parse_field_simps(1) [of "nt_service_name n"]
      parse_field_simps(6)
    unfolding notifier_watchdog_def parse_notification_def by (simp add: no_fields_def Let_def)
qed

section \<open>The drain\<close>

definition readable :: "string \<Rightarrow> service_notification option" where
  "readable d =
     (let text = take MAX_DATAGRAM_SIZE d in if utf8_valid text then parse_notification text else None)"

lemma poll_Cons:
  "poll (d # ds) =
     (case readable d of
        Some n \<Rightarrow> (let (ns, rest) = poll ds in (n # ns, rest))
      | None \<Rightarrow> ([], ds))"
  by (simp add: readable_def Let_def)

declare poll.simps(2) [simp del]

lemma poll_all_readable:
  "\<forall>d \<in> set ds. readable d \<noteq> None \<Longrightarrow> poll ds = (map (the \<circ> readable) ds, [])"
  by (induction ds) (auto simp: poll_Cons)

lemma poll_stops:
  "\<forall>d \<in> set ds. readable d \<noteq> None \<Longrightarrow> readable bad = None \<Longrightarrow>
     poll (ds @ bad # rest) = (map (the \<circ> readable) ds, rest)"
  by (induction ds) (auto simp: poll_Cons)

end
