(* ===== verification/Clock.thy ===== *)
theory Clock
  imports Prelude
begin

text \<open>
  Readings of \<open>Instant::now()\<close>.  A clock is the infinite sequence of the instants that the calls
  return, in call order; every operation hands the rest of the clock back, so each call of the
  source is its own reading.  An instant is a count of nanoseconds whose seconds fit an \<open>i64\<close>.
\<close>

type_synonym clock = "nat \<Rightarrow> nat"

definition now :: "clock \<Rightarrow> nat" where
  "now ck = ck 0"

definition later :: "clock \<Rightarrow> clock" where
  "later ck = (\<lambda>n. ck (Suc n))"

definition NANOS :: nat where "NANOS = 1000000000"
definition instant_max :: nat where "instant_max = 2 ^ 63 * NANOS - 1"

text \<open>\<open>instant.checked_add(Duration::from_secs(secs))\<close>.\<close>

definition add_secs :: "nat \<Rightarrow> nat \<Rightarrow> nat option" where
  "add_secs t secs = checked_add instant_max t (secs * NANOS)"

text \<open>The clock is monotonic.\<close>

definition clock_ok :: "clock \<Rightarrow> bool" where
  "clock_ok ck \<longleftrightarrow> mono ck \<and> (\<forall>n. ck n \<le> instant_max)"

lemma clock_ok_later [intro, simp]: "clock_ok ck \<Longrightarrow> clock_ok (later ck)"
  by (simp add: clock_ok_def later_def mono_def)

lemma now_later: "clock_ok ck \<Longrightarrow> now ck \<le> now (later ck)"
  by (simp add: clock_ok_def now_def later_def mono_def)

lemma clock_const_ok [simp]: "t \<le> instant_max \<Longrightarrow> clock_ok (\<lambda>_. t)"
  by (simp add: clock_ok_def mono_def)

lemma clock_const [simp]: "now (\<lambda>_. t) = t" "later (\<lambda>_. t) = (\<lambda>_. t)"
  by (simp_all add: now_def later_def)

lemma add_secs_u32: "secs < 2 ^ 32 \<Longrightarrow> t + secs * NANOS \<le> instant_max \<Longrightarrow> add_secs t secs = Some (t + secs * NANOS)"
  by (simp add: add_secs_def checked_add_def)

text \<open>A lifetime of \<open>u64::MAX\<close> seconds cannot be represented.\<close>

lemma add_secs_u64_max: "add_secs t u64_max = None"
  by (simp add: add_secs_def checked_add_def instant_max_def NANOS_def u64_max_def)

end
