(* ===== verification/Restart_Queue.thy ===== *)
theory Restart_Queue
  imports Service Clock "HOL-Library.Multiset"
begin

text \<open>
  The restart policy and queue of \<open>init/granola/src/supervisor/restart.rs\<close>.  \<open>elapsed\<close> is the
  truncated difference of two instants: it saturates at zero.
\<close>

section \<open>Definitions\<close>

abbreviation (input) RESTART_DELAY :: nat where "RESTART_DELAY \<equiv> 1 * NANOS"
abbreviation (input) MAX_RESTART_ATTEMPTS :: nat where "MAX_RESTART_ATTEMPTS \<equiv> 5"
abbreviation (input) RESTART_WINDOW :: nat where "RESTART_WINDOW \<equiv> 60 * NANOS"
abbreviation (input) RESCHEDULE_DELAY :: nat where "RESCHEDULE_DELAY \<equiv> 1 * NANOS"

record pending_restart =
  pr_name :: string
  due_at :: nat

record restart_queue =
  pending :: "pending_restart list"

definition restart_queue_new :: restart_queue where
  "restart_queue_new = \<lparr>pending = []\<rparr>"

definition should_restart :: "service_state \<Rightarrow> int option \<Rightarrow> clock \<Rightarrow> bool \<times> clock" where
  "should_restart st exit_code ck =
     (if status st = Stopping then (False, ck)
      else if exit_code = Some 0 then (False, ck)
      else case last_restart st of
        Some prev \<Rightarrow>
          if now ck - prev > RESTART_WINDOW then (True, later ck)
          else (restart_count st < MAX_RESTART_ATTEMPTS, later ck)
      | None \<Rightarrow> (restart_count st < MAX_RESTART_ATTEMPTS, ck))"

definition begin_attempt :: "service_state \<Rightarrow> clock \<Rightarrow> service_state \<times> clock" where
  "begin_attempt st ck =
     (st\<lparr>status := Pending, restart_count := saturating_add u32_max (restart_count st) 1,
         last_restart := Some (now ck)\<rparr>, later ck)"

definition enqueue :: "string \<Rightarrow> restart_queue \<Rightarrow> clock \<Rightarrow> restart_queue \<times> clock" where
  "enqueue name q ck =
     (case checked_add instant_max (now ck) RESTART_DELAY of
        Some t \<Rightarrow> (q\<lparr>pending := pending q @ [\<lparr>pr_name = name, due_at = t\<rparr>]\<rparr>, later ck)
      | None \<Rightarrow>
          (q\<lparr>pending := pending q @ [\<lparr>pr_name = name, due_at = now (later ck)\<rparr>]\<rparr>,
           later (later ck)))"

definition cancel :: "string \<Rightarrow> restart_queue \<Rightarrow> restart_queue" where
  "cancel name q = q\<lparr>pending := filter (\<lambda>r. pr_name r \<noteq> name) (pending q)\<rparr>"

definition mark_failed :: "service_state \<Rightarrow> service_state" where
  "mark_failed st = st\<lparr>status := Failed\<rparr>"

definition schedule ::
  "restart_queue \<Rightarrow> service_state \<Rightarrow> clock \<Rightarrow> restart_queue \<times> service_state \<times> clock" where
  "schedule q st ck =
     (let (st', ck1) = begin_attempt st ck;
          (q', ck2) = enqueue (svc_name (service_def st')) q ck1
      in (q', st', ck2))"

definition record_spawn_failure ::
  "restart_queue \<Rightarrow> service_state \<Rightarrow> clock \<Rightarrow> restart_queue \<times> service_state \<times> clock" where
  "record_spawn_failure q st ck =
     (let (st', ck1) = begin_attempt st ck
      in if restart_count st' \<ge> MAX_RESTART_ATTEMPTS
         then (cancel (svc_name (service_def st')) q, mark_failed st', ck1)
         else let (q', ck2) = enqueue (svc_name (service_def st')) q ck1 in (q', st', ck2))"

definition is_queued :: "restart_queue \<Rightarrow> string \<Rightarrow> bool" where
  "is_queued q name = (\<exists>r \<in> set (pending q). pr_name r = name)"

text \<open>
  \<open>take_due\<close> empties the queue and puts back what is not due or not startable, in order.
\<close>

definition resolve_pending ::
  "nat \<Rightarrow> (string \<Rightarrow> bool) \<Rightarrow> pending_restart \<Rightarrow> restart_queue \<times> string list \<Rightarrow> restart_queue \<times> string list" where
  "resolve_pending t deps_ready r qr =
     (let (q, ready) = qr in
      if t < due_at r then (q\<lparr>pending := pending q @ [r]\<rparr>, ready)
      else if \<not> deps_ready (pr_name r) then
        (q\<lparr>pending := pending q @
             [\<lparr>pr_name = pr_name r,
               due_at = (case checked_add instant_max t RESCHEDULE_DELAY of Some u \<Rightarrow> u | None \<Rightarrow> t)\<rparr>]\<rparr>,
         ready)
      else (q, ready @ [pr_name r]))"

definition take_due ::
  "restart_queue \<Rightarrow> (string \<Rightarrow> bool) \<Rightarrow> clock \<Rightarrow> restart_queue \<times> string list \<times> clock" where
  "take_due q deps_ready ck =
     (let t = now ck;
          (q', ready) = fold (resolve_pending t deps_ready) (pending q) (q\<lparr>pending := []\<rparr>, [])
      in (q', ready, later ck))"

section \<open>The queue as a multiset of names\<close>

definition queued_names :: "restart_queue \<Rightarrow> string list" where
  "queued_names q = map pr_name (pending q)"

lemma is_queued_iff: "is_queued q name \<longleftrightarrow> name \<in> set (queued_names q)"
  by (auto simp: is_queued_def queued_names_def)

lemma queued_names_new [simp]: "queued_names restart_queue_new = []"
  by (simp add: queued_names_def restart_queue_new_def)

lemma queued_names_enqueue: "enqueue name q ck = (q', ck') \<Longrightarrow> queued_names q' = queued_names q @ [name]"
  by (auto simp: enqueue_def queued_names_def split: option.splits)

lemma queued_names_cancel: "queued_names (cancel name q) = filter (\<lambda>n. n \<noteq> name) (queued_names q)"
  by (simp add: queued_names_def cancel_def filter_map comp_def)

lemma begin_attempt_simps:
  assumes "begin_attempt st ck = (st', ck')"
  shows "status st' = Pending" "service_def st' = service_def st" "pid st' = pid st"
    "restart_count st' = saturating_add u32_max (restart_count st) 1"
    "last_restart st' = Some (now ck)" "listener_fd st' = listener_fd st" "last_status st' = last_status st"
  using assms by (auto simp: begin_attempt_def)

lemma schedule_result:
  assumes "schedule q st ck = (q', st', ck')"
  shows "queued_names q' = queued_names q @ [svc_name (service_def st)]"
    and "status st' = Pending" and "service_def st' = service_def st" and "pid st' = pid st"
    and "restart_count st' = saturating_add u32_max (restart_count st) 1"
    and "last_restart st' = Some (now ck)"
  using assms
  by (auto simp: schedule_def begin_attempt_def Let_def split: prod.splits dest: queued_names_enqueue)

lemma record_spawn_failure_result:
  assumes "record_spawn_failure q st ck = (q', st', ck')"
  shows "service_def st' = service_def st" and "pid st' = pid st"
    and "restart_count st' = saturating_add u32_max (restart_count st) 1"
    and "if MAX_RESTART_ATTEMPTS \<le> saturating_add u32_max (restart_count st) 1
         then status st' = Failed \<and>
              queued_names q' = filter (\<lambda>n. n \<noteq> svc_name (service_def st)) (queued_names q)
         else status st' = Pending \<and> queued_names q' = queued_names q @ [svc_name (service_def st)]"
  using assms
  by (auto simp: record_spawn_failure_def begin_attempt_def mark_failed_def queued_names_cancel Let_def
      split: prod.splits if_splits dest: queued_names_enqueue)

definition due_now :: "nat \<Rightarrow> (string \<Rightarrow> bool) \<Rightarrow> pending_restart \<Rightarrow> bool" where
  "due_now t deps_ready r \<longleftrightarrow> due_at r \<le> t \<and> deps_ready (pr_name r)"

lemma fold_resolve_pending:
  "fold (resolve_pending t deps_ready) rs (q, ready) = (q', ready') \<Longrightarrow>
     ready' = ready @ map pr_name (filter (due_now t deps_ready) rs) \<and>
     queued_names q' = queued_names q @ map pr_name (filter (\<lambda>r. \<not> due_now t deps_ready r) rs)"
proof (induction rs arbitrary: q ready)
  case Nil
  then show ?case by simp
next
  case (Cons r rs)
  obtain q1 r1 where step: "resolve_pending t deps_ready r (q, ready) = (q1, r1)" by fastforce
  have "fold (resolve_pending t deps_ready) rs (q1, r1) = (q', ready')"
    using Cons.prems step by simp
  from Cons.IH [OF this] show ?case
    using step by (auto simp: resolve_pending_def due_now_def queued_names_def split: if_splits)
qed

lemma take_due_result:
  assumes "take_due q deps_ready ck = (q', ready, ck')"
  shows "ready = map pr_name (filter (due_now (now ck) deps_ready) (pending q))"
    and "queued_names q' = map pr_name (filter (\<lambda>r. \<not> due_now (now ck) deps_ready r) (pending q))"
    and "ck' = later ck"
  using assms fold_resolve_pending [of "now ck" deps_ready "pending q" "q\<lparr>pending := []\<rparr>" "[]"]
  by (auto simp: take_due_def Let_def queued_names_def split: prod.splits)

lemma take_due_mset:
  assumes "take_due q deps_ready ck = (q', ready, ck')"
  shows "mset (queued_names q) = mset ready + mset (queued_names q')"
proof -
  have "mset (pending q) = filter_mset (due_now (now ck) deps_ready) (mset (pending q))
          + filter_mset (\<lambda>r. \<not> due_now (now ck) deps_ready r) (mset (pending q))"
    by (rule multiset_partition)
  from arg_cong [OF this, of "image_mset pr_name"] show ?thesis
    using take_due_result [OF assms] by (simp add: queued_names_def flip: mset_filter)
qed

end
