(* ===== verification/Rust_Paths.thy ===== *)
theory Rust_Paths
  imports Rust_Strings
begin

text \<open>
  The operations of \<open>std::path\<close> that the components call, on paths as UTF-8 strings: the extension
  and stem of a file name, and \<open>PathBuf::join\<close>, where an absolute second part replaces the first.
\<close>

text \<open>The last component of the path of a directory entry.\<close>

definition file_name_of :: "string \<Rightarrow> string" where
  "file_name_of path = rev (takeWhile (\<lambda>c. c \<noteq> CHR ''/'') (rev path))"

text \<open>\<open>Path::extension\<close>: what follows the last dot of the file name, if the dot is not first.\<close>

definition extension :: "string \<Rightarrow> string option" where
  "extension path =
     (let file_name = file_name_of path;
          ext = rev (takeWhile (\<lambda>c. c \<noteq> CHR ''.'') (rev file_name));
          stem = rev (dropWhile (\<lambda>c. c \<noteq> CHR ''.'') (rev file_name))
      in if length stem \<le> 1 \<or> file_name = ''..'' then None else Some ext)"

text \<open>\<open>Path::file_stem\<close>: what precedes that dot, or the whole name.\<close>

definition file_stem :: "string \<Rightarrow> string" where
  "file_stem path =
     (let file_name = file_name_of path;
          stem = rev (dropWhile (\<lambda>c. c \<noteq> CHR ''.'') (rev file_name))
      in if length stem \<le> 1 \<or> file_name = ''..'' then file_name else butlast stem)"

definition path_join :: "string \<Rightarrow> string \<Rightarrow> string" where
  "path_join base p =
     (if p \<noteq> [] \<and> hd p = CHR ''/'' then p
      else if base = [] then p
      else if last base = CHR ''/'' then base @ p
      else base @ ''/'' @ p)"

lemma file_name_of_id: "CHR ''/'' \<notin> set s \<Longrightarrow> file_name_of s = s"
proof -
  assume "CHR ''/'' \<notin> set s"
  then have "takeWhile (\<lambda>c. c \<noteq> CHR ''/'') (rev s) = rev s"
    by (simp only: takeWhile_eq_all_conv set_rev) auto
  then show ?thesis by (simp only: file_name_of_def rev_rev_ident)
qed

lemma stem_and_extension:
  assumes "stem \<noteq> []" "CHR ''.'' \<notin> set ext" "ext \<noteq> []" "CHR ''/'' \<notin> set (stem @ ext)"
  shows "extension (stem @ ''.'' @ ext) = Some ext" "file_stem (stem @ ''.'' @ ext) = stem"
proof -
  let ?f = "stem @ ''.'' @ ext"
  have f: "file_name_of ?f = ?f" using assms(4) by (intro file_name_of_id) auto
  have r: "takeWhile (\<lambda>c. c \<noteq> CHR ''.'') (rev ?f) = rev ext"
    "dropWhile (\<lambda>c. c \<noteq> CHR ''.'') (rev ?f) = CHR ''.'' # rev stem"
    using assms(2) by (simp_all add: takeWhile_append dropWhile_append)
  have ne: "?f \<noteq> ''..''" using assms by (cases stem; cases ext) auto
  show "extension ?f = Some ext" "file_stem ?f = stem"
    using assms(1) ne unfolding extension_def file_stem_def f Let_def r by auto
qed

end
