(* ===== verification/Loader.thy ===== *)
theory Loader
  imports Service Rust_Paths
begin

text \<open>
  Granola's service loader (\<open>init/granola/src/loader.rs\<close>): the directory scan, variable
  substitution in commands, the depth-first cycle check on the dependency graph, and
  \<open>prepare\<close>, which joins the last two.  The TOML parser and the file system are parameters
  of the scan.
\<close>

section \<open>Definitions\<close>

definition read_service_file ::
  "(string \<Rightarrow> string + string) \<Rightarrow> (string \<Rightarrow> string + service) \<Rightarrow> string \<Rightarrow> service option" where
  "read_service_file read_to_string toml path =
     (case read_to_string path of
        Inl _ \<Rightarrow> None
      | Inr content \<Rightarrow> (case toml content of Inl _ \<Rightarrow> None | Inr svc \<Rightarrow> Some svc))"

fun scan_entries ::
  "(string \<Rightarrow> string + string) \<Rightarrow> (string \<Rightarrow> string + service) \<Rightarrow> (string + string) list \<Rightarrow>
   service list \<Rightarrow> string + service list" where
  "scan_entries rd toml [] files = Ok files"
| "scan_entries rd toml (Inl _ # es) files = Err ''Failed to read directory entry''"
| "scan_entries rd toml (Inr path # es) files =
     (if extension path \<noteq> Some ''service'' then scan_entries rd toml es files
      else case read_service_file rd toml path of
        None \<Rightarrow> scan_entries rd toml es files
      | Some svc \<Rightarrow> scan_entries rd toml es (files @ [svc]))"

definition scan_services ::
  "(string \<Rightarrow> string + string) \<Rightarrow> (string \<Rightarrow> string + service) \<Rightarrow> string + (string + string) list \<Rightarrow>
   string + service list" where
  "scan_services rd toml read_dir =
     (case read_dir of Inl _ \<Rightarrow> Err ''Failed to read dir'' | Inr es \<Rightarrow> scan_entries rd toml es [])"

text \<open>Variable substitution.  Characters of a name are consumed while they can be part of one.\<close>

definition var_char :: "char \<Rightarrow> bool" where
  "var_char ch = (is_ascii_alphanumeric ch \<or> ch = CHR ''_'')"

definition append_variable :: "string \<Rightarrow> (string \<rightharpoonup> string) \<Rightarrow> string \<Rightarrow> string \<times> string" where
  "append_variable chars env result =
     (let name = takeWhile var_char chars; rest = dropWhile var_char chars in
      case env name of
        Some v \<Rightarrow> (rest, result @ v)
      | None \<Rightarrow> (rest, (result @ [CHR ''$'']) @ name))"

function substitute_loop :: "(string \<rightharpoonup> string) \<Rightarrow> string \<Rightarrow> string \<Rightarrow> string" where
  "substitute_loop env [] result = result"
| "substitute_loop env (ch # chars) result =
     (if ch = CHR ''$''
      then (let (chars', result') = append_variable chars env result
            in substitute_loop env chars' result')
      else substitute_loop env chars (result @ [ch]))"
  by pat_completeness auto
termination
proof (relation "measure (\<lambda>(env, chars, result). length chars)", goal_cases)
  case 1
  then show ?case by simp
next
  case (2 env ch chars result x xa y)
  then have "xa = dropWhile var_char chars"
    by (auto simp: append_variable_def Let_def split: option.splits)
  then show ?case using length_dropWhile_le [of var_char chars] by simp
next
  case 3
  then show ?case by simp
qed

definition substitute_vars :: "string \<Rightarrow> (string \<rightharpoonup> string) \<Rightarrow> string" where
  "substitute_vars text env = substitute_loop env text []"

text \<open>The cycle check.  The index maps a name to its service; names outside it are leaves.\<close>

type_synonym index = "(string \<times> service) list"

fun join_arrow :: "string list \<Rightarrow> string" where
  "join_arrow [] = []"
| "join_arrow [s] = s"
| "join_arrow (s # ss) = s @ '' -> '' @ join_arrow ss"

definition cycle_message :: "string list \<Rightarrow> string \<Rightarrow> string" where
  "cycle_message stack name =
     ''Dependency cycle detected: '' @ join_arrow stack @ '' -> '' @ name"

definition deps_of :: "index \<Rightarrow> string \<Rightarrow> string list" where
  "deps_of idx name = (case map_of idx name of None \<Rightarrow> [] | Some svc \<Rightarrow> depends_on svc)"

function dfs_cycle :: "index \<Rightarrow> string \<Rightarrow> string set \<Rightarrow> string list \<Rightarrow> string + string set"
  and dfs_deps :: "index \<Rightarrow> string list \<Rightarrow> string set \<Rightarrow> string list \<Rightarrow> string + string set" where
  "dfs_cycle idx name visited stack =
     (if name \<in> set stack then Err (cycle_message stack name)
      else if name \<in> visited then Ok visited
      else (case (case map_of idx name of
                    None \<Rightarrow> Ok visited
                  | Some svc \<Rightarrow> dfs_deps idx (depends_on svc) visited (stack @ [name])) of
              Inl e \<Rightarrow> Err e
            | Inr v \<Rightarrow> Ok (insert name v)))"
| "dfs_deps idx [] visited stack = Ok visited"
| "dfs_deps idx (d # ds) visited stack =
     (case dfs_cycle idx d visited stack of
        Inl e \<Rightarrow> Err e
      | Inr v \<Rightarrow> dfs_deps idx ds v stack)"
  by pat_completeness auto
termination
proof (relation "measures
    [\<lambda>x. case x of Inl (idx, _, _, stack) \<Rightarrow> card (set (keys_of idx) - set stack)
                 | Inr (idx, _, _, stack) \<Rightarrow> card (set (keys_of idx) - set stack),
     \<lambda>x. case x of Inl _ \<Rightarrow> 0 | Inr (_, ds, _, _) \<Rightarrow> Suc (length ds)]", goal_cases)
  case 1
  then show ?case by simp
next
  case (2 idx name visited stack svc)
  then have "name \<in> set (keys_of idx) - set stack" by (auto dest: map_of_Some_keys)
  then have "card (set (keys_of idx) - set stack - {name}) < card (set (keys_of idx) - set stack)"
    by (meson card_Diff1_less finite_Diff finite_set)
  moreover have "set (keys_of idx) - insert name (set stack) = set (keys_of idx) - set stack - {name}"
    by auto
  ultimately show ?case by simp
qed auto

fun detect_from :: "index \<Rightarrow> string list \<Rightarrow> string set \<Rightarrow> string + string set" where
  "detect_from idx [] visited = Ok visited"
| "detect_from idx (name # names) visited =
     (if name \<in> visited then detect_from idx names visited
      else case dfs_cycle idx name visited [] of
        Inl e \<Rightarrow> Err e
      | Inr v \<Rightarrow> detect_from idx names v)"

definition detect_cycles :: "index \<Rightarrow> string + unit" where
  "detect_cycles idx =
     (case detect_from idx (sort (keys_of idx)) {} of Inl e \<Rightarrow> Err e | Inr _ \<Rightarrow> Ok ())"

definition prepare :: "service list \<Rightarrow> (string \<rightharpoonup> string) \<Rightarrow> string + service list" where
  "prepare defs env =
     (case detect_cycles (collect_map (map (\<lambda>svc. (svc_name svc, svc)) defs)) of
        Inl e \<Rightarrow> Err e
      | Inr _ \<Rightarrow>
          Ok (map (\<lambda>svc. \<lparr>svc_name = svc_name svc, command = substitute_vars (command svc) env,
                          depends_on = depends_on svc\<rparr>) defs))"

definition load ::
  "(string \<Rightarrow> string + string) \<Rightarrow> (string \<Rightarrow> string + service) \<Rightarrow> string + (string + string) list \<Rightarrow>
   (string \<rightharpoonup> string) \<Rightarrow> string + service list" where
  "load rd toml read_dir env =
     (case scan_services rd toml read_dir of
        Inl _ \<Rightarrow> Err ''Failed to scan service files''
      | Inr defs \<Rightarrow> prepare defs env)"

section \<open>Substitution\<close>

declare substitute_loop.simps(2) [simp del]

lemma substitute_loop_acc: "substitute_loop env s (a @ b) = a @ substitute_loop env s b"
proof (induction env s b arbitrary: a rule: substitute_loop.induct)
  case (1 env result)
  then show ?case by simp
next
  case (2 env ch chars result)
  show ?case
  proof (cases "ch = CHR ''$''")
    case True
    obtain c r where ap: "append_variable chars env result = (c, r)" by fastforce
    have "append_variable chars env (a @ result) = (c, a @ r)"
      using ap by (auto simp: append_variable_def Let_def split: option.splits)
    then show ?thesis using True ap 2(1) [of "(c, r)" c r a]
      by (simp add: substitute_loop.simps(2))
  next
    case False
    then show ?thesis using 2(2) [of a] by (simp add: substitute_loop.simps(2))
  qed
qed

lemma substitute_vars_Nil [simp]: "substitute_vars [] env = []"
  by (simp add: substitute_vars_def)

lemma substitute_vars_Cons:
  "substitute_vars (ch # chars) env =
     (if ch = CHR ''$''
      then (let name = takeWhile var_char chars in
            (case env name of Some v \<Rightarrow> v | None \<Rightarrow> CHR ''$'' # name)
              @ substitute_vars (dropWhile var_char chars) env)
      else ch # substitute_vars chars env)"
proof -
  have acc: "substitute_loop env s r = r @ substitute_loop env s []" for s r
    using substitute_loop_acc [of env s r "[]"] by simp
  show ?thesis
  proof (cases "ch = CHR ''$''")
    case True
    obtain c r where ap: "append_variable chars env [] = (c, r)" by fastforce
    then have "substitute_vars (ch # chars) env = r @ substitute_vars c env"
      using True acc [of c r] by (simp add: substitute_vars_def substitute_loop.simps(2))
    then show ?thesis using True ap by (auto simp: append_variable_def Let_def split: option.splits)
  next
    case False
    then show ?thesis using acc [of chars "[ch]"]
      by (simp add: substitute_vars_def substitute_loop.simps(2))
  qed
qed

lemma substitute_vars_plain:
  "CHR ''$'' \<notin> set a \<Longrightarrow> substitute_vars (a @ s) env = a @ substitute_vars s env"
  by (induction a) (auto simp: substitute_vars_Cons)

fun var_refs :: "string \<Rightarrow> string list" where
  "var_refs [] = []"
| "var_refs (ch # chars) =
     (if ch = CHR ''$'' then takeWhile var_char chars # var_refs chars else var_refs chars)"

lemma var_refs_append: "CHR ''$'' \<notin> set a \<Longrightarrow> var_refs (a @ s) = var_refs s"
  by (induction a) auto

lemma var_refs_dropWhile: "var_refs (dropWhile var_char s) = var_refs s"
proof -
  have "CHR ''$'' \<notin> set (takeWhile var_char s)"
    by (auto dest: set_takeWhileD simp: var_char_def is_ascii_alphanumeric_def byte_between_def)
  then show ?thesis using var_refs_append [of "takeWhile var_char s" "dropWhile var_char s"] by simp
qed

lemma substitute_vars_unknown:
  "\<forall>n \<in> set (var_refs src). env n = None \<Longrightarrow> substitute_vars src env = src"
proof (induction src rule: length_induct)
  case (1 src)
  show ?case
  proof (cases src)
    case Nil
    then show ?thesis by simp
  next
    case (Cons ch chars)
    have len: "length (dropWhile var_char chars) < length src"
      using Cons length_dropWhile_le [of var_char chars] by simp
    show ?thesis
      using Cons 1 len by (auto simp: substitute_vars_Cons var_refs_dropWhile Let_def)
  qed
qed

section \<open>The cycle check\<close>

definition edges :: "index \<Rightarrow> (string \<times> string) set" where
  "edges idx = {(a, b). b \<in> set (deps_of idx a)}"

declare dfs_cycle.simps [simp del] dfs_deps.simps [simp del]

lemma dfs_cycle_unfold:
  "dfs_cycle idx name visited stack =
     (if name \<in> set stack then Err (cycle_message stack name)
      else if name \<in> visited then Ok visited
      else (case dfs_deps idx (deps_of idx name) visited (stack @ [name]) of
              Inl e \<Rightarrow> Err e | Inr v \<Rightarrow> Ok (insert name v)))"
  by (subst dfs_cycle.simps) (auto simp: deps_of_def dfs_deps.simps split: option.splits)

lemma edges_iff: "(a, b) \<in> edges idx \<longleftrightarrow> b \<in> set (deps_of idx a)"
  by (simp add: edges_def)

lemma edges_domain: "(a, b) \<in> edges idx \<Longrightarrow> a \<in> set (keys_of idx)"
  by (cases "map_of idx a") (auto simp: edges_iff deps_of_def dest: map_of_Some_keys)

lemma linked_reaches:
  "successively (\<lambda>a b. (a, b) \<in> E) (xs @ [y]) \<Longrightarrow> x \<in> set xs \<Longrightarrow> (x, y) \<in> E\<^sup>+"
proof (induction xs arbitrary: x)
  case Nil
  then show ?case by simp
next
  case (Cons z xs)
  show ?case
  proof (cases xs)
    case Nil
    then show ?thesis using Cons by auto
  next
    case (Cons w ws)
    with Cons.prems have zw: "(z, w) \<in> E" and rest: "successively (\<lambda>a b. (a, b) \<in> E) (xs @ [y])"
      by auto
    have wy: "(w, y) \<in> E\<^sup>+" using Cons.IH [OF rest] Cons by auto
    show ?thesis
      using Cons.prems(2) Cons.IH [OF rest] zw wy by (auto intro: trancl_into_trancl2)
  qed
qed

text \<open>An error means a real cycle: the stack is a path of the graph.\<close>

lemma dfs_error_cycle:
  "dfs_cycle idx name visited stack = Err e \<Longrightarrow>
     successively (\<lambda>a b. (a, b) \<in> edges idx) (stack @ [name]) \<Longrightarrow> \<not> acyclic (edges idx)"
  "dfs_deps idx ds visited stack = Err e \<Longrightarrow> stack \<noteq> [] \<Longrightarrow>
     set ds \<subseteq> set (deps_of idx (last stack)) \<Longrightarrow>
     successively (\<lambda>a b. (a, b) \<in> edges idx) stack \<Longrightarrow> \<not> acyclic (edges idx)"
proof (induction idx name visited stack and idx ds visited stack rule: dfs_cycle_dfs_deps.induct)
  case (1 idx name visited stack)
  show ?case
  proof (cases "name \<in> set stack")
    case True
    with 1(3) have "(name, name) \<in> (edges idx)\<^sup>+" by (rule linked_reaches)
    then show ?thesis by (auto simp: acyclic_def)
  next
    case notin: False
    with 1(2) have nv: "name \<notin> visited" by (auto simp: dfs_cycle_unfold split: if_splits)
    with notin 1(2) have err: "dfs_deps idx (deps_of idx name) visited (stack @ [name]) = Err e"
      by (auto simp: dfs_cycle_unfold split: sum.splits)
    then obtain svc where svc: "map_of idx name = Some svc"
      by (auto simp: deps_of_def dfs_deps.simps split: option.splits)
    show ?thesis
      using 1(1) [OF notin nv svc] err svc 1(3) by (simp add: deps_of_def)
  qed
next
  case (2 idx visited stack)
  then show ?case by (simp add: dfs_deps.simps)
next
  case (3 idx d ds visited stack)
  have link: "successively (\<lambda>a b. (a, b) \<in> edges idx) (stack @ [d])"
    using 3(4-6) by (auto simp: successively_append_iff edges_iff)
  show ?case
  proof (cases "dfs_cycle idx d visited stack")
    case (Inl e')
    then show ?thesis using 3(1) 3(3) link by (auto simp: dfs_deps.simps)
  next
    case (Inr v)
    then show ?thesis using 3(2) [OF Inr] 3(3-6) by (auto simp: dfs_deps.simps)
  qed
qed

text \<open>
  A success leaves a set of visited names that is closed under dependencies and lies on
  no cycle.
\<close>

definition finished :: "index \<Rightarrow> string set \<Rightarrow> bool" where
  "finished idx V \<longleftrightarrow>
     (\<forall>a \<in> V. set (deps_of idx a) \<subseteq> V) \<and> (\<forall>a \<in> V. (a, a) \<notin> (edges idx)\<^sup>+)"

lemma finished_reach:
  assumes "finished idx V" and "a \<in> V" and "(a, b) \<in> (edges idx)\<^sup>*"
  shows "b \<in> V"
  using assms(3) assms(2)
  by (induction rule: rtrancl_induct) (use assms(1) in \<open>auto simp: finished_def edges_iff\<close>)

lemma finished_insert:
  assumes fin: "finished idx V" and deps: "set (deps_of idx name) \<subseteq> V"
  shows "finished idx (insert name V)"
proof -
  have "(name, name) \<notin> (edges idx)\<^sup>+"
  proof
    assume cyc: "(name, name) \<in> (edges idx)\<^sup>+"
    then obtain d where d: "(name, d) \<in> edges idx" "(d, name) \<in> (edges idx)\<^sup>*"
      by (meson tranclD)
    then have "name \<in> V" using finished_reach [OF fin] deps by (auto simp: edges_iff)
    then show False using fin cyc by (simp add: finished_def)
  qed
  then show ?thesis using fin deps by (auto simp: finished_def)
qed

lemma dfs_ok_finished:
  "dfs_cycle idx name visited stack = Ok v \<Longrightarrow> finished idx visited \<Longrightarrow>
     finished idx v \<and> visited \<subseteq> v \<and> name \<in> v"
  "dfs_deps idx ds visited stack = Ok v \<Longrightarrow> finished idx visited \<Longrightarrow>
     finished idx v \<and> visited \<subseteq> v \<and> set ds \<subseteq> v"
proof (induction idx name visited stack and idx ds visited stack arbitrary: v and v
    rule: dfs_cycle_dfs_deps.induct)
  case (1 idx name visited stack)
  have notin: "name \<notin> set stack" using 1(2) by (auto simp: dfs_cycle_unfold split: if_splits)
  show ?case
  proof (cases "name \<in> visited")
    case True
    then show ?thesis using 1(2,3) notin by (auto simp: dfs_cycle_unfold)
  next
    case nv: False
    with notin 1(2) obtain w where w: "dfs_deps idx (deps_of idx name) visited (stack @ [name]) = Ok w"
      and v: "v = insert name w"
      by (auto simp: dfs_cycle_unfold split: sum.splits)
    have "finished idx w \<and> visited \<subseteq> w \<and> set (deps_of idx name) \<subseteq> w"
    proof (cases "map_of idx name")
      case None
      then show ?thesis using w 1(3) by (auto simp: deps_of_def dfs_deps.simps)
    next
      case (Some svc)
      then show ?thesis using 1(1) [OF notin nv Some] w 1(3) by (auto simp: deps_of_def)
    qed
    then show ?thesis using finished_insert [of idx w name] v by auto
  qed
next
  case (2 idx visited stack)
  then show ?case by (simp add: dfs_deps.simps)
next
  case (3 idx d ds visited stack)
  then obtain w where w: "dfs_cycle idx d visited stack = Ok w" and v: "dfs_deps idx ds w stack = Ok v"
    by (auto simp: dfs_deps.simps split: sum.splits)
  show ?case using 3(1) [OF w 3(4)] 3(2) [OF w v] by auto
qed

lemma detect_from_Ok:
  "detect_from idx names visited = Ok v \<Longrightarrow> finished idx visited \<Longrightarrow>
     finished idx v \<and> visited \<subseteq> v \<and> set names \<subseteq> v"
proof (induction idx names visited arbitrary: v rule: detect_from.induct)
  case (1 idx visited)
  then show ?case by simp
next
  case (2 idx name names visited)
  show ?case
  proof (cases "name \<in> visited")
    case True
    then show ?thesis using 2 by auto
  next
    case False
    then obtain w where w: "dfs_cycle idx name visited [] = Ok w" and v: "detect_from idx names w = Ok v"
      using 2(3) by (auto split: sum.splits)
    show ?thesis using 2(2) [OF False w v] dfs_ok_finished(1) [OF w 2(4)] by auto
  qed
qed

lemma detect_from_Err: "detect_from idx names visited = Err e \<Longrightarrow> \<not> acyclic (edges idx)"
  by (induction idx names visited rule: detect_from.induct)
    (auto split: if_splits sum.splits dest: dfs_error_cycle(1))

lemma detect_cycles_iff: "detect_cycles idx = Ok () \<longleftrightarrow> acyclic (edges idx)"
proof (cases "detect_from idx (sort (keys_of idx)) {}")
  case (Inl e)
  then show ?thesis using detect_from_Err by (auto simp: detect_cycles_def)
next
  case (Inr v)
  have "finished idx {}" by (simp add: finished_def)
  then have fin: "finished idx v" and all: "set (keys_of idx) \<subseteq> v"
    using detect_from_Ok [OF Inr] by auto
  have "acyclic (edges idx)"
    unfolding acyclic_def
  proof (intro allI notI)
    fix x assume cyc: "(x, x) \<in> (edges idx)\<^sup>+"
    then obtain y where "(x, y) \<in> edges idx" by (meson tranclD)
    then have "x \<in> v" using all edges_domain by blast
    then show False using fin cyc by (simp add: finished_def)
  qed
  then show ?thesis using Inr by (simp add: detect_cycles_def)
qed

lemma detect_cycles_cases: "detect_cycles idx = Ok () \<or> (\<exists>e. detect_cycles idx = Err e)"
  by (cases "detect_cycles idx") auto

end
