(* ===== verification/Supervisor.thy ===== *)
theory Supervisor
  imports Notify Restart_Queue Loader
begin

text \<open>
  The PID 1 supervisor: child spawning (\<open>supervisor/spawner.rs\<close>), child reaping
  (\<open>supervisor/reaper.rs\<close>), the published snapshot (\<open>supervisor/status.rs\<close>), the
  notification handlers (\<open>supervisor/notify.rs\<close>) and the event loop with its handlers
  (\<open>supervisor/mod.rs\<close>).  What the kernel answers is a parameter: the replies to spawn
  requests, the children \<open>waitpid\<close> returns, the datagrams in the notification socket and
  the readings of the clock.  Log lines are not modelled; captured output streams are
  recorded in the order they are handed to the logger.
\<close>

section \<open>Definitions\<close>

subsection \<open>Spawning\<close>

record spawn_result =
  sr_pid :: int
  sr_stdout :: int
  sr_stderr :: int

type_synonym 's spawn_fn = "'s \<Rightarrow> service_state \<Rightarrow> (string + spawn_result) \<times> service_state \<times> 's"

text \<open>
  The kernel's reply to one spawn request: which programs exist, and the outcome of fork
  and exec for a program, its arguments and the inherited listener (the child's process
  identifier and the two pipe ends, or an error).
\<close>

record os_reply =
  os_exists :: "string \<Rightarrow> bool"
  os_exec :: "string \<Rightarrow> string list \<Rightarrow> int option \<Rightarrow> string + nat \<times> int option \<times> int option"

type_synonym os_world = "nat \<Rightarrow> os_reply"

definition cast_signed :: "nat \<Rightarrow> int" where
  "cast_signed n = (if n < 2 ^ 31 then int n else int n - 2 ^ 32)"

definition spawner_spawn :: "os_world spawn_fn" where
  "spawner_spawn w st =
     (let w' = (\<lambda>n. w (Suc n)) in
      case argv (service_def st) of
        [] \<Rightarrow> (Err ''command must not be empty'', st, w')
      | program # arguments \<Rightarrow>
          if \<not> os_exists (w 0) program then (Err (''Binary not found: '' @ program), st, w')
          else case os_exec (w 0) program arguments (listener_fd st) of
            Inl _ \<Rightarrow> (Err ''Failed to spawn service'', st, w')
          | Inr (child_id, out, err) \<Rightarrow>
              (let st' = st\<lparr>pid := Some (cast_signed child_id), status := Starting\<rparr> in
               case out of
                 None \<Rightarrow> (Err ''Failed to take stdout'', st', w')
               | Some o' \<Rightarrow>
                   (case err of
                      None \<Rightarrow> (Err ''Failed to take stderr'', st', w')
                    | Some e' \<Rightarrow>
                        (Ok \<lparr>sr_pid = cast_signed child_id, sr_stdout = o', sr_stderr = e'\<rparr>, st', w'))))"

subsection \<open>Reaping\<close>

record child_exit =
  ce_pid :: int
  ce_exit_code :: "int option"
  ce_signal :: "int option"

datatype wait_status = WExited int | WSignaled int | WOther

fun decode_wait_status :: "int \<Rightarrow> wait_status \<Rightarrow> child_exit option" where
  "decode_wait_status p (WExited code) = Some \<lparr>ce_pid = p, ce_exit_code = Some code, ce_signal = None\<rparr>"
| "decode_wait_status p (WSignaled sig) = Some \<lparr>ce_pid = p, ce_exit_code = None, ce_signal = Some sig\<rparr>"
| "decode_wait_status p WOther = None"

type_synonym exits = "(string \<times> child_exit) list"

definition dispatch_exit :: "int \<Rightarrow> child_exit \<Rightarrow> (int \<rightharpoonup> string) \<times> exits \<Rightarrow> (int \<rightharpoonup> string) \<times> exits" where
  "dispatch_exit p ex ke =
     (let (known, service_exits) = ke in
      case known p of
        Some name \<Rightarrow> (known(p := None), service_exits @ [(name, ex)])
      | None \<Rightarrow> (known, service_exits))"

definition reap_child :: "int \<times> wait_status \<Rightarrow> (int \<rightharpoonup> string) \<times> exits \<Rightarrow> (int \<rightharpoonup> string) \<times> exits" where
  "reap_child child ke =
     (case decode_wait_status (fst child) (snd child) of
        None \<Rightarrow> ke
      | Some ex \<Rightarrow> dispatch_exit (fst child) ex ke)"

definition reap_all :: "(int \<rightharpoonup> string) \<Rightarrow> (int \<times> wait_status) list \<Rightarrow> (int \<rightharpoonup> string) \<times> exits" where
  "reap_all known children = fold reap_child children (known, [])"

definition reaper_track :: "int \<Rightarrow> string \<Rightarrow> (int \<rightharpoonup> string) \<Rightarrow> (int \<rightharpoonup> string)" where
  "reaper_track p name known = known(p \<mapsto> name)"

subsection \<open>The published snapshot\<close>

record view =
  view_name :: string
  view_status :: service_status
  view_restarts :: nat

text \<open>A watch channel holds its last value; the version counts the replacements.\<close>

record watch =
  watch_value :: "view list"
  watch_version :: nat

definition status_channel :: watch where
  "status_channel = \<lparr>watch_value = [], watch_version = 0\<rparr>"

definition snapshot_of :: "services \<Rightarrow> view list" where
  "snapshot_of svcs =
     sort_key view_name
       (map (\<lambda>(name, st). \<lparr>view_name = name, view_status = status st, view_restarts = restart_count st\<rparr>) svcs)"

definition publish :: "services \<Rightarrow> watch \<Rightarrow> watch" where
  "publish svcs tx =
     (let snapshot = snapshot_of svcs in
      if watch_value tx = snapshot then tx
      else tx\<lparr>watch_value := snapshot, watch_version := Suc (watch_version tx)\<rparr>)"

subsection \<open>The supervisor and its handlers\<close>

record 's supervisor =
  services :: services
  notify_socket :: "string list"
  known_pids :: "int \<rightharpoonup> string"
  restart_queue :: restart_queue
  captured :: "(string \<times> int \<times> int) list"
  status_tx :: watch
  spawner :: 's
  sup_clock :: clock

definition publish_status :: "'s supervisor \<Rightarrow> 's supervisor" where
  "publish_status s = s\<lparr>status_tx := publish (services s) (status_tx s)\<rparr>"

text \<open>Construction: one state per definition, with its pre-bound socket if binding worked.\<close>

definition initial_state :: "(string \<Rightarrow> string + int) \<Rightarrow> service \<Rightarrow> string \<times> service_state" where
  "initial_state pre_bind def =
     (let st = service_state_new def in
      (svc_name def,
       case pre_bind (svc_name def) of Inr fd \<Rightarrow> st\<lparr>listener_fd := Some fd\<rparr> | Inl _ \<Rightarrow> st))"

definition with_backends ::
  "string + unit \<Rightarrow> string + unit \<Rightarrow> (string \<Rightarrow> string + int) \<Rightarrow> service list \<Rightarrow> 's \<Rightarrow> watch \<Rightarrow> clock
   \<Rightarrow> string + 's supervisor" where
  "with_backends create_dir bind_notify pre_bind service_defs spw tx ck =
     and_then create_dir (\<lambda>_.
     and_then bind_notify (\<lambda>_.
       Ok \<lparr>services = collect_map (map (initial_state pre_bind) service_defs), notify_socket = [],
           known_pids = Map.empty, restart_queue = restart_queue_new, captured = [],
           status_tx = tx, spawner = spw, sup_clock = ck\<rparr>))"

definition handle_service_exit ::
  "string \<Rightarrow> int option \<Rightarrow> 's supervisor \<Rightarrow> 's supervisor" where
  "handle_service_exit name exit_code s =
     (case map_of (services s) name of
        None \<Rightarrow> s
      | Some st0 \<Rightarrow>
          (let st = st0\<lparr>pid := None\<rparr>;
               (again, ck) = should_restart st exit_code (sup_clock s)
           in if again then
                (let (q, st', ck') = schedule (restart_queue s) st ck in
                 s\<lparr>services := alter name (\<lambda>_. st') (services s), restart_queue := q, sup_clock := ck'\<rparr>)
              else if exit_code = Some 0 then
                s\<lparr>services := alter name (\<lambda>_. st\<lparr>status := Stopping\<rparr>) (services s), sup_clock := ck\<rparr>
              else
                s\<lparr>services := alter name (\<lambda>_. mark_failed st) (services s), sup_clock := ck\<rparr>))"

definition process_exits :: "exits \<Rightarrow> 's supervisor \<Rightarrow> 's supervisor" where
  "process_exits exits s =
     publish_status (fold (\<lambda>(name, ex). handle_service_exit name (ce_exit_code ex)) exits s)"

definition spawn_service :: "'s spawn_fn \<Rightarrow> string \<Rightarrow> 's supervisor \<Rightarrow> (string + unit) \<times> 's supervisor" where
  "spawn_service spawn name s =
     (case map_of (services s) name of
        None \<Rightarrow> (Err (''Service not found: '' @ name), s)
      | Some st \<Rightarrow>
          (case spawn (spawner s) st of
             (Inl e, st', sp) \<Rightarrow>
               (Err e, s\<lparr>services := alter name (\<lambda>_. st') (services s), spawner := sp\<rparr>)
           | (Inr r, st', sp) \<Rightarrow>
               (Ok (), publish_status
                 (s\<lparr>services := alter name (\<lambda>_. st') (services s), spawner := sp,
                    known_pids := reaper_track (sr_pid r) name (known_pids s),
                    captured := captured s @ [(name, sr_stdout r, sr_stderr r)]\<rparr>))))"

definition spawn_or_log :: "'s spawn_fn \<Rightarrow> string \<Rightarrow> 's supervisor \<Rightarrow> 's supervisor" where
  "spawn_or_log spawn name s =
     (case spawn_service spawn name s of
        (Inr _, s1) \<Rightarrow> s1
      | (Inl _, s1) \<Rightarrow>
          publish_status
            (case map_of (services s1) name of
               Some st \<Rightarrow>
                 (let (q, st', ck) = record_spawn_failure (restart_queue s1) st (sup_clock s1) in
                  s1\<lparr>services := alter name (\<lambda>_. st') (services s1), restart_queue := q, sup_clock := ck\<rparr>)
             | None \<Rightarrow> s1))"

definition start_ready_services :: "'s spawn_fn \<Rightarrow> 's supervisor \<Rightarrow> 's supervisor" where
  "start_ready_services spawn s =
     fold (spawn_or_log spawn)
       (filter (\<lambda>name. \<not> is_queued (restart_queue s) name) (collect_startable (services s))) s"

definition process_pending_restarts :: "'s spawn_fn \<Rightarrow> 's supervisor \<Rightarrow> 's supervisor" where
  "process_pending_restarts spawn s =
     (let (q, due, ck) =
            take_due (restart_queue s)
              (\<lambda>name. case map_of (services s) name of
                        None \<Rightarrow> False | Some st \<Rightarrow> are_satisfied (service_def st) (services s))
              (sup_clock s)
      in fold (spawn_or_log spawn) due (s\<lparr>restart_queue := q, sup_clock := ck\<rparr>))"

subsection \<open>Notifications\<close>

definition ready_state :: "service_state \<Rightarrow> service_state" where
  "ready_state st = st\<lparr>status := Ready, restart_count := 0\<rparr>"

definition apply_ready :: "string \<Rightarrow> 's supervisor \<Rightarrow> 's supervisor" where
  "apply_ready name s = s\<lparr>services := alter name ready_state (services s)\<rparr>"

definition status_update_state :: "string \<Rightarrow> health \<Rightarrow> service_state \<Rightarrow> service_state" where
  "status_update_state txt h st =
     (if last_status st = Some (txt, h) then st
      else (let st1 = st\<lparr>last_status := Some (txt, h)\<rparr> in
            if h = Healthy
            then (if status st1 = Degraded then st1\<lparr>status := Ready\<rparr> else st1)
            else st1\<lparr>status := Degraded\<rparr>))"

definition apply_status_update :: "string \<Rightarrow> string \<Rightarrow> health \<Rightarrow> 's supervisor \<Rightarrow> 's supervisor" where
  "apply_status_update name txt h s = s\<lparr>services := alter name (status_update_state txt h) (services s)\<rparr>"

definition apply_stopping :: "string \<Rightarrow> 's supervisor \<Rightarrow> 's supervisor" where
  "apply_stopping name s = s\<lparr>services := alter name (\<lambda>st. st\<lparr>status := Stopping\<rparr>) (services s)\<rparr>"

fun notify_apply :: "service_notification \<Rightarrow> 's supervisor \<Rightarrow> 's supervisor" where
  "notify_apply (NotifyReady name) s = apply_ready name s"
| "notify_apply (NotifyStatusUpdate name txt h) s = apply_status_update name txt h s"
| "notify_apply (NotifyStopping name) s = apply_stopping name s"

definition process_notifications :: "'s spawn_fn \<Rightarrow> 's supervisor \<Rightarrow> 's supervisor" where
  "process_notifications spawn s =
     (let (notifications, rest) = poll (notify_socket s);
          s1 = fold notify_apply notifications (s\<lparr>notify_socket := rest\<rparr>);
          s2 = start_ready_services spawn s1
      in if notifications \<noteq> [] then publish_status s2 else s2)"

subsection \<open>The event loop\<close>

definition run_start :: "'s spawn_fn \<Rightarrow> 's supervisor \<Rightarrow> 's supervisor" where
  "run_start spawn s = publish_status (start_ready_services spawn s)"

definition on_exits :: "(int \<times> wait_status) list \<Rightarrow> 's supervisor \<Rightarrow> 's supervisor" where
  "on_exits children s =
     (let (known, exits) = reap_all (known_pids s) children in process_exits exits (s\<lparr>known_pids := known\<rparr>))"

definition on_tick :: "'s spawn_fn \<Rightarrow> 's supervisor \<Rightarrow> 's supervisor" where
  "on_tick spawn s = process_pending_restarts spawn (process_notifications spawn s)"

definition on_sweep :: "(int \<times> wait_status) list \<Rightarrow> 's supervisor \<Rightarrow> 's supervisor" where
  "on_sweep children s =
     (let (known, exits) = reap_all (known_pids s) children; s1 = s\<lparr>known_pids := known\<rparr>
      in if exits \<noteq> [] then process_exits exits s1 else s1)"

text \<open>
  One turn of the loop, or a datagram arriving between turns.  Signals are only logged.
\<close>

inductive sup_step :: "'s spawn_fn \<Rightarrow> 's supervisor \<Rightarrow> 's supervisor \<Rightarrow> bool" for spawn where
  exits: "sup_step spawn s (on_exits children s)"
| signal: "sup_step spawn s s"
| tick: "sup_step spawn s (on_tick spawn s)"
| sweep: "sup_step spawn s (on_sweep children s)"
| datagram: "sup_step spawn s (s\<lparr>notify_socket := notify_socket s @ [d]\<rparr>)"

inductive sup_reachable :: "'s spawn_fn \<Rightarrow> 's supervisor \<Rightarrow> 's supervisor \<Rightarrow> bool" for spawn s0 where
  start: "sup_reachable spawn s0 (run_start spawn s0)"
| step: "sup_reachable spawn s0 s \<Longrightarrow> sup_step spawn s t \<Longrightarrow> sup_reachable spawn s0 t"

end
