(* ===== verification/Supervisor_Safety.thy ===== *)
theory Supervisor_Safety
  imports Supervisor
begin

text \<open>
  What the supervisor keeps true: each service has at most one tracked child, a service
  waiting for a restart has none, and the queue holds a service at most once.  The
  invariant is proved for every spawn backend that keeps the contract of the \<open>Spawn\<close>
  trait (the locale below) and then for granola's own \<open>Spawner\<close>.
\<close>

section \<open>The invariant\<close>

definition tracked :: "'s supervisor \<Rightarrow> string \<Rightarrow> bool" where
  "tracked s name \<longleftrightarrow> name \<in> ran (known_pids s)"

definition queued :: "'s supervisor \<Rightarrow> string \<Rightarrow> bool" where
  "queued s name \<longleftrightarrow> name \<in> set (queued_names (restart_queue s))"

definition sup_inv :: "'s supervisor \<Rightarrow> bool" where
  "sup_inv s \<longleftrightarrow>
     distinct (keys_of (services s)) \<and>
     (\<forall>n st. map_of (services s) n = Some st \<longrightarrow> svc_name (service_def st) = n) \<and>
     distinct (queued_names (restart_queue s)) \<and>
     (\<forall>n. queued s n \<longrightarrow> n \<in> set (keys_of (services s))) \<and>
     (\<forall>n. tracked s n \<longrightarrow> \<not> queued s n \<and> (\<exists>st. map_of (services s) n = Some st \<and> status st \<noteq> Pending)) \<and>
     (\<forall>p p' n. known_pids s p = Some n \<longrightarrow> known_pids s p' = Some n \<longrightarrow> p = p')"

lemma tracked_iff: "tracked s n \<longleftrightarrow> (\<exists>p. known_pids s p = Some n)"
  by (auto simp: tracked_def ran_def)

named_theorems sup_frames \<open>fields that an operation leaves alone\<close>

lemma publish_status_fields [simp, sup_frames]:
  "services (publish_status s) = services s" "known_pids (publish_status s) = known_pids s"
  "restart_queue (publish_status s) = restart_queue s" "spawner (publish_status s) = spawner s"
  "sup_clock (publish_status s) = sup_clock s" "captured (publish_status s) = captured s"
  "notify_socket (publish_status s) = notify_socket s"
  by (simp_all add: publish_status_def)

lemma tracked_publish [simp]: "tracked (publish_status s) = tracked s"
  by (simp add: tracked_def fun_eq_iff)

lemma queued_publish [simp]: "queued (publish_status s) = queued s"
  by (simp add: queued_def fun_eq_iff)

lemma sup_inv_publish [simp]: "sup_inv (publish_status s) = sup_inv s"
  by (simp add: sup_inv_def)

lemma sup_inv_cong:
  assumes "services s' = services s" and "known_pids s' = known_pids s" and "restart_queue s' = restart_queue s"
  shows "sup_inv s' = sup_inv s"
  using assms by (simp add: sup_inv_def tracked_def queued_def)

text \<open>
  An operation on one service leaves the entries, queue places and children of all the
  others as they were (a child may be forgotten when the kernel reuses its identifier).
\<close>

definition only_touches :: "string set \<Rightarrow> 's supervisor \<Rightarrow> 's supervisor \<Rightarrow> bool" where
  "only_touches N s s' \<longleftrightarrow>
     keys_of (services s') = keys_of (services s) \<and>
     (\<forall>n. n \<notin> N \<longrightarrow> map_of (services s') n = map_of (services s) n \<and>
            (queued s' n \<longleftrightarrow> queued s n) \<and> (tracked s' n \<longrightarrow> tracked s n))"

lemma only_touches_refl: "only_touches N s s"
  by (simp add: only_touches_def)

lemma only_touches_trans:
  "only_touches M s s' \<Longrightarrow> only_touches N s' s'' \<Longrightarrow> only_touches (M \<union> N) s s''"
  by (auto simp: only_touches_def)

section \<open>Exits\<close>

lemma map_of_alter_const:
  "map_of m k = Some v \<Longrightarrow> map_of (alter k (\<lambda>_. v') m) = (map_of m)(k \<mapsto> v')"
  by (simp add: fun_eq_iff map_of_alter)

lemma alter_service_inv:
  assumes inv: "sup_inv s" and st: "map_of (services s) name = Some st"
    and name: "svc_name (service_def st') = name" and free: "\<not> tracked s name \<or> status st' \<noteq> Pending"
  shows "sup_inv (s\<lparr>services := alter name (\<lambda>_. st') (services s), sup_clock := ck\<rparr>)"
  using inv free name
  by (auto simp: sup_inv_def tracked_def queued_def map_of_alter_const [OF st])

lemma enqueue_service_inv:
  assumes inv: "sup_inv s" and st: "map_of (services s) name = Some st"
    and name: "svc_name (service_def st') = name"
    and free: "\<not> tracked s name" "\<not> queued s name"
    and q: "queued_names q = queued_names (restart_queue s) @ [name]"
  shows "sup_inv (s\<lparr>services := alter name (\<lambda>_. st') (services s), restart_queue := q, sup_clock := ck\<rparr>)"
proof -
  have "name \<in> set (keys_of (services s))" using st by (rule map_of_Some_keys)
  then show ?thesis
    using inv free name q
    by (auto simp: sup_inv_def tracked_def queued_def map_of_alter_const [OF st])
qed

lemma handle_service_exit_inv:
  assumes inv: "sup_inv s" and free: "\<not> tracked s name" "\<not> queued s name"
  shows "sup_inv (handle_service_exit name exit_code s)"
proof (cases "map_of (services s) name")
  case None
  then show ?thesis using inv by (simp add: handle_service_exit_def)
next
  case (Some st0)
  have nm: "svc_name (service_def st0) = name" using inv Some by (auto simp: sup_inv_def)
  let ?st = "st0\<lparr>pid := None\<rparr>"
  obtain again ck where sr: "should_restart ?st exit_code (sup_clock s) = (again, ck)" by fastforce
  obtain q st' ck' where sch: "schedule (restart_queue s) ?st ck = (q, st', ck')" by (meson prod_cases3)
  note sch' = schedule_result [OF sch]
  show ?thesis
  proof (cases again)
    case True
    then show ?thesis
      using enqueue_service_inv [OF inv Some _ free, of st' q ck'] sch' nm Some sr sch
      by (simp add: handle_service_exit_def Let_def)
  next
    case False
    then show ?thesis
      using alter_service_inv [OF inv Some, of "?st\<lparr>status := Stopping\<rparr>" ck]
        alter_service_inv [OF inv Some, of "mark_failed ?st" ck] nm Some sr free
      by (simp add: handle_service_exit_def mark_failed_def Let_def)
  qed
qed

lemma handle_service_exit_touches:
  assumes inv: "sup_inv s"
  shows "only_touches {name} s (handle_service_exit name exit_code s)"
proof (cases "map_of (services s) name")
  case None
  then show ?thesis by (simp add: handle_service_exit_def only_touches_refl)
next
  case (Some st0)
  let ?st = "st0\<lparr>pid := None\<rparr>"
  obtain again ck where sr: "should_restart ?st exit_code (sup_clock s) = (again, ck)" by fastforce
  obtain q st' ck' where sch: "schedule (restart_queue s) ?st ck = (q, st', ck')" by (meson prod_cases3)
  have "svc_name (service_def st0) = name" using inv Some by (auto simp: sup_inv_def)
  then show ?thesis
    using Some sr sch schedule_result [OF sch]
    by (auto simp: handle_service_exit_def Let_def only_touches_def map_of_alter queued_def tracked_def
        split: if_splits)
qed

lemma handle_service_exit_known [simp]:
  "known_pids (handle_service_exit name exit_code s) = known_pids s"
  by (auto simp: handle_service_exit_def Let_def split: option.splits prod.splits)

lemma fold_exits_inv:
  assumes "sup_inv s" and "distinct (map fst exits)"
    and "\<forall>n \<in> set (map fst exits). \<not> tracked s n \<and> \<not> queued s n"
  shows "sup_inv (fold (\<lambda>(name, ex). handle_service_exit name (ce_exit_code ex)) exits s)"
  using assms
proof (induction exits arbitrary: s)
  case Nil
  then show ?case by simp
next
  case (Cons e exits)
  obtain name ex where e: "e = (name, ex)" by (cases e)
  let ?s = "handle_service_exit name (ce_exit_code ex) s"
  have "sup_inv ?s" using Cons.prems e by (intro handle_service_exit_inv) auto
  moreover have "\<forall>n \<in> set (map fst exits). \<not> tracked ?s n \<and> \<not> queued ?s n"
    using handle_service_exit_touches [of s name "ce_exit_code ex"] Cons.prems e
    by (auto simp: only_touches_def tracked_def)
  ultimately show ?case using Cons.IH [of ?s] Cons.prems(2) e by simp
qed

text \<open>
  Reaping forgets every reaped child first; the services it reports are then distinct,
  because no service had two children.
\<close>

definition reap_inv :: "(int \<rightharpoonup> string) \<Rightarrow> (int \<rightharpoonup> string) \<times> exits \<Rightarrow> bool" where
  "reap_inv known0 ke \<longleftrightarrow>
     (let (known, exits) = ke in
      known \<subseteq>\<^sub>m known0 \<and> distinct (map fst exits) \<and>
      (\<forall>n \<in> set (map fst exits). n \<in> ran known0 \<and> n \<notin> ran known))"

lemma reap_child_inv:
  assumes inj: "\<And>p p' n. known0 p = Some n \<Longrightarrow> known0 p' = Some n \<Longrightarrow> p = p'"
    and inv: "reap_inv known0 ke"
  shows "reap_inv known0 (reap_child child ke)"
proof (cases "decode_wait_status (fst child) (snd child)")
  case None
  then show ?thesis using inv by (simp add: reap_child_def)
next
  case (Some ex)
  obtain known exits where ke: "ke = (known, exits)" by (cases ke)
  show ?thesis
  proof (cases "known (fst child)")
    case None
    then show ?thesis using inv Some ke by (simp add: reap_child_def dispatch_exit_def)
  next
    case known: (Some name)
    have sub: "known \<subseteq>\<^sub>m known0" using inv ke by (simp add: reap_inv_def)
    then have name0: "known0 (fst child) = Some name"
      using known by (metis domI map_le_def)
    have gone: "name \<notin> ran (known(fst child := None))"
    proof
      assume "name \<in> ran (known(fst child := None))"
      then obtain p where p: "p \<noteq> fst child" "known p = Some name"
        by (auto simp: ran_def split: if_splits)
      then have "known0 p = Some name" using sub by (metis domI map_le_def)
      then show False using inj name0 p by blast
    qed
    have new: "name \<notin> set (map fst exits)"
      using inv ke known by (auto simp: reap_inv_def ran_def)
    have le: "known(fst child := None) \<subseteq>\<^sub>m known0"
      using sub by (auto simp: map_le_def)
    have shrink: "ran (known(fst child := None)) \<subseteq> ran known" by (auto simp: ran_def)
    have "name \<in> ran known0" using name0 by (auto simp: ran_def)
    then show ?thesis
      using inv ke known Some gone new le shrink
      by (auto simp: reap_child_def dispatch_exit_def reap_inv_def)
  qed
qed

lemma reap_all_inv:
  assumes inj: "\<And>p p' n. known0 p = Some n \<Longrightarrow> known0 p' = Some n \<Longrightarrow> p = p'"
  shows "reap_inv known0 (reap_all known0 children)"
proof -
  have "reap_inv known0 ke \<Longrightarrow> reap_inv known0 (fold reap_child children ke)" for ke
  proof (induction children arbitrary: ke)
    case (Cons c cs)
    from Cons.IH [OF reap_child_inv [OF inj Cons.prems]] show ?case by simp
  qed simp
  then show ?thesis by (simp add: reap_all_def reap_inv_def)
qed

lemma reaped_inv:
  assumes inv: "sup_inv s" and reap: "reap_all (known_pids s) children = (known, exits)"
  shows "sup_inv (s\<lparr>known_pids := known\<rparr>)"
    and "distinct (map fst exits)"
    and "\<forall>n \<in> set (map fst exits). \<not> tracked (s\<lparr>known_pids := known\<rparr>) n \<and> \<not> queued (s\<lparr>known_pids := known\<rparr>) n"
proof -
  have ri: "reap_inv (known_pids s) (known, exits)"
    using reap_all_inv [of "known_pids s" children] inv reap by (auto simp: sup_inv_def)
  then have sub: "known \<subseteq>\<^sub>m known_pids s" by (simp add: reap_inv_def)
  then have get: "known p = Some n \<Longrightarrow> known_pids s p = Some n" for p n
    by (metis domI map_le_def)
  then have "ran known \<subseteq> ran (known_pids s)" by (auto simp: ran_def)
  then show "sup_inv (s\<lparr>known_pids := known\<rparr>)"
    using inv get by (auto simp: sup_inv_def tracked_def queued_def)
  show "distinct (map fst exits)" using ri by (simp add: reap_inv_def)
  show "\<forall>n \<in> set (map fst exits). \<not> tracked (s\<lparr>known_pids := known\<rparr>) n \<and> \<not> queued (s\<lparr>known_pids := known\<rparr>) n"
    using ri inv by (auto simp: reap_inv_def sup_inv_def tracked_def queued_def)
qed

lemma on_exits_inv: "sup_inv s \<Longrightarrow> sup_inv (on_exits children s)"
  using reaped_inv [of s children] fold_exits_inv
  by (cases "reap_all (known_pids s) children") (simp add: on_exits_def process_exits_def)

lemma on_sweep_inv: "sup_inv s \<Longrightarrow> sup_inv (on_sweep children s)"
  using reaped_inv [of s children] fold_exits_inv
  by (cases "reap_all (known_pids s) children") (auto simp: on_sweep_def process_exits_def Let_def)

section \<open>Notifications\<close>

lemma alter_status_inv:
  assumes inv: "sup_inv s"
    and keep: "\<And>st. service_def (f st) = service_def st"
    and live: "\<And>st. status st \<noteq> Pending \<Longrightarrow> status (f st) \<noteq> Pending"
  shows "sup_inv (s\<lparr>services := alter name f (services s)\<rparr>)"
proof -
  have at: "map_of (alter name f (services s)) n = Some st' \<Longrightarrow>
      \<exists>st. map_of (services s) n = Some st \<and> service_def st' = service_def st" for n st'
    by (auto simp: map_of_alter keep split: if_splits)
  have up: "map_of (services s) n = Some st \<Longrightarrow> status st \<noteq> Pending \<Longrightarrow>
      \<exists>st'. map_of (alter name f (services s)) n = Some st' \<and> status st' \<noteq> Pending" for n st
    by (auto simp: map_of_alter live)
  show ?thesis
    using inv at up by (auto simp: sup_inv_def tracked_def queued_def) metis+
qed

lemma status_update_state_keeps:
  "service_def (status_update_state txt h st) = service_def st"
  "status st \<noteq> Pending \<Longrightarrow> status (status_update_state txt h st) \<noteq> Pending"
  by (auto simp: status_update_state_def Let_def split: if_splits)

lemma notify_apply_inv: "sup_inv s \<Longrightarrow> sup_inv (notify_apply n s)"
  by (cases n)
    (auto simp: apply_ready_def apply_status_update_def apply_stopping_def ready_state_def
      status_update_state_keeps intro!: alter_status_inv)

lemma fold_notify_inv: "sup_inv s \<Longrightarrow> sup_inv (fold notify_apply ns s)"
  by (induction ns arbitrary: s) (auto intro: notify_apply_inv)

section \<open>Spawning, for every backend\<close>

text \<open>
  The contract of the \<open>Spawn\<close> trait: a success leaves the state starting, with the child's
  identifier, and neither outcome changes the blueprint.
\<close>

locale spawn_backend =
  fixes spawn :: "'s spawn_fn"
  assumes spawn_ok: "spawn w st = (Ok r, st', w') \<Longrightarrow>
      status st' = Starting \<and> service_def st' = service_def st \<and> pid st' = Some (sr_pid r)"
    and spawn_err: "spawn w st = (Err e, st', w') \<Longrightarrow> service_def st' = service_def st"
begin

lemma spawn_or_log_inv:
  assumes inv: "sup_inv s" and free: "\<not> tracked s name" "\<not> queued s name"
  shows "sup_inv (spawn_or_log spawn name s) \<and> only_touches {name} s (spawn_or_log spawn name s)"
proof (cases "map_of (services s) name")
  case None
  then show ?thesis
    using inv by (simp add: spawn_or_log_def spawn_service_def only_touches_def)
next
  case (Some st)
  have nm: "svc_name (service_def st) = name" using inv Some by (auto simp: sup_inv_def)
  obtain res st1 sp where sw: "spawn (spawner s) st = (res, st1, sp)" by (meson prod_cases3)
  show ?thesis
  proof (cases res)
    case (Inr r)
    with sw spawn_ok have st1: "status st1 = Starting" "service_def st1 = service_def st" by blast+
    have ran: "n \<in> ran ((known_pids s)(sr_pid r \<mapsto> name)) \<Longrightarrow> n = name \<or> n \<in> ran (known_pids s)" for n
      by (auto simp: ran_def split: if_splits)
    have uniq: "\<And>p. known_pids s p \<noteq> Some name" using free(1) by (auto simp: tracked_iff)
    show ?thesis
      using Some sw Inr inv st1 nm free uniq
      by (auto simp: spawn_or_log_def spawn_service_def reaper_track_def sup_inv_def only_touches_def
          tracked_def queued_def map_of_alter_const [OF Some] split: if_splits dest: ran)
  next
    case (Inl e)
    with sw spawn_err have def1: "service_def st1 = service_def st" by blast
    let ?s1 = "s\<lparr>services := alter name (\<lambda>_. st1) (services s), spawner := sp\<rparr>"
    obtain q st2 ck where rf: "record_spawn_failure (restart_queue ?s1) st1 (sup_clock ?s1) = (q, st2, ck)"
      by (meson prod_cases3)
    have m1: "map_of (services ?s1) name = Some st1" using Some by (simp add: map_of_alter)
    have alt: "alter name (\<lambda>_. st2) (alter name (\<lambda>_. st1) (services s)) = alter name (\<lambda>_. st2) (services s)"
      by (auto simp: alter_def)
    have res: "spawn_or_log spawn name s =
        publish_status (s\<lparr>spawner := sp, services := alter name (\<lambda>_. st2) (services s),
                          restart_queue := q, sup_clock := ck\<rparr>)"
      using Some sw Inl rf m1 alt by (simp add: spawn_or_log_def spawn_service_def)
    note rf' = record_spawn_failure_result [OF rf]
    have nm2: "svc_name (service_def st2) = name" "svc_name (service_def st1) = name"
      using rf'(1) def1 nm by simp_all
    have notq: "name \<notin> set (queued_names (restart_queue s))" using free(2) by (simp add: queued_def)
    have filt: "filter (\<lambda>n. n \<noteq> name) (queued_names (restart_queue s)) = queued_names (restart_queue s)"
      using notq by (auto simp: filter_id_conv)
    have key: "name \<in> set (keys_of (services s))" using Some by (rule map_of_Some_keys)
    have qn: "queued_names q = queued_names (restart_queue s) @ [name] \<or>
        queued_names q = queued_names (restart_queue s) \<and> status st2 \<noteq> Pending"
      using rf'(4) filt nm2 by (auto split: if_splits)
    show ?thesis
      unfolding res
      using qn inv nm2 free notq key
      by (auto simp: sup_inv_def only_touches_def tracked_def queued_def map_of_alter_const [OF Some])
  qed
qed

lemma fold_spawn_inv:
  assumes "sup_inv s" and "distinct names" and "\<forall>n \<in> set names. \<not> tracked s n \<and> \<not> queued s n"
  shows "sup_inv (fold (spawn_or_log spawn) names s) \<and>
         only_touches (set names) s (fold (spawn_or_log spawn) names s)"
  using assms
proof (induction names arbitrary: s)
  case Nil
  then show ?case by (simp add: only_touches_refl)
next
  case (Cons name names)
  let ?s = "spawn_or_log spawn name s"
  have inv: "sup_inv ?s" and touch: "only_touches {name} s ?s"
    using spawn_or_log_inv [of s name] Cons.prems by auto
  have "\<forall>n \<in> set names. \<not> tracked ?s n \<and> \<not> queued ?s n"
    using touch Cons.prems by (auto simp: only_touches_def)
  then have "sup_inv (fold (spawn_or_log spawn) names ?s)"
    and rest: "only_touches (set names) ?s (fold (spawn_or_log spawn) names ?s)"
    using Cons.IH [OF inv] Cons.prems(2) by auto
  with only_touches_trans [OF touch rest] show ?case by simp
qed

lemma start_ready_names:
  assumes inv: "sup_inv s"
    and names: "names = filter (\<lambda>n. \<not> is_queued (restart_queue s) n) (collect_startable (services s))"
  shows "distinct names" and "\<forall>n \<in> set names. \<not> tracked s n \<and> \<not> queued s n"
proof -
  have d: "distinct (keys_of (services s))" using inv by (simp add: sup_inv_def)
  show "distinct names" using names distinct_collect_startable [OF d] by simp
  show "\<forall>n \<in> set names. \<not> tracked s n \<and> \<not> queued s n"
    using inv names collect_startable_iff [OF d]
    by (auto simp: is_queued_iff queued_def sup_inv_def)
qed

lemma start_ready_services_inv:
  assumes "sup_inv s"
  shows "sup_inv (start_ready_services spawn s)"
    and "only_touches {n \<in> set (collect_startable (services s)). \<not> queued s n} s
           (start_ready_services spawn s)"
proof -
  let ?names = "filter (\<lambda>n. \<not> is_queued (restart_queue s) n) (collect_startable (services s))"
  note ready = start_ready_names [OF assms refl]
  show "sup_inv (start_ready_services spawn s)"
    using fold_spawn_inv [OF assms ready] by (simp add: start_ready_services_def)
  have "set ?names = {n \<in> set (collect_startable (services s)). \<not> queued s n}"
    by (auto simp: is_queued_iff queued_def)
  then show "only_touches {n \<in> set (collect_startable (services s)). \<not> queued s n} s
           (start_ready_services spawn s)"
    using fold_spawn_inv [OF assms ready] by (simp add: start_ready_services_def)
qed

lemma take_due_inv:
  assumes inv: "sup_inv s" and due: "take_due (restart_queue s) deps (sup_clock s) = (q, ready, ck)"
  shows "sup_inv (s\<lparr>restart_queue := q, sup_clock := ck\<rparr>)" and "distinct ready"
    and "\<forall>n \<in> set ready. \<not> tracked (s\<lparr>restart_queue := q, sup_clock := ck\<rparr>) n \<and>
           \<not> queued (s\<lparr>restart_queue := q, sup_clock := ck\<rparr>) n"
    and "\<forall>n \<in> set ready. queued s n \<and> deps n"
proof -
  have ms: "mset (queued_names (restart_queue s)) = mset (ready @ queued_names q)"
    using take_due_mset [OF due] by simp
  have dist: "distinct (ready @ queued_names q)"
    using inv mset_eq_imp_distinct_iff [OF ms] by (simp add: sup_inv_def)
  have sets: "set (queued_names (restart_queue s)) = set ready \<union> set (queued_names q)"
    using mset_eq_setD [OF ms] by simp
  show "distinct ready" using dist by simp
  show "sup_inv (s\<lparr>restart_queue := q, sup_clock := ck\<rparr>)"
    using inv dist sets by (auto simp: sup_inv_def tracked_def queued_def)
  show "\<forall>n \<in> set ready. \<not> tracked (s\<lparr>restart_queue := q, sup_clock := ck\<rparr>) n \<and>
           \<not> queued (s\<lparr>restart_queue := q, sup_clock := ck\<rparr>) n"
    using inv dist sets by (auto simp: sup_inv_def tracked_def queued_def)
  show "\<forall>n \<in> set ready. queued s n \<and> deps n"
    using take_due_result(1) [OF due] by (auto simp: queued_def queued_names_def due_now_def)
qed

lemma process_pending_restarts_inv:
  assumes "sup_inv s"
  shows "sup_inv (process_pending_restarts spawn s)"
    and "tracked (process_pending_restarts spawn s) n \<Longrightarrow> \<not> tracked s n \<Longrightarrow>
           queued s n \<and> (\<exists>st. map_of (services s) n = Some st \<and> are_satisfied (service_def st) (services s))"
proof -
  let ?deps = "\<lambda>name. case map_of (services s) name of
      None \<Rightarrow> False | Some st \<Rightarrow> are_satisfied (service_def st) (services s)"
  obtain q due ck where td: "take_due (restart_queue s) ?deps (sup_clock s) = (q, due, ck)"
    by (meson prod_cases3)
  let ?s = "s\<lparr>restart_queue := q, sup_clock := ck\<rparr>"
  note ti = take_due_inv [OF assms td]
  have eq: "process_pending_restarts spawn s = fold (spawn_or_log spawn) due ?s"
    by (simp add: process_pending_restarts_def td)
  show "sup_inv (process_pending_restarts spawn s)"
    using fold_spawn_inv [OF ti(1-3)] eq by simp
  show "queued s n \<and> (\<exists>st. map_of (services s) n = Some st \<and> are_satisfied (service_def st) (services s))"
    if new: "tracked (process_pending_restarts spawn s) n" and "\<not> tracked s n"
  proof -
    have "\<not> tracked ?s n" using that(2) by (simp add: tracked_def)
    then have "n \<in> set due"
      using fold_spawn_inv [OF ti(1-3)] new eq by (auto simp: only_touches_def)
    then show ?thesis using ti(4) by (auto split: option.splits)
  qed
qed

lemma process_notifications_inv: "sup_inv s \<Longrightarrow> sup_inv (process_notifications spawn s)"
proof -
  assume inv: "sup_inv s"
  obtain ns rest where p: "poll (notify_socket s) = (ns, rest)" by fastforce
  have "sup_inv (s\<lparr>notify_socket := rest\<rparr>)" using inv sup_inv_cong [of "s\<lparr>notify_socket := rest\<rparr>" s] by simp
  then show ?thesis
    using p by (auto simp: process_notifications_def Let_def intro: start_ready_services_inv fold_notify_inv)
qed

lemma on_tick_inv: "sup_inv s \<Longrightarrow> sup_inv (on_tick spawn s)"
  by (simp add: on_tick_def process_notifications_inv process_pending_restarts_inv)

lemma sup_step_inv: "sup_step spawn s t \<Longrightarrow> sup_inv s \<Longrightarrow> sup_inv t"
  by (induction rule: sup_step.induct)
    (auto intro: on_exits_inv on_sweep_inv on_tick_inv sup_inv_cong [THEN iffD2])

lemma sup_reachable_inv: "sup_reachable spawn s0 s \<Longrightarrow> sup_inv s0 \<Longrightarrow> sup_inv s"
proof (induction rule: sup_reachable.induct)
  case start
  then show ?case by (simp add: run_start_def start_ready_services_inv)
next
  case (step s t)
  then show ?case by (blast intro: sup_step_inv)
qed

end

section \<open>Granola's own backend\<close>

lemma spawner_spawn_ok:
  "spawner_spawn w st = (Ok r, st', w') \<Longrightarrow>
     status st' = Starting \<and> service_def st' = service_def st \<and> pid st' = Some (sr_pid r)"
  by (auto simp: spawner_spawn_def Let_def split: list.splits if_splits sum.splits option.splits)

lemma spawner_spawn_err: "spawner_spawn w st = (Err e, st', w') \<Longrightarrow> service_def st' = service_def st"
  by (auto simp: spawner_spawn_def Let_def split: list.splits if_splits sum.splits option.splits)

interpretation real: spawn_backend spawner_spawn
  by unfold_locales (fact spawner_spawn_ok, fact spawner_spawn_err)

lemma with_backends_inv:
  assumes "with_backends cd bn pre_bind defs spw tx ck = Ok s"
  shows "sup_inv s"
proof -
  let ?ps = "map (initial_state pre_bind) defs"
  have s: "services s = collect_map ?ps" "known_pids s = Map.empty" "restart_queue s = restart_queue_new"
    using assms by (auto simp: with_backends_def result_iffs)
  have "map_of (collect_map ?ps) n = Some st \<Longrightarrow> svc_name (service_def st) = n" for n st
  proof -
    assume "map_of (collect_map ?ps) n = Some st"
    then have "(n, st) \<in> set ?ps" using map_of_SomeD by (fastforce simp: map_of_collect_map)
    then show "svc_name (service_def st) = n"
      by (auto simp: initial_state_def service_state_new_def Let_def split: sum.splits)
  qed
  then show ?thesis
    using s distinct_collect_map [of ?ps] by (auto simp: sup_inv_def tracked_def queued_def)
qed

end
