(* ===== verification/Granola_Properties.thy ===== *)
theory Granola_Properties
  imports Supervisor_Safety
begin

text \<open>
  The properties of the init supervisor: its safety invariant over every run, the
  dependency gate, the restart policy and budget, the loader's cycle check, the
  notification protocol, command splitting and the published snapshot.  Witnesses run the
  model on a small system of two services.
\<close>

section \<open>A small system\<close>

definition demo_os :: os_world where
  "demo_os = (\<lambda>n. \<lparr>os_exists = (\<lambda>p. p = ''/a'' \<or> p = ''/b''),
                   os_exec = (\<lambda>p args fd. Inr (7 + n, Some 1, Some 2))\<rparr>)"

definition demo_a :: service where
  "demo_a = \<lparr>svc_name = ''a'', command = ''/a'', depends_on = []\<rparr>"

definition demo_b :: service where
  "demo_b = \<lparr>svc_name = ''b'', command = ''/b'', depends_on = [''a'']\<rparr>"

definition demo_state :: "service \<Rightarrow> service_state" where
  "demo_state svc = (service_state_new svc)\<lparr>listener_fd := Some 3\<rparr>"

definition demo_sup :: "os_world supervisor" where
  "demo_sup = \<lparr>services = [(''a'', demo_state demo_a), (''b'', demo_state demo_b)], notify_socket = [],
     known_pids = Map.empty, restart_queue = restart_queue_new, captured = [],
     status_tx = status_channel, spawner = demo_os, sup_clock = (\<lambda>n. n)\<rparr>"

lemma demo_with_backends:
  "with_backends (Ok ()) (Ok ()) (\<lambda>_. Ok 3) [demo_a, demo_b] demo_os status_channel (\<lambda>n. n) = Ok demo_sup"
  by (simp add: with_backends_def demo_sup_def collect_map_def initial_state_def demo_state_def
      demo_a_def demo_b_def)

lemma demo_argv: "argv demo_a = [''/a'']" "argv demo_b = [''/b'']"
  by (simp_all add: argv_def demo_a_def demo_b_def argv_default_def argv_accept_def accept_unquoted_def
      argv_flush_def double_quote_def single_quote_def tab_char_def)

lemma demo_spawn_a:
  "spawn_service spawner_spawn ''a'' demo_sup = (Ok (), publish_status
     (demo_sup\<lparr>services := [(''a'', (demo_state demo_a)\<lparr>pid := Some 7, status := Starting\<rparr>),
                            (''b'', demo_state demo_b)],
               spawner := (\<lambda>n. demo_os (Suc n)), known_pids := [7 \<mapsto> ''a''],
               captured := [(''a'', 1, 2)]\<rparr>))"
  by (simp add: spawn_service_def spawner_spawn_def demo_sup_def demo_state_def service_state_new_def
      demo_argv demo_os_def cast_signed_def alter_def reaper_track_def fun_eq_iff Let_def)

lemma demo_start:
  "known_pids (run_start spawner_spawn demo_sup) = [7 \<mapsto> ''a'']"
proof -
  have "collect_startable (services demo_sup) = [''a'']"
    by (simp add: collect_startable_def demo_sup_def demo_state_def service_state_new_def
        are_satisfied_def demo_a_def demo_b_def)
  then have "start_ready_services spawner_spawn demo_sup = spawn_or_log spawner_spawn ''a'' demo_sup"
    by (simp add: start_ready_services_def is_queued_def demo_sup_def restart_queue_new_def)
  then show ?thesis
    using demo_spawn_a by (simp add: run_start_def spawn_or_log_def publish_status_def)
qed

section \<open>Safety of the supervisor\<close>

text \<open>
  C1: At every point of every run of the supervisor, whatever the kernel answers to spawn
  requests, whichever children exit in whichever order, whatever datagrams arrive and
  however the clock moves: a tracked child belongs to a known service that is not waiting
  to be started, no second child is tracked for that service, no restart is queued for it,
  and the restart queue holds every service at most once.
\<close>

theorem supervisor_single_child:
  assumes "with_backends cd bn pre_bind defs w tx ck = Ok s0"
    and "sup_reachable spawner_spawn s0 s"
    and "known_pids s p = Some name"
  shows "(\<forall>p'. known_pids s p' = Some name \<longrightarrow> p' = p) \<and>
         \<not> is_queued (restart_queue s) name \<and>
         (\<exists>st. map_of (services s) name = Some st \<and> status st \<noteq> Pending) \<and>
         distinct (map pr_name (pending (restart_queue s)))"
proof -
  have inv: "sup_inv s"
    using real.sup_reachable_inv [OF assms(2) with_backends_inv [OF assms(1)]] .
  then have "tracked s name \<and> \<not> queued s name"
    using assms(3) by (auto simp: sup_inv_def tracked_iff)
  then show ?thesis
    using inv assms(3) by (auto simp: sup_inv_def is_queued_iff queued_def queued_names_def)
qed

theorem supervisor_single_child_witness:
  "\<not> is_queued (restart_queue (run_start spawner_spawn demo_sup)) ''a''"
  using supervisor_single_child [OF demo_with_backends sup_reachable.start, of 7 "''a''"]
  by (simp add: demo_start)



section \<open>Exits and restarts\<close>

definition restart_wanted :: "service_state \<Rightarrow> int option \<Rightarrow> nat \<Rightarrow> bool" where
  "restart_wanted st exit_code t \<longleftrightarrow>
     status st \<noteq> Stopping \<and> exit_code \<noteq> Some 0 \<and>
     (restart_count st < 5 \<or> (\<exists>u. last_restart st = Some u \<and> t - u > 60 * 1000000000))"

text \<open>
  C3: What an exit does to a known service.  Its process identifier is cleared.  It goes
  back to Pending and to the end of the restart queue exactly when it was not stopping,
  did not exit with code 0, and either has fewer than five attempts behind it or made its
  last attempt more than a minute ago; otherwise an exit with code 0 leaves it Stopping
  and any other exit leaves it Failed, and the queue is not touched.
\<close>

theorem handle_service_exit_outcome:
  assumes inv: "sup_inv s" and st: "map_of (services s) name = Some st"
  shows "\<exists>st'. map_of (services (handle_service_exit name exit_code s)) name = Some st' \<and>
           pid st' = None \<and>
           status st' = (if restart_wanted st exit_code (now (sup_clock s)) then Pending else if exit_code = Some 0 then Stopping else Failed) \<and>
           queued_names (restart_queue (handle_service_exit name exit_code s)) =
             queued_names (restart_queue s) @ (if restart_wanted st exit_code (now (sup_clock s)) then [name] else [])"
proof -
  have nm: "svc_name (service_def st) = name" using inv st by (auto simp: sup_inv_def)
  let ?st = "st\<lparr>pid := None\<rparr>"
  obtain a ck where sr: "should_restart ?st exit_code (sup_clock s) = (a, ck)" by fastforce
  then have a: "a = restart_wanted st exit_code (now (sup_clock s))"
    by (auto simp: should_restart_def restart_wanted_def NANOS_def
        split: if_splits option.splits)
  obtain q st' ck' where sch: "schedule (restart_queue s) ?st ck = (q, st', ck')" by (meson prod_cases3)
  show ?thesis
    using st sr sch schedule_result [OF sch] nm a
    by (auto simp: handle_service_exit_def map_of_alter mark_failed_def Let_def)
qed

theorem handle_service_exit_outcome_witness:
  "\<exists>st'. map_of (services (handle_service_exit ''a'' (Some 1) demo_sup)) ''a'' = Some st' \<and>
         pid st' = None \<and> status st' = Pending \<and>
         queued_names (restart_queue (handle_service_exit ''a'' (Some 1) demo_sup)) = [''a'']"
proof -
  have inv: "sup_inv demo_sup" using with_backends_inv [OF demo_with_backends] .
  have st: "map_of (services demo_sup) ''a'' = Some (demo_state demo_a)" by (simp add: demo_sup_def)
  have q: "queued_names (restart_queue demo_sup) = []" by (simp add: demo_sup_def)
  show ?thesis
    using handle_service_exit_outcome [OF inv st, of "Some 1"] q
    by (simp add: restart_wanted_def demo_state_def service_state_new_def)
qed

text \<open>
  Taking the due restarts loses and invents nothing: the names handed out are, in queue
  order, those of the entries whose time has come and whose dependencies are ready, all
  other entries stay queued in order, and together they are the old queue.
\<close>

lemma take_due_partition:
  assumes "take_due q deps_ready ck = (q', ready, ck')"
  shows "ready = map pr_name (filter (\<lambda>r. due_at r \<le> now ck \<and> deps_ready (pr_name r)) (pending q)) \<and>
         queued_names q' =
           map pr_name (filter (\<lambda>r. \<not> (due_at r \<le> now ck \<and> deps_ready (pr_name r))) (pending q)) \<and>
         mset (queued_names q) = mset ready + mset (queued_names q')"
proof -
  have "due_now (now ck) deps_ready = (\<lambda>r. due_at r \<le> now ck \<and> deps_ready (pr_name r))"
    by (simp add: fun_eq_iff due_now_def)
  then show ?thesis using take_due_result [OF assms] take_due_mset [OF assms] by simp
qed

text \<open>
  The spawn budget.  A service without earlier attempts whose binary cannot be spawned
  is retried: after the first, second, third and fourth failure in a row it is Pending and
  queued again, and from the fifth failure on it is Failed and no longer queued.
\<close>

lemma spawn_failure_budget:
  assumes "((\<lambda>(q, st, ck). record_spawn_failure q st ck) ^^ k) (q, st, ck) = (q', st', ck')"
    and "restart_count st = 0" and "0 < k" and "k \<le> 10"
  shows "status st' = (if k < 5 then Pending else Failed) \<and>
         (is_queued q' (svc_name (service_def st)) \<longleftrightarrow> k < 5)"
proof -
  have "restart_count st' = k \<and> service_def st' = service_def st \<and>
        status st' = (if k < 5 then Pending else Failed) \<and>
        (svc_name (service_def st) \<in> set (queued_names q') \<longleftrightarrow> k < 5)"
    using assms(1,3,4)
  proof (induction k arbitrary: q' st' ck')
    case (Suc k)
    obtain q1 st1 ck1 where prev: "((\<lambda>(q, st, ck). record_spawn_failure q st ck) ^^ k) (q, st, ck) = (q1, st1, ck1)"
      by (meson prod_cases3)
    have count: "restart_count st1 = k \<and> service_def st1 = service_def st"
    proof (cases "k = 0")
      case True then show ?thesis using prev assms(2) by simp
    next
      case False then show ?thesis using Suc.IH [OF prev] Suc.prems by simp
    qed
    have last: "record_spawn_failure q1 st1 ck1 = (q', st', ck')" using Suc.prems(1) prev by simp
    show ?case
      using record_spawn_failure_result [OF last] count Suc.prems(3)
      by (auto simp: saturating_add_def u32_max_def split: if_splits)
  qed simp
  then show ?thesis by (simp add: is_queued_iff)
qed

section \<open>Loading\<close>

text \<open>
  C4: The loader accepts a set of service definitions exactly when the dependency graph of
  the indexed services has no cycle; the check always ends with one of the two verdicts.
\<close>

theorem detect_cycles_correct:
  "(detect_cycles idx = Ok () \<longleftrightarrow> acyclic {(a, b). \<exists>svc. map_of idx a = Some svc \<and> b \<in> set (depends_on svc)}) \<and>
   (detect_cycles idx = Ok () \<or> (\<exists>msg. detect_cycles idx = Err msg))"
proof -
  have "edges idx = {(a, b). \<exists>svc. map_of idx a = Some svc \<and> b \<in> set (depends_on svc)}"
    by (force simp: edges_def deps_of_def split: option.splits)
  then show ?thesis using detect_cycles_iff [of idx] detect_cycles_cases [of idx] by simp
qed

lemma pending_chain_startable:
  assumes acyc: "acyclic (edges idx)"
    and deps: "\<And>n st. map_of svcs n = Some st \<Longrightarrow> depends_on (service_def st) = deps_of idx n"
    and closed: "\<And>n st d. map_of svcs n = Some st \<Longrightarrow> d \<in> set (depends_on (service_def st)) \<Longrightarrow> \<exists>t. map_of svcs d = Some t"
    and modes: "\<And>n st. map_of svcs n = Some st \<Longrightarrow> status st = Pending \<or> status st = Ready"
    and some: "map_of svcs n = Some st" "status st = Pending"
  shows "\<exists>m t. map_of svcs m = Some t \<and> status t = Pending \<and> are_satisfied (service_def t) svcs"
proof -
  let ?E = "(edges idx)\<inverse>"
  have "finite (edges idx)"
  proof (rule finite_subset)
    show "edges idx \<subseteq> set (keys_of idx) \<times> (\<Union>a \<in> set (keys_of idx). set (deps_of idx a))"
      using edges_domain by (fastforce simp: edges_iff)
  qed simp
  then have wf: "wf ?E" using acyc by (simp add: finite_acyclic_wf_converse)
  let ?P = "{m. \<exists>t. map_of svcs m = Some t \<and> status t = Pending}"
  have "n \<in> ?P" using some by auto
  then obtain m where m: "m \<in> ?P" and least: "\<And>y. (y, m) \<in> ?E \<Longrightarrow> y \<notin> ?P"
    using wfE_min [OF wf, of n ?P] by blast
  then obtain t where t: "map_of svcs m = Some t" "status t = Pending" by auto
  have "are_satisfied (service_def t) svcs"
    unfolding are_satisfied_iff
  proof
    fix d assume d: "d \<in> set (depends_on (service_def t))"
    then have "(d, m) \<in> ?E" using deps [OF t(1)] by (simp add: edges_iff)
    moreover obtain u where u: "map_of svcs d = Some u" using closed [OF t(1) d] by auto
    ultimately show "\<exists>st. map_of svcs d = Some st \<and> status st = Ready"
      using least modes [OF u] by auto
  qed
  then show ?thesis using t by auto
qed

text \<open>
  C5: A loaded system cannot deadlock on its own dependencies.  If the definitions pass the
  cycle check and name only each other as dependencies, then in every state of the services
  where each one is Pending or Ready, some Pending service can be started, unless none is
  left.
\<close>

theorem loaded_system_makes_progress:
  assumes prep: "prepare defs env = Ok svcs_defs"
    and built: "with_backends cd bn pre_bind svcs_defs w tx ck = Ok s0"
    and closed: "\<forall>d \<in> set defs. set (depends_on d) \<subseteq> svc_name ` set defs"
    and same: "keys_of svcs = keys_of (services s0)"
      "\<forall>n st st0. map_of svcs n = Some st \<longrightarrow> map_of (services s0) n = Some st0 \<longrightarrow> service_def st = service_def st0"
    and modes: "\<forall>n st. map_of svcs n = Some st \<longrightarrow> status st = Pending \<or> status st = Ready"
    and some: "map_of svcs n = Some st" "status st = Pending"
  shows "collect_startable svcs \<noteq> []"
proof -
  let ?subst = "\<lambda>svc. \<lparr>svc_name = svc_name svc, command = substitute_vars (command svc) env, depends_on = depends_on svc\<rparr>"
  let ?idx = "collect_map (map (\<lambda>svc. (svc_name svc, svc)) defs)"
  let ?ps = "map (initial_state pre_bind) (map ?subst defs)"
  have ok: "detect_cycles ?idx = Ok ()" and sd: "svcs_defs = map ?subst defs"
    using prep detect_cycles_cases [of ?idx] by (auto simp: prepare_def split: sum.splits)
  have s0: "services s0 = collect_map ?ps"
    using built sd by (auto simp: with_backends_def result_iffs)
  have idx0: "map_of (rev (map (initial_state pre_bind) (map ?subst ds))) n =
      map_option (\<lambda>svc. snd (initial_state pre_bind (?subst svc))) (map_of (rev (map (\<lambda>svc. (svc_name svc, svc)) ds)) n)" for ds n
    by (induction ds) (auto simp: map_add_def initial_state_def Let_def split: option.splits)
  have def0: "service_def (snd (initial_state pre_bind d)) = d" for d
    by (auto simp: initial_state_def service_state_new_def Let_def split: sum.splits)
  have look: "map_of (services s0) m = map_option (\<lambda>svc. snd (initial_state pre_bind (?subst svc))) (map_of ?idx m)" for m
    using idx0 [of defs m] by (simp add: s0 map_of_collect_map del: rev_map map_map)
  have entry: "\<exists>svc. map_of ?idx m = Some svc \<and> depends_on (service_def t) = depends_on svc" if "map_of svcs m = Some t" for m t
  proof -
    have "m \<in> set (keys_of (services s0))" using map_of_Some_keys [OF that] same(1) by simp
    then obtain t0 where t0: "map_of (services s0) m = Some t0" by (meson map_of_None_keys not_None_eq)
    then obtain svc where svc: "map_of ?idx m = Some svc" "t0 = snd (initial_state pre_bind (?subst svc))"
      using look by auto
    have "service_def t = service_def t0" using same(2) that t0 by blast
    then show ?thesis using svc def0 [of "?subst svc"] by simp
  qed
  have names: "d \<in> svc_name ` set defs \<Longrightarrow> \<exists>t. map_of svcs d = Some t" for d
  proof -
    assume "d \<in> svc_name ` set defs"
    then have "d \<in> fst ` set (rev (map (\<lambda>svc. (svc_name svc, svc)) defs))" by force
    then have "map_of (services s0) d \<noteq> None"
      using look by (simp add: map_of_collect_map map_of_eq_None_iff del: rev_map)
    then show ?thesis using same(1) by (metis map_of_None_keys not_None_eq)
  qed
  have in_defs: "map_of ?idx m = Some svc \<Longrightarrow> svc \<in> set defs" for m svc
    by (auto simp: map_of_collect_map dest: map_of_SomeD)
  have "\<exists>m t. map_of svcs m = Some t \<and> status t = Pending \<and> are_satisfied (service_def t) svcs"
  proof (rule pending_chain_startable [of ?idx svcs n st])
    show "acyclic (edges ?idx)" using ok by (simp add: detect_cycles_iff)
    show "depends_on (service_def t) = deps_of ?idx m" if "map_of svcs m = Some t" for m t
      using entry [OF that] by (auto simp: deps_of_def)
    show "\<exists>u. map_of svcs d = Some u" if t: "map_of svcs m = Some t" and d: "d \<in> set (depends_on (service_def t))" for m t d
    proof -
      obtain svc where svc: "map_of ?idx m = Some svc" "depends_on (service_def t) = depends_on svc"
        using entry [OF t] by blast
      then have "d \<in> svc_name ` set defs" using in_defs [OF svc(1)] closed d by auto
      then show ?thesis by (rule names)
    qed
  qed (use modes some in auto)
  moreover have "distinct (keys_of svcs)" using same(1) s0 distinct_collect_map [of ?ps] by simp
  ultimately show ?thesis by (metis collect_startable_iff list.set_cases list.distinct(1))
qed

theorem loaded_system_makes_progress_witness:
  "collect_startable (services demo_sup) \<noteq> []"
proof -
  have idx: "collect_map (map (\<lambda>svc. (svc_name svc, svc)) [demo_a, demo_b]) = [(''a'', demo_a), (''b'', demo_b)]"
    by (simp add: collect_map_def demo_a_def demo_b_def)
  have "edges [(''a'', demo_a), (''b'', demo_b)] = {(''b'', ''a'')}"
    by (auto simp: edges_def deps_of_def demo_a_def demo_b_def split: if_splits)
  then have "detect_cycles [(''a'', demo_a), (''b'', demo_b)] = Ok ()"
    by (simp add: detect_cycles_iff acyclic_def trancl_insert)
  then have prep: "prepare [demo_a, demo_b] Map.empty = Ok [demo_a, demo_b]"
    using idx by (simp add: prepare_def substitute_vars_Cons demo_a_def demo_b_def)
  show ?thesis
    by (rule loaded_system_makes_progress [OF prep demo_with_backends, of _ "''a''" "demo_state demo_a"])
      (auto simp: demo_sup_def demo_state_def service_state_new_def demo_a_def demo_b_def split: if_splits)
qed

section \<open>Notifications\<close>

text \<open>
  The notification protocol round-trips.  For a service name without line breaks, what
  the client formats for ready, status and stopping is parsed by the supervisor as exactly
  that event of exactly that service, with the status text and health intact; a watchdog
  message is no event.
\<close>

lemma notification_round_trip:
  assumes "field_text (nt_service_name n)" and "field_text message" and "newline \<notin> set reason"
    and "process_id \<le> u32_max"
  shows "parse_notification (notifier_ready n process_id) = Some (NotifyReady (nt_service_name n)) \<and>
         parse_notification (notifier_status n message h) =
           Some (NotifyStatusUpdate (nt_service_name n) message h) \<and>
         parse_notification (notifier_stopping n reason) = Some (NotifyStopping (nt_service_name n)) \<and>
         parse_notification (notifier_watchdog n) = None"
  using assms parse_ready parse_status parse_stopping parse_watchdog by blast

text \<open>
  The drain does not always drain.  A watchdog datagram ends the poll: the events before
  it are returned, and whatever waits behind it stays in the socket until the next poll.
\<close>

lemma watchdog_stops_poll:
  assumes "\<forall>d \<in> set ds. readable d \<noteq> None" and "field_text (nt_service_name n)"
    and "length (notifier_watchdog n) \<le> MAX_DATAGRAM_SIZE"
  shows "poll (ds @ notifier_watchdog n # rest) = (map (the \<circ> readable) ds, rest)"
  by (rule poll_stops [OF assms(1)]) (use assms parse_watchdog in \<open>simp add: readable_def Let_def\<close>)

text \<open>
  Health reports drive the Ready/Degraded pair.  A report that repeats the last one
  changes nothing; a new unhealthy or degraded report makes the service Degraded; the next
  healthy report brings a Degraded service back to Ready and leaves any other status alone.
\<close>

lemma status_update_transitions:
  "(last_status st = Some (txt, h) \<longrightarrow> status_update_state txt h st = st) \<and>
   (last_status st \<noteq> Some (txt, h) \<longrightarrow>
      last_status (status_update_state txt h st) = Some (txt, h) \<and>
      status (status_update_state txt h st) =
        (if h \<noteq> Healthy then Degraded else if status st = Degraded then Ready else status st)) \<and>
   status_update_state txt h (status_update_state txt h st) = status_update_state txt h st"
  by (auto simp: status_update_state_def Let_def)

section \<open>Commands and snapshots\<close>

text \<open>
  Quoting protects arguments.  A command made of double-quoted, non-empty words is
  split into exactly those words, whatever characters other than the double quote they
  contain; and no command ever yields an empty argument.
\<close>

lemma argv_quoting:
  assumes "\<forall>w \<in> set ws. double_quote \<notin> set w \<and> w \<noteq> []"
  shows "argv \<lparr>svc_name = nm, command = spaced (map quoted ws), depends_on = deps\<rparr> = ws \<and>
         (\<forall>svc. \<forall>a \<in> set (argv svc). a \<noteq> [])"
proof -
  have "fold argv_accept (spaced (map quoted ws)) argv_default = \<lparr>args = ws, current = [], quote = None\<rparr>"
    using argv_quoted_words [OF assms, of "[]"] by (simp add: argv_default_def)
  then have "argv \<lparr>svc_name = nm, command = spaced (map quoted ws), depends_on = deps\<rparr> = ws"
    by (simp add: argv_def argv_flush_def)
  moreover have "\<forall>svc. \<forall>a \<in> set (argv svc). a \<noteq> []"
    using argv_args_nonempty by blast
  ultimately show ?thesis ..
qed

text \<open>
  Variable substitution replaces exactly the known references: plain text is copied, a
  dollar sign followed by a known name becomes its value, and a command that refers to no
  known name is left unchanged, dollar signs included.
\<close>

lemma substitute_vars_spec:
  assumes "CHR ''$'' \<notin> set pre" and "\<forall>c \<in> set name. var_char c" and "rest = [] \<or> \<not> var_char (hd rest)"
    and "env name = Some v"
  shows "substitute_vars (pre @ CHR ''$'' # name @ rest) env = pre @ v @ substitute_vars rest env \<and>
         (\<forall>cmd. (\<forall>n \<in> set (var_refs cmd). env n = None) \<longrightarrow> substitute_vars cmd env = cmd)"
proof -
  have "takeWhile var_char (name @ rest) = name" "dropWhile var_char (name @ rest) = rest"
    using assms(2,3) by (cases rest; simp)+
  then show ?thesis
    using assms substitute_vars_unknown by (simp add: substitute_vars_plain substitute_vars_Cons)
qed

text \<open>
  The published snapshot lists every service once, sorted by name, with its current
  status and restart count, and watchers are notified exactly when it changed.
\<close>

lemma publish_snapshot:
  assumes "distinct (keys_of svcs)"
  shows "watch_value (publish svcs tx) = snapshot_of svcs \<and>
         sorted (map view_name (snapshot_of svcs)) \<and> distinct (map view_name (snapshot_of svcs)) \<and>
         (v \<in> set (snapshot_of svcs) \<longleftrightarrow>
            (\<exists>st. map_of svcs (view_name v) = Some st \<and> view_status v = status st \<and>
                  view_restarts v = restart_count st)) \<and>
         (watch_version (publish svcs tx) = watch_version tx \<longleftrightarrow> watch_value tx = snapshot_of svcs)"
proof -
  let ?mk = "\<lambda>(name, st). \<lparr>view_name = name, view_status = status st, view_restarts = restart_count st\<rparr>"
  have "mset (map view_name (snapshot_of svcs)) = mset (keys_of svcs)"
    by (simp add: snapshot_of_def keys_of_def image_mset.compositionality comp_def case_prod_beta)
  then have "distinct (map view_name (snapshot_of svcs))"
    using assms mset_eq_imp_distinct_iff by blast
  moreover have "v \<in> set (snapshot_of svcs) \<longleftrightarrow>
      (\<exists>st. (view_name v, st) \<in> set svcs \<and> view_status v = status st \<and> view_restarts v = restart_count st)"
    by (cases v) (force simp: snapshot_of_def)
  ultimately show ?thesis
    using map_of_mem_iff [OF assms] by (auto simp: publish_def snapshot_of_def Let_def)
qed

end
