(* ===== verification/Bytes.thy ===== *)
theory Bytes
  imports Prelude "HOL-Library.Word"
begin

text \<open>
  Byte buffers.  A byte is an \<^typ>\<open>8 word\<close>, an array \<open>[u8; N]\<close> or slice is a list of bytes, and
  the unsigned integers that are stored in them are natural numbers.  The operations are those of
  the standard library that the on-disk and wire formats use: \<open>to_le_bytes\<close>/\<open>from_le_bytes\<close> and
  their big-endian twins, \<open>slice.get(range)\<close>, \<open>copy_from_slice\<close> into a range,
  \<open>chunks_exact\<close>, and the \<open>Read\<close>/\<open>Write\<close> calls on an in-memory stream.  The lemmas are the
  read-over-write laws that the codec proofs of the later theories simplify with.
\<close>

type_synonym byte = "8 word"
type_synonym bytes = "byte list"

section \<open>Integers as bytes\<close>

text \<open>\<open>x.to_le_bytes()\<close> for an integer of \<open>n\<close> bytes, and \<open>from_le_bytes\<close>.\<close>

primrec to_le :: "nat \<Rightarrow> nat \<Rightarrow> bytes" where
  "to_le 0 x = []"
| "to_le (Suc n) x = word_of_nat x # to_le n (x div 256)"

primrec from_le :: "bytes \<Rightarrow> nat" where
  "from_le [] = 0"
| "from_le (b # bs) = unat b + 256 * from_le bs"

text \<open>The big-endian forms store the same bytes in the opposite order.\<close>

definition to_be :: "nat \<Rightarrow> nat \<Rightarrow> bytes" where
  "to_be n x = rev (to_le n x)"

definition from_be :: "bytes \<Rightarrow> nat" where
  "from_be bs = from_le (rev bs)"

section \<open>Ranges of a buffer\<close>

text \<open>\<open>buf.get(i..j)\<close>: \<^const>\<open>None\<close> unless \<open>i \<le> j \<le> len\<close>.\<close>

definition get_range :: "'a list \<Rightarrow> nat \<Rightarrow> nat \<Rightarrow> 'a list option" where
  "get_range bs i j = (if i \<le> j \<and> j \<le> length bs then Some (take (j - i) (drop i bs)) else None)"

text \<open>
  \<open>if let Some(dst) = buf.get_mut(i..j) { dst.copy_from_slice(data) }\<close>: nothing happens when the
  range does not lie in the buffer.  (\<open>copy_from_slice\<close> panics unless the two lengths agree; every
  call passes an array whose static length is that of the range.)
\<close>

definition put_range :: "'a list \<Rightarrow> nat \<Rightarrow> nat \<Rightarrow> 'a list \<Rightarrow> 'a list" where
  "put_range bs i j data =
     (if i \<le> j \<and> j \<le> length bs then take i bs @ data @ drop j bs else bs)"

definition zeros :: "nat \<Rightarrow> bytes" where
  "zeros n = replicate n 0"

text \<open>\<open>buf.chunks_exact(n)\<close>: the whole chunks, a shorter rest is dropped.\<close>

function (sequential) chunks_exact :: "nat \<Rightarrow> 'a list \<Rightarrow> 'a list list" where
  "chunks_exact 0 xs = []"
| "chunks_exact (Suc n) xs =
     (if length xs < Suc n then [] else take (Suc n) xs # chunks_exact (Suc n) (drop (Suc n) xs))"
  by pat_completeness auto
termination
  by (relation "measure (\<lambda>(_, xs). length xs)") auto

declare chunks_exact.simps [simp del]

section \<open>Streams\<close>

text \<open>
  \<open>reader.read_exact(&mut [0; n])\<close> on the bytes still to be read: the bytes and the rest, or
  \<^const>\<open>None\<close> for \<open>UnexpectedEof\<close>.
\<close>

definition read_exact :: "nat \<Rightarrow> bytes \<Rightarrow> (bytes \<times> bytes) option" where
  "read_exact n input = (if length input < n then None else Some (take n input, drop n input))"

text \<open>
  A writer over memory: what was written, and how much room is left (\<^const>\<open>None\<close> for a growing
  \<open>Vec\<close>).  \<open>write_all\<close> fails when the room runs out.
\<close>

record writer =
  written :: bytes
  room :: "nat option"

definition write_all :: "bytes \<Rightarrow> writer \<Rightarrow> writer option" where
  "write_all data w =
     (case room w of
        None \<Rightarrow> Some (w\<lparr>written := written w @ data\<rparr>)
      | Some n \<Rightarrow>
          if length data \<le> n
          then Some (w\<lparr>written := written w @ data, room := Some (n - length data)\<rparr>)
          else None)"

definition vec_writer :: writer where
  "vec_writer = \<lparr>written = [], room = None\<rparr>"

section \<open>Integer encodings\<close>

lemma length_to_le [simp]: "length (to_le n x) = n"
  by (induction n arbitrary: x) auto

lemma length_to_be [simp]: "length (to_be n x) = n"
  by (simp add: to_be_def)

lemma unat_byte_less: "unat (b :: byte) < 256"
  using unsigned_less [of b, where 'a = nat] by simp

lemma from_le_to_le: "from_le (to_le n x) = x mod 256 ^ n"
proof (induction n arbitrary: x)
  case (Suc n)
  have "unat (word_of_nat x :: byte) = x mod 256"
    by (simp add: unat_of_nat)
  then show ?case
    by (simp add: Suc mod_mult2_eq)
qed simp

lemma from_le_to_le_id [simp]: "x < 256 ^ n \<Longrightarrow> from_le (to_le n x) = x"
  by (simp add: from_le_to_le)

lemma from_le_bound: "from_le bs < 256 ^ length bs"
proof (induction bs)
  case (Cons b bs)
  have "unat b + 256 * from_le bs < 256 + 256 * from_le bs"
    using unat_byte_less by simp
  also have "\<dots> = 256 * Suc (from_le bs)" by simp
  also have "\<dots> \<le> 256 * 256 ^ length bs"
    using Cons by (intro mult_le_mono2) simp
  finally show ?case by simp
qed simp

lemma to_le_from_le [simp]: "to_le (length bs) (from_le bs) = bs"
proof (induction bs)
  case (Cons b bs)
  have "word_of_nat (unat b + 256 * from_le bs) = b"
  proof -
    have "(256 :: byte) = 0" by simp
    then have "word_of_nat (256 * from_le bs) = (0 :: byte)"
      by (metis mult_zero_left of_nat_mult of_nat_numeral)
    then show ?thesis by simp
  qed
  moreover have "(unat b + 256 * from_le bs) div 256 = from_le bs"
    using unat_byte_less [of b] by simp
  ultimately show ?case using Cons by simp
qed simp

lemma from_be_to_be_id [simp]: "x < 256 ^ n \<Longrightarrow> from_be (to_be n x) = x"
  by (simp add: from_be_def to_be_def)

lemma from_be_bound: "from_be bs < 256 ^ length bs"
  using from_le_bound [of "rev bs"] by (simp add: from_be_def)

lemma to_be_from_be [simp]: "to_be (length bs) (from_be bs) = bs"
  using to_le_from_le [of "rev bs"] by (simp add: from_be_def to_be_def)

section \<open>Reads over writes\<close>

lemma length_zeros [simp]: "length (zeros n) = n"
  by (simp add: zeros_def)

lemma put_range_middle:
  assumes "i = length pre" "j = i + length d" "length mid = length d"
  shows "put_range (pre @ mid @ post) i j d = pre @ d @ post"
  using assms by (simp add: put_range_def)

lemma length_put_range [simp]: "length d = j - i \<Longrightarrow> length (put_range bs i j d) = length bs"
  by (auto simp: put_range_def)

lemma get_put_same [simp]:
  "i \<le> j \<Longrightarrow> j \<le> length bs \<Longrightarrow> length d = j - i \<Longrightarrow> get_range (put_range bs i j d) i j = Some d"
  by (auto simp: get_range_def put_range_def)

lemma nth_put_range_other:
  "length d = j - i \<Longrightarrow> i \<le> j \<Longrightarrow> j \<le> length bs \<Longrightarrow> k < i \<or> j \<le> k \<Longrightarrow> k < length bs
   \<Longrightarrow> put_range bs i j d ! k = bs ! k"
  by (auto simp: put_range_def nth_append)

lemma get_put_other [simp]:
  assumes d: "length d = j' - i'" and apart: "j \<le> i' \<or> j' \<le> i"
  shows "get_range (put_range bs i' j' d) i j = get_range bs i j"
proof (cases "i' \<le> j' \<and> j' \<le> length bs")
  case True
  have len: "length (put_range bs i' j' d) = length bs" using d by simp
  have "take (j - i) (drop i (put_range bs i' j' d)) = take (j - i) (drop i bs)"
  proof (rule nth_equalityI)
    fix k assume "k < length (take (j - i) (drop i (put_range bs i' j' d)))"
    then have k: "k < j - i" "i + k < length bs" by (auto simp: len)
    then have "put_range bs i' j' d ! (i + k) = bs ! (i + k)"
      using apart True by (intro nth_put_range_other d) auto
    then show "take (j - i) (drop i (put_range bs i' j' d)) ! k = take (j - i) (drop i bs) ! k"
      using k by (simp add: len)
  qed (simp add: len)
  then show ?thesis by (simp add: get_range_def len)
qed (auto simp: put_range_def)

lemma put_put_same [simp]:
  "length d = j - i \<Longrightarrow> put_range (put_range bs i j d) i j e = put_range bs i j e"
  by (auto simp: put_range_def)

lemma put_get_same: "get_range bs i j = Some d \<Longrightarrow> put_range bs i j d = bs"
proof -
  assume a: "get_range bs i j = Some d"
  then have r: "i \<le> j" "j \<le> length bs" and d: "d = take (j - i) (drop i bs)"
    by (auto simp: get_range_def split: if_splits)
  have "d @ drop j bs = drop i bs"
    using r by (simp add: d) (metis append_take_drop_id drop_drop le_add_diff_inverse2)
  then show ?thesis using r by (simp add: put_range_def)
qed

lemma get_zeros [simp]: "i \<le> j \<Longrightarrow> j \<le> n \<Longrightarrow> get_range (zeros n) i j = Some (zeros (j - i))"
  by (auto simp: get_range_def zeros_def)

lemma get_append_left [simp]:
  "j \<le> length bs \<Longrightarrow> get_range (bs @ cs) i j = get_range bs i j"
  by (auto simp: get_range_def)

lemma get_all [simp]: "n = length bs \<Longrightarrow> get_range bs 0 n = Some bs"
  by (simp add: get_range_def)

lemma get_append_all [simp]: "n = length bs \<Longrightarrow> get_range (bs @ cs) 0 n = Some bs"
  by (simp add: get_range_def)

lemma length_get_range: "get_range bs i j = Some d \<Longrightarrow> length d = j - i"
  by (auto simp: get_range_def split: if_splits)

section \<open>Chunks\<close>

lemma chunks_exact_concat:
  assumes "0 < n" "\<And>c. c \<in> set cs \<Longrightarrow> length c = n"
  shows "chunks_exact n (concat cs) = cs"
proof -
  obtain m where n: "n = Suc m" using assms by (cases n) auto
  show ?thesis
    using assms(2) unfolding n
    by (induction cs) (simp_all add: chunks_exact.simps)
qed

lemma length_concat_const:
  "(\<And>c. c \<in> set cs \<Longrightarrow> length c = n) \<Longrightarrow> length (concat cs) = n * length cs"
  by (induction cs) (auto simp: algebra_simps)

section \<open>Streams\<close>

lemma read_exact_append [simp]: "n = length bs \<Longrightarrow> read_exact n (bs @ rest) = Some (bs, rest)"
  by (simp add: read_exact_def)

lemma write_all_vec [simp]: "room w = None \<Longrightarrow> write_all d w = Some (w\<lparr>written := written w @ d\<rparr>)"
  by (simp add: write_all_def)

lemma write_all_written: "write_all d w = Some w' \<Longrightarrow> written w' = written w @ d"
  by (auto simp: write_all_def split: option.splits if_splits)

end
