(* ===== verification/Gpt_Header.thy ===== *)
theory Gpt_Header
  imports Bytes Rust_Strings
begin

text \<open>
  The GPT header sector (\<open>libs/parttable/src/gpt/header.rs\<close>) and the error type of the crate
  (\<open>error.rs\<close>).  The CRC-32 of the \<open>crc32fast\<close> crate is a parameter \<open>crc\<close> of every definition
  that calls it: some function from byte strings to 32-bit values.
\<close>

section \<open>Errors\<close>

datatype io_failure = UnexpectedEof | WriteZero

text \<open>
  \<open>Panicked\<close> stands for a panic of the standard library (a division by zero) in a function that
  otherwise returns one of the three errors of the source.
\<close>

datatype parttable_error = Io io_failure | Gpt string | InvalidPlacement string | Panicked

type_synonym 'a gpt_result = "parttable_error + 'a"

type_synonym crc32 = "bytes \<Rightarrow> 32 word"

text \<open>\<open>a.div_ceil(b)\<close> panics when \<open>b\<close> is zero.\<close>

definition u64_div_ceil :: "nat \<Rightarrow> nat \<Rightarrow> nat gpt_result" where
  "u64_div_ceil a b = (if b = 0 then Err Panicked else Ok (div_ceil a b))"

section \<open>The header\<close>

abbreviation (input) GPT_HEADER_SIZE :: nat where "GPT_HEADER_SIZE \<equiv> 92"

definition EFI_PART :: bytes where
  "EFI_PART = [0x45, 0x46, 0x49, 0x20, 0x50, 0x41, 0x52, 0x54]"

record gpt_header =
  entries_lba :: nat
  hdr_first_usable_lba :: nat
  hdr_last_usable_lba :: nat
  hdr_disk_guid :: bytes
  entries_count :: nat
  entries_size :: nat
  entries_crc :: nat

definition hdr_field :: "bytes \<Rightarrow> nat \<Rightarrow> nat \<Rightarrow> bytes gpt_result" where
  "hdr_field sector i j = ok_or (get_range sector i j) (Gpt ''GPT header truncated'')"

definition hdr_u32 :: "bytes \<Rightarrow> nat \<Rightarrow> nat \<Rightarrow> nat gpt_result" where
  "hdr_u32 sector i j =
     and_then (hdr_field sector i j)
       (\<lambda>bs. if length bs = 4 then Ok (from_le bs) else Err (Gpt ''GPT header field truncated''))"

definition hdr_u64 :: "bytes \<Rightarrow> nat \<Rightarrow> nat \<Rightarrow> nat gpt_result" where
  "hdr_u64 sector i j =
     and_then (hdr_field sector i j)
       (\<lambda>bs. if length bs = 8 then Ok (from_le bs) else Err (Gpt ''GPT header field truncated''))"

text \<open>The fields that \<open>parse\<close> reads once the header has been validated.\<close>

definition hdr_fields :: "bytes \<Rightarrow> gpt_header gpt_result" where
  "hdr_fields sector =
     and_then (hdr_field sector 56 72) (\<lambda>guid.
     and_then (hdr_u64 sector 72 80) (\<lambda>elba.
     and_then (hdr_u64 sector 40 48) (\<lambda>fu.
     and_then (hdr_u64 sector 48 56) (\<lambda>lu.
     and_then (hdr_u32 sector 80 84) (\<lambda>cnt.
     and_then (hdr_u32 sector 84 88) (\<lambda>sz.
     and_then (hdr_u32 sector 88 92) (\<lambda>ecrc.
       Ok \<lparr>entries_lba = elba, hdr_first_usable_lba = fu, hdr_last_usable_lba = lu,
           hdr_disk_guid = guid, entries_count = cnt, entries_size = sz, entries_crc = ecrc\<rparr>)))))))"

definition gpt_header_parse :: "crc32 \<Rightarrow> bytes \<Rightarrow> gpt_header gpt_result" where
  "gpt_header_parse crc sector =
     and_then (hdr_field sector 0 8) (\<lambda>signature.
       if signature \<noteq> EFI_PART then Err (Gpt ''invalid GPT signature'')
       else and_then (hdr_u32 sector 8 12) (\<lambda>revision.
       if revision < 0x10000 then Err (Gpt ''unsupported GPT revision'')
       else and_then (hdr_u32 sector 12 16) (\<lambda>header_size.
       if header_size < GPT_HEADER_SIZE then Err (Gpt ''GPT header too small'')
       else and_then (hdr_u32 sector 16 20) (\<lambda>header_crc.
            and_then (hdr_field sector 0 GPT_HEADER_SIZE) (\<lambda>crc_buffer.
       if unat (crc (put_range crc_buffer 16 20 (zeros 4))) \<noteq> header_crc
       then Err (Gpt ''GPT header CRC mismatch'')
       else hdr_fields sector)))))"

text \<open>Where the entries array of the header being encoded starts: before the backup header, or where
  the primary header says.\<close>

definition encoded_entries_lba :: "gpt_header \<Rightarrow> bool \<Rightarrow> nat \<Rightarrow> nat \<Rightarrow> nat gpt_result" where
  "encoded_entries_lba h backup sector_count sector_size =
     (if backup
      then and_then (u64_div_ceil (saturating_mul u64_max (entries_count h) (entries_size h)) sector_size)
             (\<lambda>sectors. Ok (sector_count - 1 - sectors))
      else Ok (entries_lba h))"

definition encoded_body :: "gpt_header \<Rightarrow> bool \<Rightarrow> nat \<Rightarrow> nat \<Rightarrow> nat \<Rightarrow> bytes" where
  "encoded_body h backup sector_count elba ecrc =
     (let header = zeros GPT_HEADER_SIZE;
          header = put_range header 0 8 EFI_PART;
          header = put_range header 8 12 (to_le 4 0x10000);
          header = put_range header 12 16 (to_le 4 GPT_HEADER_SIZE);
          (current_lba, backup_lba) =
            (if backup then (sector_count - 1, 1) else (1, sector_count - 1));
          header = put_range header 24 32 (to_le 8 current_lba);
          header = put_range header 32 40 (to_le 8 backup_lba);
          header = put_range header 40 48 (to_le 8 (hdr_first_usable_lba h));
          header = put_range header 48 56 (to_le 8 (hdr_last_usable_lba h));
          header = put_range header 56 72 (hdr_disk_guid h);
          header = put_range header 72 80 (to_le 8 elba);
          header = put_range header 80 84 (to_le 4 (entries_count h));
          header = put_range header 84 88 (to_le 4 (entries_size h))
      in put_range header 88 92 (to_le 4 ecrc))"

definition gpt_header_encode ::
    "crc32 \<Rightarrow> gpt_header \<Rightarrow> bool \<Rightarrow> nat \<Rightarrow> nat \<Rightarrow> nat \<Rightarrow> bytes gpt_result" where
  "gpt_header_encode crc h backup sector_count sector_size ecrc =
     and_then (encoded_entries_lba h backup sector_count sector_size) (\<lambda>elba.
       let header = encoded_body h backup sector_count elba ecrc;
           header = put_range header 16 20 (to_le 4 (unat (crc header)))
       in Ok (put_range (zeros 512) 0 GPT_HEADER_SIZE header))"

text \<open>What the field types of \<open>GptHeader\<close> say.\<close>

definition header_typed :: "gpt_header \<Rightarrow> bool" where
  "header_typed h \<longleftrightarrow> entries_lba h < 2 ^ 64 \<and> hdr_first_usable_lba h < 2 ^ 64
     \<and> hdr_last_usable_lba h < 2 ^ 64 \<and> length (hdr_disk_guid h) = 16
     \<and> entries_count h < 2 ^ 32 \<and> entries_size h < 2 ^ 32 \<and> entries_crc h < 2 ^ 32"

section \<open>The encoded header\<close>

lemma length_encoded_body:
  "length (hdr_disk_guid h) = 16 \<Longrightarrow> length (encoded_body h b sc elba ecrc) = 92"
  by (simp add: encoded_body_def Let_def EFI_PART_def split: if_splits)

lemma encoded_body_fields:
  assumes "length (hdr_disk_guid h) = 16"
  shows "get_range (encoded_body h b sc elba ecrc) 0 8 = Some EFI_PART"
    and "get_range (encoded_body h b sc elba ecrc) 8 12 = Some (to_le 4 0x10000)"
    and "get_range (encoded_body h b sc elba ecrc) 12 16 = Some (to_le 4 92)"
    and "get_range (encoded_body h b sc elba ecrc) 16 20 = Some (zeros 4)"
    and "get_range (encoded_body h b sc elba ecrc) 40 48 = Some (to_le 8 (hdr_first_usable_lba h))"
    and "get_range (encoded_body h b sc elba ecrc) 48 56 = Some (to_le 8 (hdr_last_usable_lba h))"
    and "get_range (encoded_body h b sc elba ecrc) 56 72 = Some (hdr_disk_guid h)"
    and "get_range (encoded_body h b sc elba ecrc) 72 80 = Some (to_le 8 elba)"
    and "get_range (encoded_body h b sc elba ecrc) 80 84 = Some (to_le 4 (entries_count h))"
    and "get_range (encoded_body h b sc elba ecrc) 84 88 = Some (to_le 4 (entries_size h))"
    and "get_range (encoded_body h b sc elba ecrc) 88 92 = Some (to_le 4 ecrc)"
  using assms
  by (simp_all add: encoded_body_def Let_def EFI_PART_def split: if_splits)

lemma put_whole_header:
  "length header = 92 \<Longrightarrow> put_range (zeros 512) 0 92 header = header @ zeros 420"
  by (simp add: put_range_def zeros_def)

lemma gpt_header_encode_eq:
  assumes "length (hdr_disk_guid h) = 16" "encoded_entries_lba h b sc ss = Ok elba"
  shows "gpt_header_encode crc h b sc ss ecrc =
    Ok (put_range (encoded_body h b sc elba ecrc) 16 20
          (to_le 4 (unat (crc (encoded_body h b sc elba ecrc)))) @ zeros 420)"
  using assms
  by (simp add: gpt_header_encode_def Let_def put_whole_header length_encoded_body
      )

lemma unat_crc_less: "unat (w :: 32 word) < 4294967296"
  using unsigned_less [of w, where 'a = nat] by simp

lemma length_gpt_header_encode:
  assumes "length (hdr_disk_guid h) = 16" "gpt_header_encode crc h b sc ss ecrc = Ok sector"
  shows "length sector = 512"
proof -
  obtain elba where "encoded_entries_lba h b sc ss = Ok elba"
    using assms(2) by (auto simp: gpt_header_encode_def and_then_eq_Ok)
  then show ?thesis
    using assms by (auto simp: gpt_header_encode_eq length_encoded_body)
qed

lemma hdr_fields_encode:
  assumes "header_typed h" "elba < 2 ^ 64" "ecrc < 2 ^ 32"
  shows "hdr_fields (put_range (encoded_body h b sc elba ecrc) 16 20 (to_le 4 c) @ zeros n) =
    Ok (h\<lparr>entries_lba := elba, entries_crc := ecrc\<rparr>)"
proof -
  have "length (hdr_disk_guid h) = 16" using assms(1) by (simp add: header_typed_def)
  note enc = encoded_body_fields [OF this] length_encoded_body [OF this]
  show ?thesis
    using assms
    by (simp add: hdr_fields_def hdr_field_def hdr_u32_def hdr_u64_def enc header_typed_def)
qed

lemma gpt_header_parse_encode:
  assumes "header_typed h" "ecrc < 2 ^ 32"
    and "encoded_entries_lba h b sc ss = Ok elba" "elba < 2 ^ 64"
    and "gpt_header_encode crc h b sc ss ecrc = Ok sector"
  shows "gpt_header_parse crc sector = Ok (h\<lparr>entries_lba := elba, entries_crc := ecrc\<rparr>)"
proof -
  let ?body = "encoded_body h b sc elba ecrc"
  have g: "length (hdr_disk_guid h) = 16" using assms(1) by (simp add: header_typed_def)
  note enc = encoded_body_fields [OF g] length_encoded_body [OF g]
  let ?c = "unat (crc ?body)"
  have sector: "sector = put_range ?body 16 20 (to_le 4 ?c) @ zeros 420"
    using assms(5) by (simp add: gpt_header_encode_eq [OF g assms(3)])
  have crc_zeroed: "put_range ?body 16 20 (zeros 4) = ?body"
    by (rule put_get_same) (simp add: enc)
  show ?thesis
    using hdr_fields_encode [OF assms(1) assms(4) assms(2), of b sc ?c 420] unat_crc_less [of "crc ?body"]
    by (simp add: gpt_header_parse_def sector hdr_field_def hdr_u32_def enc crc_zeroed
        )
qed

text \<open>A header that parses carries the CRC of its own first 92 bytes.\<close>

lemma gpt_header_parse_crc:
  assumes "gpt_header_parse crc sector = Ok h"
  shows "\<exists>body stored. get_range sector 0 92 = Some body \<and> get_range sector 16 20 = Some stored
    \<and> unat (crc (put_range body 16 20 (zeros 4))) = from_le stored"
  using assms
  by (auto simp: gpt_header_parse_def hdr_field_def hdr_u32_def 
      and_then_eq_Ok ok_or_eq_Ok split: if_splits)

lemma hdr_u32_bound: "hdr_u32 sector i j = Ok x \<Longrightarrow> x < 2 ^ 32"
  by (auto simp: hdr_u32_def and_then_eq_Ok split: if_splits intro: from_le_bound [THEN order_less_le_trans])

lemma hdr_u64_bound: "hdr_u64 sector i j = Ok x \<Longrightarrow> x < 2 ^ 64"
  by (auto simp: hdr_u64_def and_then_eq_Ok split: if_splits intro: from_le_bound [THEN order_less_le_trans])

lemma hdr_field_length: "hdr_field sector i j = Ok x \<Longrightarrow> length x = j - i"
  by (auto simp: hdr_field_def ok_or_eq_Ok dest: length_get_range)

lemma gpt_header_parse_typed:
  assumes "gpt_header_parse crc sector = Ok h"
  shows "header_typed h"
proof -
  have "hdr_fields sector = Ok h"
    using assms by (auto simp: gpt_header_parse_def and_then_eq_Ok split: if_splits)
  then show ?thesis
    by (auto simp: hdr_fields_def header_typed_def and_then_eq_Ok
        dest!: hdr_u32_bound hdr_u64_bound hdr_field_length)
qed

end
