(* ===== verification/Gpt_Partition.thy ===== *)
theory Gpt_Partition
  imports Bytes
begin

text \<open>
  The 128-byte GPT partition entry (\<open>libs/parttable/src/gpt/partition.rs\<close>).  A partition name is a
  Rust \<open>String\<close>, here the list of its Unicode scalar values; the standard library's
  \<open>encode_utf16\<close> and \<open>from_utf16_lossy\<close> are written out, with the replacement character for an
  unpaired surrogate.
\<close>

section \<open>UTF-16\<close>

type_synonym unicode = "nat list"

definition is_scalar :: "nat \<Rightarrow> bool" where
  "is_scalar c \<longleftrightarrow> c < 0xD800 \<or> 0xE000 \<le> c \<and> c < 0x110000"

definition utf16_units :: "nat \<Rightarrow> nat list" where
  "utf16_units c =
     (if c < 0x10000 then [c]
      else [0xD800 + (c - 0x10000) div 0x400, 0xDC00 + (c - 0x10000) mod 0x400])"

definition encode_utf16 :: "unicode \<Rightarrow> nat list" where
  "encode_utf16 name = concat (map utf16_units name)"

definition replacement_char :: nat where
  "replacement_char = 0xFFFD"

fun from_utf16_lossy :: "nat list \<Rightarrow> unicode" where
  "from_utf16_lossy [] = []"
| "from_utf16_lossy [u] = [if 0xD800 \<le> u \<and> u \<le> 0xDFFF then replacement_char else u]"
| "from_utf16_lossy (u # v # us) =
     (if u < 0xD800 \<or> 0xDFFF < u then u # from_utf16_lossy (v # us)
      else if 0xDC00 \<le> u \<or> v < 0xDC00 \<or> 0xDFFF < v
           then replacement_char # from_utf16_lossy (v # us)
           else (0x10000 + (u - 0xD800) * 0x400 + (v - 0xDC00)) # from_utf16_lossy us)"

section \<open>Partition entries\<close>

definition LINUX_FS_GUID :: bytes where
  "LINUX_FS_GUID =
     [0xaf, 0x3d, 0xc6, 0x0f, 0x83, 0x84, 0x72, 0x47, 0x8e, 0x79, 0x3d, 0x69, 0xd8, 0x47, 0x7d, 0xe4]"

record partition =
  type_guid :: bytes
  unique_guid :: bytes
  starting_lba :: nat
  ending_lba :: nat
  attributes :: nat
  part_name :: unicode

text \<open>
  The loop of \<open>encode\<close> that zips the two-byte chunks of the zeroed name field with the UTF-16 units:
  it stops at the shorter of the two.
\<close>

fun fill_units :: "bytes list \<Rightarrow> nat list \<Rightarrow> bytes list" where
  "fill_units (c # cs) (u # us) = to_le 2 u # fill_units cs us"
| "fill_units cs _ = cs"

abbreviation (input) ENT_NAME_START :: nat where "ENT_NAME_START \<equiv> 56"
abbreviation (input) ENT_NAME_MAX_BYTES :: nat where "ENT_NAME_MAX_BYTES \<equiv> 72"

definition name_field :: "unicode \<Rightarrow> bytes" where
  "name_field name =
     concat (fill_units (chunks_exact 2 (zeros ENT_NAME_MAX_BYTES)) (encode_utf16 name))"

definition partition_encode :: "partition \<Rightarrow> bytes" where
  "partition_encode p =
     (let bytes = zeros 128;
          bytes = put_range bytes 0 16 (type_guid p);
          bytes = put_range bytes 16 32 (unique_guid p);
          bytes = put_range bytes 32 40 (to_le 8 (starting_lba p));
          bytes = put_range bytes 40 48 (to_le 8 (ending_lba p));
          bytes = put_range bytes 48 56 (to_le 8 (attributes p))
      in put_range bytes ENT_NAME_START (ENT_NAME_START + ENT_NAME_MAX_BYTES)
           (name_field (part_name p)))"

text \<open>\<open>decode_name\<close>: the units up to the first zero unit.\<close>

definition decode_name :: "bytes \<Rightarrow> unicode option" where
  "decode_name bytes =
     map_option
       (\<lambda>raw. from_utf16_lossy (takeWhile (\<lambda>u. u \<noteq> 0) (map from_le (chunks_exact 2 raw))))
       (get_range bytes ENT_NAME_START (ENT_NAME_START + ENT_NAME_MAX_BYTES))"

definition entry_u64 :: "bytes \<Rightarrow> nat \<Rightarrow> nat \<Rightarrow> nat option" where
  "entry_u64 bytes i j =
     Option.bind (get_range bytes i j) (\<lambda>v. if length v = 8 then Some (from_le v) else None)"

definition partition_decode :: "bytes \<Rightarrow> partition option" where
  "partition_decode bytes =
     Option.bind (get_range bytes 0 16) (\<lambda>tg.
       if tg = zeros 16 then None
       else Option.bind (get_range bytes 16 32) (\<lambda>ug.
            Option.bind (decode_name bytes) (\<lambda>name.
            Option.bind (entry_u64 bytes 32 40) (\<lambda>start.
            Option.bind (entry_u64 bytes 40 48) (\<lambda>end_lba.
            Option.bind (entry_u64 bytes 48 56) (\<lambda>attrs.
              Some \<lparr>type_guid = tg, unique_guid = ug, starting_lba = start, ending_lba = end_lba,
                    attributes = attrs, part_name = name\<rparr>))))))"

text \<open>
  What the types of \<open>Partition\<close> say of its fields, and which partitions an entry can represent: a
  non-zero type GUID (zero marks an unused slot) and a name of at most 36 units without NUL.
\<close>

definition partition_typed :: "partition \<Rightarrow> bool" where
  "partition_typed p \<longleftrightarrow> length (type_guid p) = 16 \<and> length (unique_guid p) = 16
     \<and> starting_lba p < 2 ^ 64 \<and> ending_lba p < 2 ^ 64 \<and> attributes p < 2 ^ 64
     \<and> list_all is_scalar (part_name p)"

definition representable :: "partition \<Rightarrow> bool" where
  "representable p \<longleftrightarrow> type_guid p \<noteq> zeros 16 \<and> length (encode_utf16 (part_name p)) \<le> 36
     \<and> 0 \<notin> set (part_name p)"

section \<open>UTF-16 lemmas\<close>

lemma utf16_units_range:
  assumes "is_scalar c" "u \<in> set (utf16_units c)"
  shows "u < 2 ^ 16" and "c \<noteq> 0 \<Longrightarrow> u \<noteq> 0"
proof -
  have "(c - 0x10000) div 0x400 < 0x400" if "c < 0x110000"
    using that by (intro less_mult_imp_div_less) simp
  then show "u < 2 ^ 16" "c \<noteq> 0 \<Longrightarrow> u \<noteq> 0"
    using assms mod_less_divisor [of "0x400" "c - 0x10000"]
    by (auto simp: utf16_units_def is_scalar_def split: if_splits)
qed

lemma from_utf16_lossy_units:
  assumes "is_scalar c"
  shows "from_utf16_lossy (utf16_units c @ us) = c # from_utf16_lossy us"
proof (cases "c < 0x10000")
  case True
  then show ?thesis
    using assms by (cases us) (auto simp: utf16_units_def is_scalar_def)
next
  case False
  define d where "d = c - 0x10000"
  have c: "c = 0x10000 + d" and d: "d < 0x100000"
    using False assms by (auto simp: d_def is_scalar_def)
  have "d div 0x400 < 0x400" using d by (intro less_mult_imp_div_less) simp
  moreover have "\<not> 1023 < d mod 0x400" using mod_less_divisor [of "0x400" d] by simp
  moreover have "d div 0x400 * 0x400 + d mod 0x400 = d" by (rule div_mult_mod_eq)
  moreover have "utf16_units c @ us = (0xD800 + d div 0x400) # (0xDC00 + d mod 0x400) # us"
    using c by (simp add: utf16_units_def)
  ultimately show ?thesis by (simp add: c)
qed

lemma from_utf16_lossy_encode: "list_all is_scalar name \<Longrightarrow> from_utf16_lossy (encode_utf16 name) = name"
  by (induction name) (auto simp: encode_utf16_def from_utf16_lossy_units)

lemma encode_utf16_units:
  assumes "list_all is_scalar name"
  shows "\<forall>u \<in> set (encode_utf16 name). u < 2 ^ 16"
    and "0 \<notin> set name \<Longrightarrow> 0 \<notin> set (encode_utf16 name)"
  using assms utf16_units_range by (fastforce simp: encode_utf16_def list_all_iff)+

section \<open>The name field\<close>

lemma fill_units_spec:
  "length us \<le> length cs \<Longrightarrow> fill_units cs us = map (to_le 2) us @ drop (length us) cs"
  by (induction cs us rule: fill_units.induct) auto

lemma length_fill_units [simp]: "length (fill_units cs us) = length cs"
  by (induction cs us rule: fill_units.induct) auto

lemma set_fill_units: "c \<in> set (fill_units cs us) \<Longrightarrow> c \<in> set cs \<or> length c = 2"
  by (induction cs us rule: fill_units.induct) auto

lemma chunks_zeros: "chunks_exact 2 (zeros 72) = replicate 36 (zeros 2)"
proof -
  have "zeros 72 = concat (replicate 36 (zeros 2))" by (simp add: zeros_def numeral_eq_Suc)
  then show ?thesis by (simp only:) (rule chunks_exact_concat, auto)
qed

lemma name_chunks:
  "c \<in> set (fill_units (replicate 36 (zeros 2)) us) \<Longrightarrow> length c = 2"
  using set_fill_units by fastforce

lemma length_name_field [simp]: "length (name_field name) = 72"
  unfolding name_field_def
  by (subst length_concat_const [where n = 2])
     (auto dest: name_chunks simp: chunks_zeros)

lemma name_field_units:
  assumes "length (encode_utf16 name) \<le> 36" "\<forall>u \<in> set (encode_utf16 name). u < 2 ^ 16"
  shows "map from_le (chunks_exact 2 (name_field name)) =
           encode_utf16 name @ replicate (36 - length (encode_utf16 name)) 0"
proof -
  let ?us = "encode_utf16 name"
  have "chunks_exact 2 (name_field name) = fill_units (replicate 36 (zeros 2)) ?us"
    using name_chunks unfolding name_field_def
    by (subst chunks_exact_concat) (auto simp: chunks_zeros)
  also have "\<dots> = map (to_le 2) ?us @ replicate (36 - length ?us) (zeros 2)"
    using assms(1) by (simp add: fill_units_spec)
  finally have c: "chunks_exact 2 (name_field name) =
      map (to_le 2) ?us @ replicate (36 - length ?us) (zeros 2)" .
  have "map from_le (map (to_le 2) ?us) = ?us"
    using assms(2) by (auto intro!: map_idI)
  moreover have "from_le (zeros 2) = 0" by (simp add: zeros_def numeral_2_eq_2)
  ultimately show ?thesis by (simp add: c)
qed

lemma takeWhile_nonzero_pad: "(0 :: nat) \<notin> set us \<Longrightarrow> takeWhile ((<) 0) (us @ replicate n 0) = us"
  by (induction us) (auto simp: takeWhile_replicate)

section \<open>Round trip of an entry\<close>

lemma length_partition_encode [simp]:
  "partition_typed p \<Longrightarrow> length (partition_encode p) = 128"
  by (simp add: partition_encode_def partition_typed_def Let_def 
      )

lemma partition_encode_fields:
  assumes "partition_typed p"
  shows "get_range (partition_encode p) 0 16 = Some (type_guid p)"
    and "get_range (partition_encode p) 16 32 = Some (unique_guid p)"
    and "get_range (partition_encode p) 32 40 = Some (to_le 8 (starting_lba p))"
    and "get_range (partition_encode p) 40 48 = Some (to_le 8 (ending_lba p))"
    and "get_range (partition_encode p) 48 56 = Some (to_le 8 (attributes p))"
    and "get_range (partition_encode p) 56 128 = Some (name_field (part_name p))"
  using assms
  by (simp_all add: partition_encode_def partition_typed_def Let_def 
      )

lemma decode_name_encode:
  assumes "partition_typed p" "representable p"
  shows "decode_name (partition_encode p) = Some (part_name p)"
proof -
  have us: "\<forall>u \<in> set (encode_utf16 (part_name p)). u < 2 ^ 16" "0 \<notin> set (encode_utf16 (part_name p))"
    "list_all is_scalar (part_name p)"
    using assms encode_utf16_units [of "part_name p"]
    by (auto simp: partition_typed_def representable_def)
  then have "map from_le (chunks_exact 2 (name_field (part_name p))) =
      encode_utf16 (part_name p) @ replicate (36 - length (encode_utf16 (part_name p))) 0"
    using assms(2) by (intro name_field_units) (auto simp: representable_def)
  then show ?thesis
    using us assms(1)
    by (simp add: decode_name_def partition_encode_fields
        takeWhile_nonzero_pad from_utf16_lossy_encode)
qed

lemma partition_decode_encode:
  assumes "partition_typed p" "representable p"
  shows "partition_decode (partition_encode p) = Some p"
  using assms
  by (simp add: partition_decode_def partition_encode_fields decode_name_encode entry_u64_def
      partition_typed_def representable_def)

lemma partition_decode_zeros: "partition_decode (zeros 128) = None"
  by (simp add: partition_decode_def)

end
