(* ===== verification/Gpt_Table.thy ===== *)
theory Gpt_Table
  imports Gpt_Header Gpt_Partition
begin

text \<open>
  The in-memory partition table (\<open>libs/parttable/src/gpt/table.rs\<close>): a record with the disk
  geometry and the 128 entry slots.  Partition numbers are one-based.
\<close>

definition ENTRIES_COUNT :: nat where "ENTRIES_COUNT = 128"
definition ENTRY_SIZE :: nat where "ENTRY_SIZE = 128"

record gpt_table =
  sector_size :: nat
  disk_guid :: bytes
  first_usable_lba :: nat
  last_usable_lba :: nat
  entries :: "partition option list"

definition table_create :: "nat \<Rightarrow> nat \<Rightarrow> bytes \<Rightarrow> gpt_table gpt_result" where
  "table_create sector_count ss guid =
     and_then (u64_div_ceil (saturating_mul u64_max ENTRY_SIZE ENTRIES_COUNT) ss) (\<lambda>entries_sectors.
       let first_usable = saturating_add u64_max 2 entries_sectors in
       and_then (ok_or (Option.bind (checked_sub sector_count entries_sectors) (\<lambda>count. checked_sub count 2))
                   (Gpt ''disk too small for GPT'')) (\<lambda>last_usable.
         Ok \<lparr>sector_size = ss, disk_guid = guid, first_usable_lba = first_usable,
             last_usable_lba = last_usable, entries = replicate ENTRIES_COUNT None\<rparr>))"

definition from_parts ::
    "nat \<Rightarrow> nat \<Rightarrow> bytes \<Rightarrow> nat \<Rightarrow> partition option list \<Rightarrow> gpt_table gpt_result" where
  "from_parts first_usable last_usable guid ss es =
     (if length es \<noteq> ENTRIES_COUNT then Err (Gpt ''invalid partition entries length'')
      else Ok \<lparr>sector_size = ss, disk_guid = guid, first_usable_lba = first_usable,
               last_usable_lba = last_usable, entries = es\<rparr>)"

definition to_header :: "gpt_table \<Rightarrow> gpt_header" where
  "to_header t =
     \<lparr>entries_lba = 2, hdr_first_usable_lba = first_usable_lba t,
      hdr_last_usable_lba = last_usable_lba t, hdr_disk_guid = disk_guid t,
      entries_count = ENTRIES_COUNT, entries_size = ENTRY_SIZE, entries_crc = 0\<rparr>"

definition table_primary_gpt_size :: "gpt_table \<Rightarrow> nat" where
  "table_primary_gpt_size t = saturating_mul u64_max (first_usable_lba t) (sector_size t)"

definition backup_data_offset :: "gpt_table \<Rightarrow> nat \<Rightarrow> nat gpt_result" where
  "backup_data_offset t sector_count =
     and_then (u64_div_ceil (saturating_mul u64_max ENTRY_SIZE ENTRIES_COUNT) (sector_size t))
       (\<lambda>entries_sectors.
          Ok (saturating_mul u64_max (sector_count - 1 - entries_sectors) (sector_size t)))"

definition slot_number :: "nat \<Rightarrow> nat" where
  "slot_number index = saturating_add u32_max (if index \<le> u32_max then index else 0) 1"

definition used_slot :: "nat \<times> partition option \<Rightarrow> (nat \<times> partition) option" where
  "used_slot = (\<lambda>(index, entry). map_option (\<lambda>p. (slot_number index, p)) entry)"

definition used_partitions :: "gpt_table \<Rightarrow> (nat \<times> partition) list" where
  "used_partitions t = List.map_filter used_slot (enumerate 0 (entries t))"

definition has_used_partitions :: "gpt_table \<Rightarrow> bool" where
  "has_used_partitions t \<longleftrightarrow> list_ex (\<lambda>e. e \<noteq> None) (entries t)"

definition table_partition :: "gpt_table \<Rightarrow> nat \<Rightarrow> partition option" where
  "table_partition t number =
     (if number - 1 < length (entries t) then entries t ! (number - 1) else None)"

definition is_partition_used :: "gpt_table \<Rightarrow> nat \<Rightarrow> bool" where
  "is_partition_used t number \<longleftrightarrow> table_partition t number \<noteq> None"

definition highest_used_partition_number :: "gpt_table \<Rightarrow> nat option" where
  "highest_used_partition_number t =
     find_map (\<lambda>(index, entry). map_option (\<lambda>_. slot_number index) entry)
       (rev (enumerate 0 (entries t)))"

definition last_used_ending_lba :: "gpt_table \<Rightarrow> nat option" where
  "last_used_ending_lba t = iter_max (map ending_lba (List.map_filter id (entries t)))"

definition next_free_slot :: "gpt_table \<Rightarrow> nat option" where
  "next_free_slot t = find (\<lambda>number. \<not> is_partition_used t number) [1..<ENTRIES_COUNT + 1]"

definition set_partition :: "nat \<Rightarrow> partition \<Rightarrow> gpt_table \<Rightarrow> gpt_table" where
  "set_partition number p t =
     (if number - 1 < length (entries t) then t\<lparr>entries := (entries t)[number - 1 := Some p]\<rparr> else t)"

definition remove_partition :: "nat \<Rightarrow> gpt_table \<Rightarrow> gpt_table gpt_result" where
  "remove_partition number t =
     and_then (ok_or (checked_sub number 1) (Gpt ''invalid partition number'')) (\<lambda>index.
       if length (entries t) \<le> index then Err (Gpt ''partition number out of range'')
       else if entries t ! index = None
       then Err (Gpt (''partition '' @ decimal number @ '' is already not set''))
       else Ok (t\<lparr>entries := (entries t)[index := None]\<rparr>))"

text \<open>
  What the field types say of a table, and the layout invariant: every partition lies in the usable
  range and no two partitions share a sector.
\<close>

definition table_typed :: "gpt_table \<Rightarrow> bool" where
  "table_typed t \<longleftrightarrow> length (entries t) = ENTRIES_COUNT \<and> length (disk_guid t) = 16
     \<and> sector_size t < 2 ^ 64 \<and> first_usable_lba t < 2 ^ 64 \<and> last_usable_lba t < 2 ^ 64
     \<and> (\<forall>p. Some p \<in> set (entries t) \<longrightarrow> partition_typed p)"

definition disjoint_lbas :: "partition \<Rightarrow> partition \<Rightarrow> bool" where
  "disjoint_lbas p q \<longleftrightarrow> ending_lba p < starting_lba q \<or> ending_lba q < starting_lba p"

definition in_usable_range :: "gpt_table \<Rightarrow> partition \<Rightarrow> bool" where
  "in_usable_range t p \<longleftrightarrow> first_usable_lba t \<le> starting_lba p \<and> starting_lba p \<le> ending_lba p
     \<and> ending_lba p \<le> last_usable_lba t"

definition layout_ok :: "gpt_table \<Rightarrow> bool" where
  "layout_ok t \<longleftrightarrow> length (entries t) = ENTRIES_COUNT
     \<and> (\<forall>i < ENTRIES_COUNT. \<forall>p. entries t ! i = Some p \<longrightarrow> in_usable_range t p)
     \<and> (\<forall>i < ENTRIES_COUNT. \<forall>j < ENTRIES_COUNT. \<forall>p q. i \<noteq> j \<longrightarrow>
          entries t ! i = Some p \<longrightarrow> entries t ! j = Some q \<longrightarrow> disjoint_lbas p q)"

section \<open>Lemmas\<close>

lemmas gpt_sizes = ENTRIES_COUNT_def ENTRY_SIZE_def

lemma slot_number_small [simp]: "index < 128 \<Longrightarrow> slot_number index = Suc index"
  by (simp add: slot_number_def u32_max_def saturating_add_def)

lemma used_partitions_iff:
  assumes "length (entries t) = ENTRIES_COUNT"
  shows "(n, p) \<in> set (used_partitions t) \<longleftrightarrow>
    (\<exists>i < ENTRIES_COUNT. n = Suc i \<and> entries t ! i = Some p)"
proof -
  have "(n, p) \<in> set (used_partitions t) \<longleftrightarrow>
      (\<exists>i e. (i, e) \<in> set (enumerate 0 (entries t)) \<and> used_slot (i, e) = Some (n, p))"
    by (simp add: used_partitions_def set_map_filter_iff Bex_def)
  also have "\<dots> \<longleftrightarrow> (\<exists>i < ENTRIES_COUNT. n = Suc i \<and> entries t ! i = Some p)"
    using assms by (auto simp: in_set_enumerate_eq used_slot_def gpt_sizes)
  finally show ?thesis .
qed

lemma entries_bytes_product: "ENTRY_SIZE * ENTRIES_COUNT = 16384"
  by (simp add: gpt_sizes)

lemma table_create_Ok:
  "table_create sc ss guid = Ok t \<longleftrightarrow>
     0 < ss \<and> div_ceil 16384 ss + 2 \<le> sc
     \<and> t = \<lparr>sector_size = ss, disk_guid = guid, first_usable_lba = 2 + div_ceil 16384 ss,
           last_usable_lba = sc - div_ceil 16384 ss - 2, entries = replicate ENTRIES_COUNT None\<rparr>"
proof -
  have b: "div_ceil 16384 ss \<le> 16384" if "0 < ss"
  proof (cases "ss = 1")
    case False
    then have "16384 div ss < 16384" using that by (intro div_less_dividend) auto
    then show ?thesis by (simp add: div_ceil_def)
  qed (simp add: div_ceil_def)
  then show ?thesis
    by (auto simp: table_create_def u64_div_ceil_def arith_defs entries_bytes_product Let_def
        and_then_eq_Ok ok_or_eq_Ok bind_eq_Some_conv u64_max_def split: if_splits)
qed

lemma layout_ok_create: "table_create sc ss guid = Ok t \<Longrightarrow> layout_ok t"
  by (auto simp: table_create_Ok layout_ok_def)

lemma entries_set_partition:
  "entries (set_partition n p t) =
     (if n - 1 < length (entries t) then (entries t)[n - 1 := Some p] else entries t)"
  by (simp add: set_partition_def)

lemma set_partition_geometry [simp]:
  "sector_size (set_partition n p t) = sector_size t"
  "disk_guid (set_partition n p t) = disk_guid t"
  "first_usable_lba (set_partition n p t) = first_usable_lba t"
  "last_usable_lba (set_partition n p t) = last_usable_lba t"
  by (simp_all add: set_partition_def)

lemma disjoint_lbas_sym: "disjoint_lbas p q \<longleftrightarrow> disjoint_lbas q p"
  by (auto simp: disjoint_lbas_def)

lemma layout_ok_set:
  assumes "layout_ok t" "in_usable_range t p"
    and "\<And>i q. i < ENTRIES_COUNT \<Longrightarrow> i \<noteq> n - 1 \<Longrightarrow> entries t ! i = Some q \<Longrightarrow> disjoint_lbas p q"
  shows "layout_ok (set_partition n p t)"
proof (cases "n - 1 < ENTRIES_COUNT")
  case True
  then show ?thesis
    using assms disjoint_lbas_sym [of p]
    by (auto simp: layout_ok_def entries_set_partition nth_list_update in_usable_range_def
        split: if_splits)
next
  case False
  then show ?thesis using assms by (simp add: layout_ok_def set_partition_def)
qed

lemma remove_partition_Ok:
  "remove_partition n t = Ok t' \<longleftrightarrow>
     1 \<le> n \<and> n \<le> length (entries t) \<and> entries t ! (n - 1) \<noteq> None
     \<and> t' = t\<lparr>entries := (entries t)[n - 1 := None]\<rparr>"
  by (auto simp: remove_partition_def checked_sub_def and_then_eq_Ok ok_or_eq_Ok split: if_splits)

lemma layout_ok_remove: "layout_ok t \<Longrightarrow> remove_partition n t = Ok t' \<Longrightarrow> layout_ok t'"
  unfolding remove_partition_Ok layout_ok_def
  by (auto simp: nth_list_update in_usable_range_def split: if_splits)

lemma find_upt_Some:
  "find P [a..<b] = Some n \<longleftrightarrow> a \<le> n \<and> n < b \<and> P n \<and> (\<forall>m. a \<le> m \<and> m < n \<longrightarrow> \<not> P m)"
proof (induction "b - a" arbitrary: a)
  case (Suc d)
  then have cons: "[a..<b] = a # [Suc a..<b]" and d: "d = b - Suc a" and "a < b"
    by (simp_all add: upt_conv_Cons)
  have first: "(\<forall>m. a \<le> m \<and> m < n \<longrightarrow> \<not> P m) \<longleftrightarrow>
      (a < n \<longrightarrow> \<not> P a) \<and> (\<forall>m. Suc a \<le> m \<and> m < n \<longrightarrow> \<not> P m)"
    by (metis Suc_le_eq le_less)
  show ?case
    unfolding cons first using Suc.hyps(1) [OF d] \<open>a < b\<close>
    by (cases "P a") (auto simp: Suc_le_eq le_less)
qed auto

lemma next_free_slot_Some:
  "next_free_slot t = Some n \<longleftrightarrow>
     1 \<le> n \<and> n \<le> ENTRIES_COUNT \<and> \<not> is_partition_used t n
     \<and> (\<forall>m. 1 \<le> m \<and> m < n \<longrightarrow> is_partition_used t m)"
  by (auto simp: next_free_slot_def find_upt_Some simp del: upt_Suc)

lemma next_free_slot_None:
  "next_free_slot t = None \<longleftrightarrow> (\<forall>n. 1 \<le> n \<and> n \<le> ENTRIES_COUNT \<longrightarrow> is_partition_used t n)"
  by (auto simp: next_free_slot_def find_None_iff simp del: upt_Suc)

lemma last_used_ending_lba_ge:
  assumes "last_used_ending_lba t = Some m" "i < length (entries t)" "entries t ! i = Some p"
  shows "ending_lba p \<le> m"
  using assms iter_max_ge [of "map ending_lba (List.map_filter id (entries t))" m "ending_lba p"] nth_mem
  by (fastforce simp: last_used_ending_lba_def set_map_filter_iff)

lemma last_used_ending_lba_None:
  "last_used_ending_lba t = None \<longleftrightarrow> \<not> has_used_partitions t"
proof -
  have "iter_max xs = None \<longleftrightarrow> xs = []" for xs by (cases xs) auto
  then show ?thesis
    by (auto simp: last_used_ending_lba_def has_used_partitions_def list_ex_iff map_filter_def
        filter_empty_conv)
qed

end
