(* ===== verification/Gpt_Layout.thy ===== *)
theory Gpt_Layout
  imports Gpt_Table
begin

text \<open>
  The placement policy (\<open>libs/parttable/src/gpt/layout.rs\<close>) and the planning on top of it
  (\<open>plan.rs\<close>).  \<open>place\<close> takes and returns the table it mutates; on an error the table is not
  changed.  \<open>next_multiple_of\<close> wraps around in the release profile that the workspace builds, and
  panics for the multiple zero in every profile.
\<close>

section \<open>Requests\<close>

abbreviation (input) ALIGN_1_MIB_SECTORS :: nat where "ALIGN_1_MIB_SECTORS \<equiv> 2048"

datatype slot = Auto | Exact nat

datatype start = FirstUsable | AfterLastUsed | AtOrAfter nat | AfterPartition nat

datatype size_spec = SizeBytes nat | SizeLbas nat | FillToLastUsable

record placement =
  pl_number :: nat
  pl_partition :: partition

record placement_request =
  req_slot :: slot
  req_start :: start
  req_size :: size_spec
  alignment_lba :: nat
  req_type_guid :: bytes
  req_unique_guid :: bytes
  req_attributes :: nat
  req_name :: unicode

definition request_new :: "bytes \<Rightarrow> bytes \<Rightarrow> unicode \<Rightarrow> size_spec \<Rightarrow> placement_request" where
  "request_new tg ug name sz =
     \<lparr>req_slot = Auto, req_start = FirstUsable, req_size = sz, alignment_lba = ALIGN_1_MIB_SECTORS,
      req_type_guid = tg, req_unique_guid = ug, req_attributes = 0, req_name = name\<rparr>"

definition request_with_slot :: "slot \<Rightarrow> placement_request \<Rightarrow> placement_request" where
  "request_with_slot s req = req\<lparr>req_slot := s\<rparr>"

definition request_with_start :: "start \<Rightarrow> placement_request \<Rightarrow> placement_request" where
  "request_with_start s req = req\<lparr>req_start := s\<rparr>"

section \<open>Placement\<close>

definition checked_next_lba :: "nat \<Rightarrow> string \<Rightarrow> nat gpt_result" where
  "checked_next_lba lba ctx =
     ok_or (checked_add u64_max lba 1)
       (InvalidPlacement (''partition start LBA overflowed '' @ ctx))"

definition checked_end_lba :: "nat \<Rightarrow> nat \<Rightarrow> nat gpt_result" where
  "checked_end_lba s lbas =
     ok_or (checked_add u64_max s (lbas - 1)) (InvalidPlacement ''partition end LBA overflowed'')"

definition nonzero_lbas :: "nat \<Rightarrow> nat gpt_result" where
  "nonzero_lbas lbas =
     (if lbas \<noteq> 0 then Ok lbas
      else Err (InvalidPlacement ''partition size must be greater than zero''))"

fun resolve_start_anchor :: "gpt_table \<Rightarrow> start \<Rightarrow> nat gpt_result" where
  "resolve_start_anchor t FirstUsable = Ok (first_usable_lba t)"
| "resolve_start_anchor t AfterLastUsed =
     (case last_used_ending_lba t of
        None \<Rightarrow> Ok (first_usable_lba t)
      | Some lba \<Rightarrow> checked_next_lba lba ''after last used partition'')"
| "resolve_start_anchor t (AtOrAfter lba) = Ok lba"
| "resolve_start_anchor t (AfterPartition number) =
     (case table_partition t number of
        None \<Rightarrow> Err (InvalidPlacement (''cannot place after missing partition '' @ decimal number))
      | Some p \<Rightarrow> checked_next_lba (ending_lba p) (''after partition '' @ decimal number))"

definition resolve_exact_slot :: "gpt_table \<Rightarrow> nat \<Rightarrow> nat gpt_result" where
  "resolve_exact_slot t number =
     (if \<not> is_partition_used t number then Ok number
      else Err (InvalidPlacement
             (''partition slot '' @ decimal number @ '' is already in use'')))"

fun resolve_end_lba :: "gpt_table \<Rightarrow> nat \<Rightarrow> size_spec \<Rightarrow> nat \<Rightarrow> nat gpt_result" where
  "resolve_end_lba t s (SizeBytes n) ss =
     and_then (u64_div_ceil n ss) (\<lambda>lbas. and_then (nonzero_lbas lbas) (checked_end_lba s))"
| "resolve_end_lba t s (SizeLbas lbas) ss = and_then (nonzero_lbas lbas) (checked_end_lba s)"
| "resolve_end_lba t s FillToLastUsable ss = Ok (last_usable_lba t)"

definition overlapping :: "nat \<Rightarrow> nat \<Rightarrow> nat \<Rightarrow> nat \<times> partition \<Rightarrow> nat option" where
  "overlapping number s e =
     (\<lambda>(n, entry). if n \<noteq> number \<and> s \<le> ending_lba entry \<and> starting_lba entry \<le> e
                   then Some n else None)"

definition validate_partition_range :: "gpt_table \<Rightarrow> nat \<Rightarrow> nat \<Rightarrow> nat \<Rightarrow> unit gpt_result" where
  "validate_partition_range t number s e =
     (if e < s
      then Err (InvalidPlacement (''partition '' @ decimal number @ '' start LBA '' @ decimal s
                                  @ '' is after end LBA '' @ decimal e))
      else if s < first_usable_lba t
      then Err (InvalidPlacement (''partition '' @ decimal number
                                  @ '' starts before first usable LBA '' @ decimal (first_usable_lba t)))
      else if last_usable_lba t < e
      then Err (InvalidPlacement (''partition '' @ decimal number
                                  @ '' ends after last usable LBA '' @ decimal (last_usable_lba t)))
      else case find_map (overlapping number s e) (used_partitions t) of
             Some n \<Rightarrow> Err (InvalidPlacement (''partition '' @ decimal number
                                              @ '' overlaps partition '' @ decimal n))
           | None \<Rightarrow> Ok ())"

definition next_multiple_of :: "nat \<Rightarrow> nat \<Rightarrow> nat gpt_result" where
  "next_multiple_of a m =
     (if m = 0 then Err Panicked
      else if a mod m = 0 then Ok a
      else Ok ((a + (m - a mod m)) mod 2 ^ 64))"

definition resolve_slot :: "gpt_table \<Rightarrow> slot \<Rightarrow> nat gpt_result" where
  "resolve_slot t s =
     (case s of
        Auto \<Rightarrow> ok_or (next_free_slot t) (InvalidPlacement ''no free GPT partition slots'')
      | Exact number \<Rightarrow> resolve_exact_slot t number)"

definition place :: "placement_request \<Rightarrow> gpt_table \<Rightarrow> nat \<Rightarrow> (gpt_table \<times> placement) gpt_result" where
  "place req t ss =
     and_then (resolve_slot t (req_slot req)) (\<lambda>number.
     and_then (resolve_start_anchor t (req_start req)) (\<lambda>anchor.
     and_then (next_multiple_of anchor (alignment_lba req)) (\<lambda>s.
     and_then (resolve_end_lba t s (req_size req) ss) (\<lambda>e.
     and_then (validate_partition_range t number s e) (\<lambda>_.
       let p = \<lparr>type_guid = req_type_guid req, unique_guid = req_unique_guid req, starting_lba = s,
                ending_lba = e, attributes = req_attributes req, part_name = req_name req\<rparr>
       in Ok (set_partition number p t, \<lparr>pl_number = number, pl_partition = p\<rparr>))))))"

section \<open>Planning\<close>

abbreviation (input) SECTOR_SIZE :: nat where "SECTOR_SIZE \<equiv> 512"

abbreviation (input) ALIGN_1_MIB_BYTES :: nat where
  "ALIGN_1_MIB_BYTES \<equiv> saturating_mul u64_max ALIGN_1_MIB_SECTORS SECTOR_SIZE"

definition entries_sector_count :: "nat \<Rightarrow> nat gpt_result" where
  "entries_sector_count ss = u64_div_ceil (saturating_mul u64_max ENTRY_SIZE ENTRIES_COUNT) ss"

definition plan_primary_gpt_size :: "nat \<Rightarrow> nat gpt_result" where
  "plan_primary_gpt_size ss =
     and_then (entries_sector_count ss)
       (\<lambda>n. Ok (saturating_mul u64_max (saturating_add u64_max 2 n) ss))"

definition growth_overflow_error :: parttable_error where
  "growth_overflow_error = InvalidPlacement ''disk sector count overflowed while growing''"

text \<open>What one round of the loop tries: a fresh table of the current size, and the request on it.\<close>

definition try_size :: "nat \<Rightarrow> nat \<Rightarrow> bytes \<Rightarrow> placement_request \<Rightarrow> (gpt_table \<times> placement) gpt_result gpt_result"
where
  "try_size sector_count ss guid req =
     and_then (table_create sector_count ss guid) (\<lambda>t. Ok (place req t ss))"

text \<open>The loop need not end, so its result is \<^const>\<open>None\<close> when it runs forever.\<close>

partial_function (option) smallest_disk ::
    "nat \<Rightarrow> nat \<Rightarrow> nat \<Rightarrow> bytes \<Rightarrow> placement_request \<Rightarrow> nat gpt_result option" where
  "smallest_disk sector_count ss step guid req =
     (case try_size sector_count ss guid req of
        Inl e \<Rightarrow> Some (Err e)
      | Inr (Inr _) \<Rightarrow> Some (Ok sector_count)
      | Inr (Inl (InvalidPlacement _)) \<Rightarrow>
          (case checked_add u64_max sector_count step of
             None \<Rightarrow> Some (Err growth_overflow_error)
           | Some n \<Rightarrow> smallest_disk n ss step guid req)
      | Inr (Inl e) \<Rightarrow> Some (Err e))"

section \<open>Placement lemmas\<close>

lemma next_multiple_of_dvd:
  assumes "next_multiple_of a m = Ok s" "m dvd 2 ^ 64"
  shows "m dvd s"
proof (cases "a mod m = 0")
  case False
  have m: "m \<noteq> 0" using assms by (auto simp: next_multiple_of_def split: if_splits)
  then have le: "a mod m \<le> m" by (simp add: less_imp_le)
  have "a + (m - a mod m) = a div m * m + m"
    using le div_mult_mod_eq [of a m] by linarith
  then have "m dvd a + (m - a mod m)" by (metis dvd_add dvd_refl dvd_triv_right)
  then show ?thesis
    using assms False m by (auto simp: next_multiple_of_def dvd_mod split: if_splits)
qed (use assms in \<open>auto simp: next_multiple_of_def split: if_splits\<close>)

lemma next_multiple_of_bounds:
  assumes "next_multiple_of a m = Ok s" "a + m \<le> 2 ^ 64"
  shows "m dvd s" "a \<le> s" "s < a + m"
proof -
  have m: "0 < m" using assms by (auto simp: next_multiple_of_def split: if_splits)
  have lt: "a mod m < m" using m by simp
  have eq: "a + (m - a mod m) = a div m * m + m"
    using lt div_mult_mod_eq [of a m] by linarith
  have s: "s = (if a mod m = 0 then a else a + (m - a mod m))"
  proof (cases "a mod m = 0")
    case False
    then have "a + (m - a mod m) < 2 ^ 64" using assms(2) lt by linarith
    then show ?thesis using assms(1) m False by (auto simp: next_multiple_of_def)
  qed (use assms(1) m in \<open>auto simp: next_multiple_of_def\<close>)
  show "m dvd s"
    using s eq by (auto simp: dvd_eq_mod_eq_0)
  show "a \<le> s" "s < a + m" using s m lt by auto
qed

lemma validate_partition_range_Ok:
  assumes "length (entries t) = ENTRIES_COUNT"
  shows "validate_partition_range t number s e = Ok () \<longleftrightarrow>
    first_usable_lba t \<le> s \<and> s \<le> e \<and> e \<le> last_usable_lba t
    \<and> (\<forall>i < ENTRIES_COUNT. \<forall>q. entries t ! i = Some q \<longrightarrow> Suc i \<noteq> number \<longrightarrow>
          ending_lba q < s \<or> e < starting_lba q)"
proof -
  have "find_map (overlapping number s e) (used_partitions t) = None \<longleftrightarrow>
      (\<forall>n q. (n, q) \<in> set (used_partitions t) \<longrightarrow> overlapping number s e (n, q) = None)"
    by (auto simp: find_map_None)
  also have "\<dots> \<longleftrightarrow> (\<forall>i < ENTRIES_COUNT. \<forall>q. entries t ! i = Some q \<longrightarrow> Suc i \<noteq> number \<longrightarrow>
          ending_lba q < s \<or> e < starting_lba q)"
    by (auto simp: used_partitions_iff [OF assms] overlapping_def split: if_splits)
      (metis not_le)
  finally show ?thesis
    by (auto simp: validate_partition_range_def not_less split: option.split)
qed

lemma resolve_slot_free: "resolve_slot t s = Ok n \<Longrightarrow> \<not> is_partition_used t n"
  by (auto simp: resolve_slot_def resolve_exact_slot_def ok_or_eq_Ok next_free_slot_Some
      split: slot.splits if_splits)

lemma resolve_slot_Auto: "resolve_slot t Auto = Ok n \<Longrightarrow> 1 \<le> n \<and> n \<le> ENTRIES_COUNT"
  by (auto simp: resolve_slot_def ok_or_eq_Ok next_free_slot_Some)

text \<open>Everything a successful placement went through.\<close>

lemma place_Ok:
  assumes "place req t ss = Ok (t', pl)"
  obtains anchor s e where
    "resolve_slot t (req_slot req) = Ok (pl_number pl)"
    "resolve_start_anchor t (req_start req) = Ok anchor"
    "next_multiple_of anchor (alignment_lba req) = Ok s"
    "resolve_end_lba t s (req_size req) ss = Ok e"
    "validate_partition_range t (pl_number pl) s e = Ok ()"
    "pl_partition pl = \<lparr>type_guid = req_type_guid req, unique_guid = req_unique_guid req,
       starting_lba = s, ending_lba = e, attributes = req_attributes req, part_name = req_name req\<rparr>"
    "t' = set_partition (pl_number pl) (pl_partition pl) t"
  using assms by (force simp: place_def and_then_eq_Ok Let_def)

lemma place_disjoint:
  assumes "place req t ss = Ok (t', pl)" "length (entries t) = ENTRIES_COUNT"
    and "i < ENTRIES_COUNT" "entries t ! i = Some q"
  shows "disjoint_lbas (pl_partition pl) q"
proof -
  obtain anchor s e where pl: "resolve_slot t (req_slot req) = Ok (pl_number pl)"
      "validate_partition_range t (pl_number pl) s e = Ok ()"
      "starting_lba (pl_partition pl) = s" "ending_lba (pl_partition pl) = e"
    using assms(1) by (rule place_Ok) simp
  have "Suc i \<noteq> pl_number pl"
  proof
    assume "Suc i = pl_number pl"
    then have "is_partition_used t (pl_number pl)"
      using assms(2,3,4) by (simp add: is_partition_used_def table_partition_def flip: \<open>Suc i = pl_number pl\<close>)
    then show False using resolve_slot_free [OF pl(1)] by simp
  qed
  then show ?thesis
    using pl(2-4) assms(3,4) by (auto simp: validate_partition_range_Ok [OF assms(2)] disjoint_lbas_def)
qed

lemma place_range:
  assumes "place req t ss = Ok (t', pl)" "length (entries t) = ENTRIES_COUNT"
  shows "in_usable_range t (pl_partition pl)"
  using assms by (elim place_Ok) (simp add: validate_partition_range_Ok in_usable_range_def)

lemma layout_ok_place:
  assumes "layout_ok t" "place req t ss = Ok (t', pl)"
  shows "layout_ok t'"
proof -
  have len: "length (entries t) = ENTRIES_COUNT" using assms(1) by (simp add: layout_ok_def)
  have "t' = set_partition (pl_number pl) (pl_partition pl) t"
    using assms(2) by (elim place_Ok)
  then show ?thesis
    using layout_ok_set [OF assms(1) place_range [OF assms(2) len]] place_disjoint [OF assms(2) len]
    by simp
qed

lemma resolve_end_lba_size:
  assumes "resolve_end_lba t s sz ss = Ok e"
  shows "case sz of
      SizeBytes n \<Rightarrow> s \<le> e \<and> n \<le> (e - s + 1) * ss \<and> (e - s) * ss < n
    | SizeLbas n \<Rightarrow> s \<le> e \<and> e - s + 1 = n
    | FillToLastUsable \<Rightarrow> e = last_usable_lba t"
proof (cases sz)
  case (SizeBytes n)
  then obtain lbas where l: "0 < ss" "lbas = div_ceil n ss" "lbas \<noteq> 0" "e = s + (lbas - 1)"
    using assms
    by (auto simp: u64_div_ceil_def nonzero_lbas_def checked_end_lba_def checked_add_def and_then_eq_Ok
        ok_or_eq_Ok split: if_splits)
  then have "e - s + 1 = lbas" by simp
  moreover have "(e - s) * ss + ss = lbas * ss"
    using l(3,4) by (metis add.commute calculation mult_Suc Suc_eq_plus1)
  ultimately show ?thesis
    using l div_ceil_bounds [OF l(1), of n] SizeBytes by simp
next
  case (SizeLbas n)
  then show ?thesis
    using assms by (auto simp: nonzero_lbas_def checked_end_lba_def checked_add_def and_then_eq_Ok
        ok_or_eq_Ok split: if_splits)
qed (use assms in simp)

section \<open>Planning lemmas\<close>

lemma smallest_disk_stuck:
  assumes "table_create n ss guid = Ok t" "place req t ss = Err (InvalidPlacement msg)" "n \<le> u64_max"
  shows "smallest_disk n ss 0 guid req = None"
proof (rule ccontr)
  assume "smallest_disk n ss 0 guid req \<noteq> None"
  then obtain r where "smallest_disk n ss 0 guid req = Some r" by auto
  then have "\<not> (n \<le> u64_max \<and> (0 :: nat) = 0 \<and> try_size n ss guid req = Ok (Err (InvalidPlacement msg)))"
  proof (rule smallest_disk.raw_induct [where P = "\<lambda>n ss step guid req _.
      \<not> (n \<le> u64_max \<and> step = 0 \<and> try_size n ss guid req = Ok (Err (InvalidPlacement msg)))", rotated])
    fix f n ss step guid req r
    assume ih: "\<And>n ss step guid req r. f n ss step guid req = Some r \<Longrightarrow>
        \<not> (n \<le> u64_max \<and> step = (0 :: nat) \<and> try_size n ss guid req = Ok (Err (InvalidPlacement msg)))"
      and body: "(case try_size n ss guid req of
          Inl e \<Rightarrow> Some (Err e)
        | Inr (Inr _) \<Rightarrow> Some (Ok n)
        | Inr (Inl (InvalidPlacement _)) \<Rightarrow>
            (case checked_add u64_max n step of
               None \<Rightarrow> Some (Err growth_overflow_error)
             | Some n \<Rightarrow> f n ss step guid req)
        | Inr (Inl e) \<Rightarrow> Some (Err e)) = Some r"
    show "\<not> (n \<le> u64_max \<and> step = 0 \<and> try_size n ss guid req = Ok (Err (InvalidPlacement msg)))"
      using body ih [of n ss 0 guid req r] by (auto simp: checked_add_def)
  qed
  then show False using assms by (simp add: try_size_def)
qed

text \<open>With a positive step every round either returns or moves towards the bound.\<close>

lemma smallest_disk_returns:
  assumes "0 < step"
  shows "\<exists>r. smallest_disk n ss step guid req = Some r"
proof (induction "Suc u64_max - n" arbitrary: n rule: less_induct)
  case less
  show ?case
  proof (cases "checked_add u64_max n step")
    case None
    then show ?thesis
      by (subst smallest_disk.simps) (auto split: sum.split parttable_error.split)
  next
    case (Some n')
    then have "Suc u64_max - n' < Suc u64_max - n"
      using assms by (auto simp: checked_add_def split: if_splits)
    from less [OF this] show ?thesis
      by (subst smallest_disk.simps) (auto simp: Some split: sum.split parttable_error.split)
  qed
qed

definition does_not_fit :: "nat \<Rightarrow> nat \<Rightarrow> bytes \<Rightarrow> placement_request \<Rightarrow> bool" where
  "does_not_fit n ss guid req \<longleftrightarrow>
     (\<exists>t msg. table_create n ss guid = Ok t \<and> place req t ss = Err (InvalidPlacement msg))"

definition fits :: "nat \<Rightarrow> nat \<Rightarrow> bytes \<Rightarrow> placement_request \<Rightarrow> bool" where
  "fits n ss guid req \<longleftrightarrow> (\<exists>t r. table_create n ss guid = Ok t \<and> place req t ss = Ok r)"

lemma try_size_cases:
  "try_size n ss guid req = Ok (Ok r) \<Longrightarrow> fits n ss guid req"
  "try_size n ss guid req = Ok (Err (InvalidPlacement msg)) \<Longrightarrow> does_not_fit n ss guid req"
  by (auto simp: try_size_def fits_def does_not_fit_def and_then_eq_Ok)

lemma smallest_disk_Ok:
  assumes "smallest_disk n ss step guid req = Some (Ok m)"
  shows "\<exists>k. m = n + k * step \<and> fits m ss guid req
    \<and> (\<forall>j < k. does_not_fit (n + j * step) ss guid req)"
proof -
  have "\<forall>m. r = Ok m \<longrightarrow> (\<exists>k. m = n + k * step \<and> fits m ss guid req
      \<and> (\<forall>j < k. does_not_fit (n + j * step) ss guid req))"
    if "smallest_disk n ss step guid req = Some r" for r
    using that
  proof (rule smallest_disk.raw_induct [where P = "\<lambda>n ss step guid req r. \<forall>m. r = Ok m \<longrightarrow>
      (\<exists>k. m = n + k * step \<and> fits m ss guid req
       \<and> (\<forall>j < k. does_not_fit (n + j * step) ss guid req))", rotated])
    fix f n ss step guid req r
    assume ih: "\<And>n ss step guid req r. f n ss step guid req = Some r \<Longrightarrow> \<forall>m. r = Ok m \<longrightarrow>
        (\<exists>k. m = n + k * step \<and> fits m ss guid req
         \<and> (\<forall>j < k. does_not_fit (n + j * step) ss guid req))"
      and body: "(case try_size n ss guid req of
          Inl e \<Rightarrow> Some (Err e)
        | Inr (Inr _) \<Rightarrow> Some (Ok n)
        | Inr (Inl (InvalidPlacement _)) \<Rightarrow>
            (case checked_add u64_max n step of
               None \<Rightarrow> Some (Err growth_overflow_error)
             | Some n \<Rightarrow> f n ss step guid req)
        | Inr (Inl e) \<Rightarrow> Some (Err e)) = Some r"
    consider (ret) m where "r = Ok m" "m = n" "fits n ss guid req"
      | (err) e where "r = Err e"
      | (grow) "does_not_fit n ss guid req" "f (n + step) ss step guid req = Some r"
      using body try_size_cases
      by (force simp: checked_add_def split: sum.splits parttable_error.splits option.splits if_splits)
    then show "\<forall>m. r = Ok m \<longrightarrow> (\<exists>k. m = n + k * step \<and> fits m ss guid req
         \<and> (\<forall>j < k. does_not_fit (n + j * step) ss guid req))"
    proof cases
      case ret
      then show ?thesis by (auto intro: exI [of _ 0])
    next
      case grow
      show ?thesis
      proof (intro allI impI)
        fix m assume "r = Ok m"
        then obtain k where k: "m = n + step + k * step" "fits m ss guid req"
            "\<forall>j < k. does_not_fit (n + step + j * step) ss guid req"
          using ih [OF grow(2)] by auto
        have "does_not_fit (n + j * step) ss guid req" if "j < Suc k" for j
          using that k(3) grow(1) by (cases j) (auto simp: add.assoc)
        then show "\<exists>k. m = n + k * step \<and> fits m ss guid req
            \<and> (\<forall>j < k. does_not_fit (n + j * step) ss guid req)"
          using k by (intro exI [of _ "Suc k"]) (auto simp: algebra_simps)
      qed
    qed simp
  qed
  then show ?thesis using assms by blast
qed

end
