(* ===== verification/Mbr.thy ===== *)
theory Mbr
  imports Gpt_Header
begin

text \<open>
  Master boot records (\<open>libs/parttable/src/mbr.rs\<close>): the 16-byte partition entry, the protective
  record of a GPT disk, and the reader and writer of a whole sector.
\<close>

definition MBR_PARTITION_ENTRY_OFFSET :: nat where "MBR_PARTITION_ENTRY_OFFSET = 446"
definition MBR_BOOT_SIGNATURE :: bytes where "MBR_BOOT_SIGNATURE = [0x55, 0xAA]"
definition MBR_PROTECTIVE_GPT_TYPE :: byte where "MBR_PROTECTIVE_GPT_TYPE = 0xEE"
definition MBR_BYTES :: nat where "MBR_BYTES = 512"
definition MBR_ENTRY_SIZE :: nat where "MBR_ENTRY_SIZE = 16"
definition MBR_ENTRIES :: nat where "MBR_ENTRIES = 4"

lemmas mbr_sizes = MBR_PARTITION_ENTRY_OFFSET_def MBR_BYTES_def MBR_ENTRY_SIZE_def MBR_ENTRIES_def

record mbr_entry =
  bootable :: bool
  partition_type :: byte
  mbr_starting_lba :: nat
  size_lba :: nat

definition mbr_entry_to_bytes :: "mbr_entry \<Rightarrow> bytes" where
  "mbr_entry_to_bytes e =
     (let entry = zeros MBR_ENTRY_SIZE;
          entry = put_range entry 0 1 [if bootable e then 1 else 0];
          entry = put_range entry 1 4 [0x00, 0x02, 0x00];
          entry = put_range entry 4 5 [partition_type e];
          entry = put_range entry 5 8 [0xFF, 0xFF, 0xFF];
          entry = put_range entry 8 12 (to_le 4 (mbr_starting_lba e))
      in put_range entry 12 16 (to_le 4 (size_lba e)))"

definition mbr_u32 :: "bytes \<Rightarrow> nat \<Rightarrow> nat \<Rightarrow> nat option" where
  "mbr_u32 bs i j =
     Option.bind (get_range bs i j) (\<lambda>v. if length v = 4 then Some (from_le v) else None)"

definition byte_at :: "bytes \<Rightarrow> nat \<Rightarrow> byte option" where
  "byte_at bs i = (if i < length bs then Some (bs ! i) else None)"

definition mbr_entry_decode :: "bytes \<Rightarrow> mbr_entry option" where
  "mbr_entry_decode bs =
     Option.bind (byte_at bs 4) (\<lambda>ty.
       if ty = 0 then None
       else Option.bind (byte_at bs 0) (\<lambda>flag.
            Option.bind (mbr_u32 bs 8 12) (\<lambda>s.
            Option.bind (mbr_u32 bs 12 16) (\<lambda>n.
              Some \<lparr>bootable = (flag \<noteq> 0), partition_type = ty, mbr_starting_lba = s, size_lba = n\<rparr>))))"

definition mbr_bytes :: "mbr_entry \<Rightarrow> bytes" where
  "mbr_bytes entry =
     (let mbr = zeros MBR_BYTES;
          mbr = put_range mbr MBR_PARTITION_ENTRY_OFFSET (MBR_PARTITION_ENTRY_OFFSET + MBR_ENTRY_SIZE)
                  (mbr_entry_to_bytes entry)
      in put_range mbr (MBR_BYTES - 2) MBR_BYTES MBR_BOOT_SIGNATURE)"

definition protective_size_lba :: "nat \<Rightarrow> nat \<Rightarrow> nat" where
  "protective_size_lba disk_size ss =
     (if ss = 0 then 0 else min (disk_size div ss - 1) u32_max)"

definition protective_bytes :: "nat \<Rightarrow> nat \<Rightarrow> bytes" where
  "protective_bytes disk_size ss =
     mbr_bytes \<lparr>bootable = False, partition_type = MBR_PROTECTIVE_GPT_TYPE, mbr_starting_lba = 1,
                size_lba = protective_size_lba disk_size ss\<rparr>"

text \<open>The loop of \<open>write\<close> over the enumerated entries.\<close>

definition put_entry :: "nat \<times> mbr_entry option \<Rightarrow> bytes \<Rightarrow> bytes" where
  "put_entry = (\<lambda>(index, entry) sector.
     case entry of
       None \<Rightarrow> sector
     | Some e \<Rightarrow>
         let offset = MBR_PARTITION_ENTRY_OFFSET + index * MBR_ENTRY_SIZE
         in put_range sector offset (offset + MBR_ENTRY_SIZE) (mbr_entry_to_bytes e))"

definition mbr_write :: "writer \<Rightarrow> mbr_entry option list \<Rightarrow> writer gpt_result" where
  "mbr_write w es =
     (let sector = fold put_entry (enumerate 0 es) (zeros MBR_BYTES);
          sector = put_range sector (MBR_BYTES - 2) MBR_BYTES MBR_BOOT_SIGNATURE
      in ok_or (write_all sector w) (Io WriteZero))"

definition mbr_read :: "bytes \<Rightarrow> (mbr_entry option list \<times> bytes) gpt_result" where
  "mbr_read input =
     and_then (ok_or (read_exact MBR_BYTES input) (Io UnexpectedEof)) (\<lambda>(sector, rest).
       if get_range sector (MBR_BYTES - 2) MBR_BYTES \<noteq> Some MBR_BOOT_SIGNATURE
       then Err (Gpt ''invalid MBR boot signature'')
       else let tail = drop MBR_PARTITION_ENTRY_OFFSET sector;
                region = take (MBR_ENTRIES * MBR_ENTRY_SIZE) tail
            in Ok (map mbr_entry_decode (take MBR_ENTRIES (chunks_exact MBR_ENTRY_SIZE region)), rest))"

text \<open>What the field types say, and the entries that a slot can represent (type 0 marks it unused).\<close>

definition mbr_entry_typed :: "mbr_entry \<Rightarrow> bool" where
  "mbr_entry_typed e \<longleftrightarrow> mbr_starting_lba e < 2 ^ 32 \<and> size_lba e < 2 ^ 32"

definition mbr_entry_used :: "mbr_entry \<Rightarrow> bool" where
  "mbr_entry_used e \<longleftrightarrow> partition_type e \<noteq> 0"

section \<open>Entries\<close>

lemma length_mbr_entry_to_bytes [simp]: "length (mbr_entry_to_bytes e) = 16"
  by (simp add: mbr_entry_to_bytes_def Let_def MBR_ENTRY_SIZE_def)

lemma byte_at_get_range: "get_range bs i (Suc i) = Some [x] \<Longrightarrow> byte_at bs i = Some x"
  by (auto simp: get_range_def byte_at_def take_Suc_conv_app_nth hd_drop_conv_nth split: if_splits)

lemma mbr_entry_fields:
  "get_range (mbr_entry_to_bytes e) 0 (Suc 0) = Some [if bootable e then 1 else 0]"
  "get_range (mbr_entry_to_bytes e) 4 (Suc 4) = Some [partition_type e]"
  "get_range (mbr_entry_to_bytes e) 8 12 = Some (to_le 4 (mbr_starting_lba e))"
  "get_range (mbr_entry_to_bytes e) 12 16 = Some (to_le 4 (size_lba e))"
  by (simp_all add: mbr_entry_to_bytes_def Let_def MBR_ENTRY_SIZE_def)

lemma mbr_entry_decode_to_bytes:
  assumes "mbr_entry_typed e" "mbr_entry_used e"
  shows "mbr_entry_decode (mbr_entry_to_bytes e) = Some e"
  using assms mbr_entry_fields [of e] byte_at_get_range [of "mbr_entry_to_bytes e" 0]
    byte_at_get_range [of "mbr_entry_to_bytes e" 4]
  by (simp add: mbr_entry_decode_def mbr_u32_def mbr_entry_typed_def mbr_entry_used_def)

lemma mbr_entry_decode_zeros: "mbr_entry_decode (zeros 16) = None"
  by (simp add: mbr_entry_decode_def byte_at_def zeros_def)

section \<open>Sectors\<close>

definition slot_bytes :: "mbr_entry option \<Rightarrow> bytes" where
  "slot_bytes entry = (case entry of None \<Rightarrow> zeros 16 | Some e \<Rightarrow> mbr_entry_to_bytes e)"

lemma length_slot_bytes [simp]: "length (slot_bytes e) = 16"
  by (simp add: slot_bytes_def split: option.split)

lemma put_entry_middle:
  assumes "length pre = 446 + 16 * k"
  shows "put_entry (k, e) (pre @ zeros 16 @ post) = pre @ slot_bytes e @ post"
proof (cases e)
  case (Some x)
  then show ?thesis
    using assms put_range_middle [of "446 + 16 * k" pre _ "mbr_entry_to_bytes x" "zeros 16" post]
    by (simp add: put_entry_def slot_bytes_def mbr_sizes mult.commute)
qed (simp add: put_entry_def slot_bytes_def)

lemma fold_put_entry:
  "length pre = 446 + 16 * k \<Longrightarrow>
   fold put_entry (enumerate k es) (pre @ concat (replicate (length es) (zeros 16)) @ post) =
     pre @ concat (map slot_bytes es) @ post"
proof (induction es arbitrary: k pre)
  case (Cons e es)
  have "fold put_entry (enumerate k (e # es)) (pre @ concat (replicate (length (e # es)) (zeros 16)) @ post)
      = fold put_entry (enumerate (Suc k) es)
          ((pre @ slot_bytes e) @ concat (replicate (length es) (zeros 16)) @ post)"
    using put_entry_middle [OF Cons.prems] by simp
  also have "\<dots> = (pre @ slot_bytes e) @ concat (map slot_bytes es) @ post"
    using Cons.prems by (intro Cons.IH) simp
  finally show ?case by simp
qed simp

definition sector_of :: "mbr_entry option list \<Rightarrow> bytes" where
  "sector_of es = zeros 446 @ concat (map slot_bytes es) @ MBR_BOOT_SIGNATURE"

lemma zeros_append: "zeros (a + b) = zeros a @ zeros b"
  by (simp add: zeros_def replicate_add)

lemma concat_zeros: "concat (replicate n (zeros m)) = zeros (n * m)"
  by (induction n) (simp_all add: zeros_append, simp add: zeros_def)

lemma mbr_sector:
  assumes "length es = MBR_ENTRIES"
  shows "put_range (fold put_entry (enumerate 0 es) (zeros MBR_BYTES)) (MBR_BYTES - 2) MBR_BYTES
    MBR_BOOT_SIGNATURE = sector_of es"
proof -
  have len: "length (concat (map slot_bytes es)) = 64"
    using assms by (subst length_concat_const [where n = 16]) (auto simp: mbr_sizes)
  have "zeros MBR_BYTES = zeros 446 @ concat (replicate (length es) (zeros 16)) @ zeros 2"
    using assms by (simp add: mbr_sizes concat_zeros flip: zeros_append)
  then have f: "fold put_entry (enumerate 0 es) (zeros MBR_BYTES) =
      zeros 446 @ concat (map slot_bytes es) @ zeros 2"
    by (simp add: fold_put_entry [of "zeros 446" 0])
  show ?thesis
    using len put_range_middle [of 510 "zeros 446 @ concat (map slot_bytes es)" 512 MBR_BOOT_SIGNATURE
        "zeros 2" "[]"]
    unfolding f by (simp add: sector_of_def mbr_sizes MBR_BOOT_SIGNATURE_def)
qed

lemma mbr_write_vec:
  assumes "length es = MBR_ENTRIES" "room w = None"
  shows "mbr_write w es = Ok (w\<lparr>written := written w @ sector_of es\<rparr>)"
  using assms mbr_sector [OF assms(1)] by (simp add: mbr_write_def Let_def)

lemma mbr_read_sector:
  assumes "length es = MBR_ENTRIES"
    and "\<And>e. Some e \<in> set es \<Longrightarrow> mbr_entry_typed e \<and> mbr_entry_used e"
  shows "mbr_read (sector_of es @ rest) = Ok (es, rest)"
proof -
  have len: "length (concat (map slot_bytes es)) = 64"
    using assms(1) by (subst length_concat_const [where n = 16]) (auto simp: mbr_sizes)
  have slen: "length (sector_of es) = 512"
    using len by (simp add: sector_of_def MBR_BOOT_SIGNATURE_def)
  have sig: "get_range (sector_of es) 510 512 = Some MBR_BOOT_SIGNATURE"
    using len by (simp add: get_range_def sector_of_def MBR_BOOT_SIGNATURE_def)
  have region: "take 64 (drop 446 (sector_of es)) = concat (map slot_bytes es)"
    using len by (simp add: sector_of_def)
  have chunks: "chunks_exact 16 (concat (map slot_bytes es)) = map slot_bytes es"
    by (rule chunks_exact_concat) auto
  have "mbr_entry_decode (slot_bytes e) = e" if "e \<in> set es" for e
  proof (cases e)
    case (Some x)
    then show ?thesis using that assms(2) by (simp add: slot_bytes_def mbr_entry_decode_to_bytes)
  qed (simp add: slot_bytes_def mbr_entry_decode_zeros)
  then have "map mbr_entry_decode (map slot_bytes es) = es" by (auto intro: map_idI)
  then show ?thesis
    using assms(1) slen by (simp add: mbr_read_def mbr_sizes sig region chunks Let_def)
qed

lemma mbr_bytes_sector: "mbr_bytes e = sector_of [Some e, None, None, None]"
proof -
  have "mbr_bytes e = put_range (fold put_entry (enumerate 0 [Some e, None, None, None])
      (zeros MBR_BYTES)) (MBR_BYTES - 2) MBR_BYTES MBR_BOOT_SIGNATURE"
    by (simp add: mbr_bytes_def put_entry_def Let_def)
  then show ?thesis using mbr_sector [of "[Some e, None, None, None]"] by (simp add: mbr_sizes)
qed

lemma length_protective_bytes [simp]: "length (protective_bytes d ss) = 512"
  by (simp add: protective_bytes_def mbr_bytes_def Let_def mbr_sizes MBR_BOOT_SIGNATURE_def)

lemma mbr_read_protective:
  "mbr_read (protective_bytes d ss @ rest) =
     Ok ([Some \<lparr>bootable = False, partition_type = MBR_PROTECTIVE_GPT_TYPE, mbr_starting_lba = 1,
                size_lba = protective_size_lba d ss\<rparr>, None, None, None], rest)"
proof -
  have "mbr_entry_typed \<lparr>bootable = False, partition_type = MBR_PROTECTIVE_GPT_TYPE,
      mbr_starting_lba = 1, size_lba = protective_size_lba d ss\<rparr>"
    by (auto simp: mbr_entry_typed_def protective_size_lba_def u32_max_def)
  then show ?thesis
    unfolding protective_bytes_def mbr_bytes_sector
    by (intro mbr_read_sector)
       (auto simp: mbr_sizes mbr_entry_used_def MBR_PROTECTIVE_GPT_TYPE_def)
qed

end
