(* ===== verification/Gpt_Io.thy ===== *)
theory Gpt_Io
  imports Gpt_Table Mbr
begin

text \<open>
  Reading and writing a table (\<open>libs/parttable/src/gpt/io.rs\<close>).  A reader is the list of the bytes
  that are still to come; a writer is the record of \<open>Bytes\<close>.
\<close>

abbreviation (input) ENTRIES_BYTES :: nat where "ENTRIES_BYTES \<equiv> 0x4000"

definition read_bytes :: "nat \<Rightarrow> bytes \<Rightarrow> (bytes \<times> bytes) gpt_result" where
  "read_bytes n input = ok_or (read_exact n input) (Io UnexpectedEof)"

definition skip :: "nat \<Rightarrow> bytes \<Rightarrow> bytes gpt_result" where
  "skip remaining input =
     (if min remaining (length input) < remaining
      then Err (Gpt ''stream ended before GPT entries'')
      else Ok (drop remaining input))"

definition validate_geometry :: "gpt_header \<Rightarrow> unit gpt_result" where
  "validate_geometry h =
     (if entries_count h \<noteq> ENTRIES_COUNT then Err (Gpt ''unsupported partition entries count'')
      else if entries_size h \<noteq> ENTRY_SIZE then Err (Gpt ''unsupported partition entry size'')
      else Ok ())"

definition decode_table :: "gpt_header \<Rightarrow> nat \<Rightarrow> bytes \<Rightarrow> gpt_table gpt_result" where
  "decode_table h ss es =
     from_parts (hdr_first_usable_lba h) (hdr_last_usable_lba h) (hdr_disk_guid h) ss
       (map partition_decode (chunks_exact ENTRY_SIZE es))"

text \<open>The probe for the header: at byte 512, else at byte 4096.  The result carries the header sector,
  the sector size, the position in the stream and the rest of it.\<close>

definition probe_header :: "bytes \<Rightarrow> (bytes \<times> nat \<times> nat \<times> bytes) gpt_result" where
  "probe_header input =
     and_then (read_bytes 512 input) (\<lambda>(_, input).
     and_then (read_bytes 512 input) (\<lambda>(buffer, input).
       if take 8 buffer = EFI_PART then Ok (buffer, 512, 1024, input)
       else and_then (skip (4096 - 1024) input) (\<lambda>input.
            and_then (read_bytes 512 input) (\<lambda>(buffer, input).
              Ok (buffer, 4096, 4608, input)))))"

definition gpt_read :: "crc32 \<Rightarrow> bytes \<Rightarrow> (gpt_table \<times> bytes) gpt_result" where
  "gpt_read crc input =
     and_then (probe_header input) (\<lambda>(buffer, ss, position, input).
     and_then (gpt_header_parse crc buffer) (\<lambda>h.
     and_then (validate_geometry h) (\<lambda>_.
     and_then (ok_or (checked_mul u64_max (entries_lba h) ss)
                 (Gpt ''partition entries LBA overflowed'')) (\<lambda>entries_offset.
     and_then (if position < entries_offset then skip (entries_offset - position) input else Ok input)
       (\<lambda>input.
     and_then (read_bytes ENTRIES_BYTES input) (\<lambda>(es, input).
       if entries_crc h \<noteq> unat (crc es) then Err (Gpt ''partition entries CRC mismatch'')
       else and_then (decode_table h ss es) (\<lambda>t. Ok (t, input))))))))"

definition put_partition :: "nat \<times> partition \<Rightarrow> bytes \<Rightarrow> bytes" where
  "put_partition = (\<lambda>(number, p) buffer.
     let offset = (number - 1) * ENTRY_SIZE
     in put_range buffer offset (offset + ENTRY_SIZE) (partition_encode p))"

definition partition_entries_bytes :: "gpt_table \<Rightarrow> bytes" where
  "partition_entries_bytes t = fold put_partition (used_partitions t) (zeros ENTRIES_BYTES)"

definition put_all :: "bytes \<Rightarrow> writer \<Rightarrow> writer gpt_result" where
  "put_all data w = ok_or (write_all data w) (Io WriteZero)"

definition write_region :: "crc32 \<Rightarrow> gpt_table \<Rightarrow> nat \<Rightarrow> bool \<Rightarrow> writer \<Rightarrow> writer gpt_result" where
  "write_region crc t sector_count backup w =
     (let es = partition_entries_bytes t; ecrc = unat (crc es) in
      and_then (gpt_header_encode crc (to_header t) backup sector_count (sector_size t) ecrc) (\<lambda>header.
      and_then (if backup then put_all es w else Ok w) (\<lambda>w.
      and_then (put_all header w) (\<lambda>w.
        if \<not> backup then put_all es w else Ok w))))"

definition write_primary :: "crc32 \<Rightarrow> gpt_table \<Rightarrow> nat \<Rightarrow> writer \<Rightarrow> writer gpt_result" where
  "write_primary crc t sector_count w =
     and_then (ok_or (checked_mul u64_max sector_count (sector_size t)) (Gpt ''disk size overflowed''))
       (\<lambda>disk_size.
     and_then (put_all (protective_bytes disk_size (sector_size t)) w) (\<lambda>w.
       write_region crc t sector_count False w))"

definition write_backup :: "crc32 \<Rightarrow> gpt_table \<Rightarrow> nat \<Rightarrow> writer \<Rightarrow> writer gpt_result" where
  "write_backup crc t sector_count w = write_region crc t sector_count True w"

section \<open>The entries array\<close>

definition entry_bytes :: "partition option \<Rightarrow> bytes" where
  "entry_bytes e = (case e of None \<Rightarrow> zeros 128 | Some p \<Rightarrow> partition_encode p)"

lemma entry_bytes_simps [simp]:
  "entry_bytes None = zeros 128" "entry_bytes (Some p) = partition_encode p"
  by (simp_all add: entry_bytes_def)

lemma used_slot_simps [simp]:
  "used_slot (i, None) = None" "used_slot (i, Some p) = Some (slot_number i, p)"
  by (simp_all add: used_slot_def)

lemma length_entry_bytes:
  "(\<And>p. e = Some p \<Longrightarrow> partition_typed p) \<Longrightarrow> length (entry_bytes e) = 128"
  by (simp add: entry_bytes_def split: option.split)

lemma put_partition_middle:
  assumes "length pre = 128 * k" "partition_typed p"
  shows "put_partition (Suc k, p) (pre @ zeros 128 @ post) = pre @ partition_encode p @ post"
  using assms put_range_middle [of "128 * k" pre _ "partition_encode p" "zeros 128" post]
  by (simp add: put_partition_def gpt_sizes mult.commute)

lemma fold_put_partition:
  assumes "length pre = 128 * k" "k + length es \<le> 128" "\<And>p. Some p \<in> set es \<Longrightarrow> partition_typed p"
  shows "fold put_partition (List.map_filter used_slot (enumerate k es))
      (pre @ concat (replicate (length es) (zeros 128))) = pre @ concat (map entry_bytes es)"
  using assms
proof (induction es arbitrary: k pre)
  case (Cons e es)
  have tl: "fold put_partition (List.map_filter used_slot (enumerate (Suc k) es))
      ((pre @ entry_bytes e) @ concat (replicate (length es) (zeros 128))) =
      (pre @ entry_bytes e) @ concat (map entry_bytes es)"
    using Cons.prems by (intro Cons.IH) (auto simp: length_entry_bytes)
  show ?case
  proof (cases e)
    case None
    then show ?thesis
      using tl by (simp add: map_filter_simps)
  next
    case (Some p)
    then show ?thesis
      using tl Cons.prems put_partition_middle [of pre k p]
      by (simp add: map_filter_simps)
  qed
qed (simp add: map_filter_simps)

lemma partition_entries_bytes_eq:
  assumes "table_typed t"
  shows "partition_entries_bytes t = concat (map entry_bytes (entries t))"
proof -
  have t: "length (entries t) = 128" "\<And>p. Some p \<in> set (entries t) \<Longrightarrow> partition_typed p"
    using assms by (auto simp: table_typed_def gpt_sizes)
  have "zeros ENTRIES_BYTES = [] @ concat (replicate (length (entries t)) (zeros 128))"
    using t(1) by (simp only: concat_zeros ) simp
  then show ?thesis
    using fold_put_partition [of "[]" 0 "entries t"] t
    by (simp only: partition_entries_bytes_def used_partitions_def) simp
qed

lemma entry_bytes_lengths:
  assumes "table_typed t" "c \<in> set (map entry_bytes (entries t))"
  shows "length c = 128"
proof -
  obtain e where "c = entry_bytes e" "e \<in> set (entries t)" using assms(2) by auto
  then show ?thesis using assms(1) by (auto intro!: length_entry_bytes simp: table_typed_def)
qed

lemma length_partition_entries_bytes:
  assumes "table_typed t"
  shows "length (partition_entries_bytes t) = ENTRIES_BYTES"
  using assms entry_bytes_lengths [OF assms]
  unfolding partition_entries_bytes_eq [OF assms]
  by (subst length_concat_const [where n = 128])
     (auto simp: table_typed_def gpt_sizes )

lemma decode_entry_bytes:
  assumes "\<And>p. e = Some p \<Longrightarrow> partition_typed p \<and> representable p"
  shows "partition_decode (entry_bytes e) = e"
  using assms
  by (cases e) (simp_all add: entry_bytes_def partition_decode_zeros partition_decode_encode)

lemma decode_partition_entries_bytes:
  assumes "table_typed t" "\<And>p. Some p \<in> set (entries t) \<Longrightarrow> representable p"
  shows "map partition_decode (chunks_exact ENTRY_SIZE (partition_entries_bytes t)) = entries t"
proof -
  have "chunks_exact ENTRY_SIZE (partition_entries_bytes t) = map entry_bytes (entries t)"
    unfolding partition_entries_bytes_eq [OF assms(1)]
    using entry_bytes_lengths [OF assms(1)]
    by (intro chunks_exact_concat) (auto simp: gpt_sizes)
  moreover have "partition_decode (entry_bytes e) = e" if "e \<in> set (entries t)" for e
    using that assms by (intro decode_entry_bytes) (auto simp: table_typed_def)
  ultimately show ?thesis by (auto intro: map_idI)
qed

section \<open>The written regions\<close>

lemma to_header_typed: "table_typed t \<Longrightarrow> header_typed (to_header t)"
  by (simp add: table_typed_def header_typed_def to_header_def gpt_sizes)

lemma to_header_guid: "table_typed t \<Longrightarrow> length (hdr_disk_guid (to_header t)) = 16"
  by (simp add: table_typed_def to_header_def)

lemma put_all_vec: "room w = None \<Longrightarrow> put_all d w = Ok (w\<lparr>written := written w @ d\<rparr>)"
  by (simp add: put_all_def)

text \<open>The primary region: protective record, header sector, entries.\<close>

lemma write_primary_vec:
  assumes "table_typed t" "sector_count * sector_size t \<le> u64_max"
  obtains sector where
    "write_primary crc t sector_count vec_writer =
       Ok (vec_writer\<lparr>written := protective_bytes (sector_count * sector_size t) (sector_size t)
             @ sector @ partition_entries_bytes t\<rparr>)"
    "length sector = 512"
    "gpt_header_parse crc sector =
       Ok ((to_header t)\<lparr>entries_crc := unat (crc (partition_entries_bytes t))\<rparr>)"
    "take 8 sector = EFI_PART"
proof -
  let ?h = "to_header t" and ?ecrc = "unat (crc (partition_entries_bytes t))"
  note g = to_header_guid [OF assms(1)]
  have lba: "encoded_entries_lba ?h False sector_count (sector_size t) = Ok 2"
    by (simp add: encoded_entries_lba_def to_header_def)
  obtain sector where enc: "gpt_header_encode crc ?h False sector_count (sector_size t) ?ecrc = Ok sector"
    and sector: "sector = put_range (encoded_body ?h False sector_count 2 ?ecrc) 16 20
        (to_le 4 (unat (crc (encoded_body ?h False sector_count 2 ?ecrc)))) @ zeros 420"
    by (simp add: gpt_header_encode_eq [OF g lba])
  have parse: "gpt_header_parse crc sector = Ok (?h\<lparr>entries_crc := ?ecrc\<rparr>)"
    using gpt_header_parse_encode [OF to_header_typed [OF assms(1)] _ lba _ enc] unat_crc_less
    by (simp add: to_header_def)
  have "get_range sector 0 8 = Some EFI_PART"
    by (simp add: sector encoded_body_fields [OF g] length_encoded_body [OF g])
  then have "take 8 sector = EFI_PART" by (auto simp: get_range_def split: if_splits)
  moreover have "write_primary crc t sector_count vec_writer =
      Ok (vec_writer\<lparr>written := protective_bytes (sector_count * sector_size t) (sector_size t)
             @ sector @ partition_entries_bytes t\<rparr>)"
    using assms(2)
    by (simp add: write_primary_def write_region_def checked_mul_def put_all_vec vec_writer_def Let_def enc)
  ultimately show ?thesis
    using that length_gpt_header_encode [OF g enc] parse by blast
qed

lemma gpt_read_primary:
  assumes "table_typed t" "\<And>p. Some p \<in> set (entries t) \<Longrightarrow> representable p"
    and "length mbr = 512" "length sector = 512" "take 8 sector = EFI_PART"
    and "gpt_header_parse crc sector =
       Ok ((to_header t)\<lparr>entries_crc := unat (crc (partition_entries_bytes t))\<rparr>)"
  shows "gpt_read crc (mbr @ sector @ partition_entries_bytes t @ rest) =
    Ok (t\<lparr>sector_size := 512\<rparr>, rest)"
proof -
  have probe: "probe_header (mbr @ sector @ partition_entries_bytes t @ rest) =
      Ok (sector, 512, 1024, partition_entries_bytes t @ rest)"
    using assms(3-5) by (simp add: probe_header_def read_bytes_def)
  have es: "read_bytes ENTRIES_BYTES (partition_entries_bytes t @ rest) =
      Ok (partition_entries_bytes t, rest)"
    using length_partition_entries_bytes [OF assms(1)] by (simp add: read_bytes_def)
  show ?thesis
    using assms(1) decode_partition_entries_bytes [OF assms(1,2)]
    by (simp add: gpt_read_def probe assms(6) es validate_geometry_def to_header_def checked_mul_def
        u64_max_def decode_table_def from_parts_def table_typed_def)
qed

text \<open>A table that was read has 128 slots, and its entries match the stored CRC.\<close>

lemma gpt_read_typed:
  assumes "gpt_read crc input = Ok (t, rest)"
  shows "length (entries t) = ENTRIES_COUNT" "sector_size t = 512 \<or> sector_size t = 4096"
    "first_usable_lba t < 2 ^ 64" "last_usable_lba t < 2 ^ 64" "length (disk_guid t) = 16"
proof -
  obtain buffer ss pos inp h es inp' where r: "probe_header input = Ok (buffer, ss, pos, inp)"
      "gpt_header_parse crc buffer = Ok h" "decode_table h ss es = Ok t"
    using assms by (auto simp: gpt_read_def and_then_eq_Ok split: if_splits)
  have "ss = 512 \<or> ss = 4096"
    using r(1) by (auto simp: probe_header_def and_then_eq_Ok split: if_splits)
  moreover have "header_typed h" using gpt_header_parse_typed [OF r(2)] .
  ultimately show "length (entries t) = ENTRIES_COUNT" "sector_size t = 512 \<or> sector_size t = 4096"
    "first_usable_lba t < 2 ^ 64" "last_usable_lba t < 2 ^ 64" "length (disk_guid t) = 16"
    using r(3) by (auto simp: decode_table_def from_parts_def header_typed_def split: if_splits)
qed

text \<open>The backup region: entries, then the header sector.\<close>

lemma write_backup_vec:
  assumes "table_typed t" "0 < sector_size t" "sector_count < 2 ^ 64"
  obtains sector where
    "write_backup crc t sector_count vec_writer =
       Ok (vec_writer\<lparr>written := partition_entries_bytes t @ sector\<rparr>)"
    "length sector = 512"
    "gpt_header_parse crc sector =
       Ok ((to_header t)\<lparr>entries_lba := sector_count - 1 - div_ceil 16384 (sector_size t),
                         entries_crc := unat (crc (partition_entries_bytes t))\<rparr>)"
proof -
  let ?h = "to_header t" and ?ecrc = "unat (crc (partition_entries_bytes t))"
  let ?lba = "sector_count - 1 - div_ceil 16384 (sector_size t)"
  note g = to_header_guid [OF assms(1)]
  have lba: "encoded_entries_lba ?h True sector_count (sector_size t) = Ok ?lba"
    using assms(2) by (simp add: encoded_entries_lba_def to_header_def u64_div_ceil_def
        saturating_mul_def gpt_sizes u64_max_def)
  obtain sector where enc: "gpt_header_encode crc ?h True sector_count (sector_size t) ?ecrc = Ok sector"
    by (simp add: gpt_header_encode_eq [OF g lba])
  have "gpt_header_parse crc sector = Ok (?h\<lparr>entries_lba := ?lba, entries_crc := ?ecrc\<rparr>)"
    using gpt_header_parse_encode [OF to_header_typed [OF assms(1)] _ lba _ enc] unat_crc_less assms(3)
    by simp
  moreover have "write_backup crc t sector_count vec_writer =
      Ok (vec_writer\<lparr>written := partition_entries_bytes t @ sector\<rparr>)"
    by (simp add: write_backup_def write_region_def put_all_vec vec_writer_def Let_def enc)
  ultimately show ?thesis
    using that length_gpt_header_encode [OF g enc] by blast
qed

end
