(* ===== verification/Parttable_Properties.thy ===== *)
theory Parttable_Properties
  imports Gpt_Layout Gpt_Io
begin

text \<open>
  The properties of the partition table library: the layout invariant over every sequence of table
  operations, what a placement guarantees, the planning loop in closed form and where it does not
  end, and the round trips of the on-disk formats.
\<close>

section \<open>Tables that the interface can build\<close>

inductive table_reach :: "gpt_table \<Rightarrow> bool" where
  create: "table_create sc ss guid = Ok t \<Longrightarrow> table_reach t"
| place: "table_reach t \<Longrightarrow> place req t ss = Ok (t', pl) \<Longrightarrow> table_reach t'"
| remove: "table_reach t \<Longrightarrow> remove_partition n t = Ok t' \<Longrightarrow> table_reach t'"

definition demo_guid :: bytes where
  "demo_guid = replicate 16 7"

definition demo_request :: placement_request where
  "demo_request = request_new LINUX_FS_GUID demo_guid [109, 117, 97, 107] (SizeLbas 100)"

definition demo_empty :: gpt_table where
  "demo_empty = \<lparr>sector_size = 512, disk_guid = demo_guid, first_usable_lba = 34,
     last_usable_lba = 9966, entries = replicate ENTRIES_COUNT None\<rparr>"

definition demo_part :: partition where
  "demo_part = \<lparr>type_guid = LINUX_FS_GUID, unique_guid = demo_guid, starting_lba = 2048,
     ending_lba = 2147, attributes = 0, part_name = [109, 117, 97, 107]\<rparr>"

definition demo_table :: gpt_table where
  "demo_table = demo_empty\<lparr>entries := Some demo_part # replicate 127 None\<rparr>"

section \<open>Evaluating the demonstration table\<close>

lemma demo_empty_create: "table_create 10000 512 demo_guid = Ok demo_empty"
  by (simp add: table_create_Ok demo_empty_def div_ceil_def)

lemma demo_empty_free: "next_free_slot demo_empty = Some 1"
  by (simp add: next_free_slot_Some is_partition_used_def table_partition_def demo_empty_def
      ENTRIES_COUNT_def)

lemma demo_empty_unused: "used_partitions demo_empty = []"
proof -
  have "\<forall>x \<in> set (enumerate 0 (replicate n None)). used_slot x = None" for n
    by (auto simp: in_set_enumerate_eq)
  then show ?thesis
    by (simp add: used_partitions_def demo_empty_def List.map_filter_def filter_empty_conv)
qed

lemma replicate_128: "replicate ENTRIES_COUNT x = x # replicate 127 x"
proof -
  have "ENTRIES_COUNT = Suc 127" by (simp add: ENTRIES_COUNT_def)
  then show ?thesis using replicate_Suc [of 127 x] by (simp only:)
qed

lemma demo_place:
  "place demo_request demo_empty 512 = Ok (demo_table, \<lparr>pl_number = 1, pl_partition = demo_part\<rparr>)"
proof -
  have fu: "first_usable_lba demo_empty = 34" "last_usable_lba demo_empty = 9966"
    by (simp_all add: demo_empty_def)
  have "next_multiple_of 34 2048 = Ok 2048" by (simp add: next_multiple_of_def)
  moreover have "resolve_end_lba demo_empty 2048 (SizeLbas 100) 512 = Ok 2147"
    by (simp add: nonzero_lbas_def checked_end_lba_def checked_add_def u64_max_def)
  moreover have "validate_partition_range demo_empty 1 2048 2147 = Ok ()"
    by (simp add: validate_partition_range_def fu demo_empty_unused)
  moreover have "set_partition 1 demo_part demo_empty = demo_table"
    by (simp add: set_partition_def demo_table_def demo_empty_def replicate_128)
  ultimately show ?thesis
    by (simp add: place_def demo_request_def request_new_def resolve_slot_def demo_empty_free fu
        Let_def demo_part_def)
qed

lemma linux_guid_used: "LINUX_FS_GUID \<noteq> zeros 16"
proof
  assume "LINUX_FS_GUID = zeros 16"
  then have "hd LINUX_FS_GUID = hd (zeros 16)" by (rule arg_cong)
  then show False by (simp add: LINUX_FS_GUID_def zeros_def)
qed

lemma demo_part_typed: "partition_typed demo_part" "representable demo_part"
proof -
  show "partition_typed demo_part"
    by (simp add: partition_typed_def demo_part_def LINUX_FS_GUID_def demo_guid_def is_scalar_def)
  show "representable demo_part"
    using linux_guid_used
    by (simp add: representable_def demo_part_def encode_utf16_def utf16_units_def)
qed

lemma demo_table_typed: "table_typed demo_table"
  using demo_part_typed
  by (auto simp: table_typed_def demo_table_def demo_empty_def demo_guid_def ENTRIES_COUNT_def)

lemma demo_table_representable: "Some p \<in> set (entries demo_table) \<Longrightarrow> representable p"
  using demo_part_typed by (auto simp: demo_table_def)

section \<open>Layout\<close>

text \<open>
  C6: Partitions never collide.  Whatever sequence of creations, placements (with any slot, start,
  size and alignment) and removals built a table, it has 128 slots, every partition lies within the
  usable range of the disk with its end not before its start, and no two partitions share a sector.
\<close>

theorem table_layout_invariant:
  assumes "table_reach t"
  shows "layout_ok t"
  using assms by induction (auto intro: layout_ok_create layout_ok_place layout_ok_remove)

theorem table_layout_invariant_witness: "layout_ok demo_table"
  using table_layout_invariant [OF table_reach.place [OF table_reach.create [OF demo_empty_create] demo_place]] .

text \<open>
  C7: What a successful placement guarantees.  The slot was free and, for an automatic slot, is the
  lowest free one; the start is a multiple of the alignment (for an alignment that divides the word
  size, as the project's 2048 does) and the size is the requested one: exactly the requested number of
  sectors, the least number of sectors that holds the requested bytes, or up to the last usable
  sector.  The partition shares no sector with any other, and only its slot of the table changed.
\<close>

theorem place_guarantees:
  assumes "length (entries t) = ENTRIES_COUNT" "place req t ss = Ok (t', pl)"
    and "alignment_lba req dvd 2 ^ 64"
  shows "\<not> is_partition_used t (pl_number pl)
    \<and> (req_slot req = Auto \<longrightarrow> next_free_slot t = Some (pl_number pl))
    \<and> alignment_lba req dvd starting_lba (pl_partition pl)
    \<and> (case req_size req of
           SizeBytes n \<Rightarrow> n \<le> (ending_lba (pl_partition pl) - starting_lba (pl_partition pl) + 1) * ss
             \<and> (ending_lba (pl_partition pl) - starting_lba (pl_partition pl)) * ss < n
         | SizeLbas n \<Rightarrow> ending_lba (pl_partition pl) - starting_lba (pl_partition pl) + 1 = n
         | FillToLastUsable \<Rightarrow> ending_lba (pl_partition pl) = last_usable_lba t)
    \<and> in_usable_range t (pl_partition pl)
    \<and> (\<forall>i q. i < ENTRIES_COUNT \<and> entries t ! i = Some q \<longrightarrow> disjoint_lbas (pl_partition pl) q)
    \<and> t' = set_partition (pl_number pl) (pl_partition pl) t"
proof -
  obtain anchor s e where pl: "resolve_slot t (req_slot req) = Ok (pl_number pl)"
    "next_multiple_of anchor (alignment_lba req) = Ok s"
    "resolve_end_lba t s (req_size req) ss = Ok e"
    "starting_lba (pl_partition pl) = s" "ending_lba (pl_partition pl) = e"
    "t' = set_partition (pl_number pl) (pl_partition pl) t"
    using assms(2) by (rule place_Ok) simp
  have "case req_size req of
           SizeBytes n \<Rightarrow> n \<le> (e - s + 1) * ss \<and> (e - s) * ss < n
         | SizeLbas n \<Rightarrow> e - s + 1 = n
         | FillToLastUsable \<Rightarrow> e = last_usable_lba t"
    using resolve_end_lba_size [OF pl(3)] by (cases "req_size req") auto
  moreover have "req_slot req = Auto \<longrightarrow> next_free_slot t = Some (pl_number pl)"
    using pl(1) by (auto simp: resolve_slot_def ok_or_eq_Ok)
  ultimately show ?thesis
    using resolve_slot_free [OF pl(1)] next_multiple_of_dvd [OF pl(2) assms(3)]
      place_range [OF assms(2,1)] place_disjoint [OF assms(2,1)] pl(4-6)
    by blast
qed

theorem place_guarantees_witness:
  "2048 dvd starting_lba demo_part \<and> in_usable_range demo_empty demo_part
   \<and> next_free_slot demo_empty = Some 1"
  using place_guarantees [OF _ demo_place]
  by (simp add: demo_empty_def demo_request_def request_new_def )

text \<open>
  Removing a freshly placed partition restores the table as it was.
\<close>

lemma remove_undoes_place:
  assumes "length (entries t) = ENTRIES_COUNT" "place req t ss = Ok (t', pl)"
    and "1 \<le> pl_number pl" "pl_number pl \<le> ENTRIES_COUNT"
  shows "remove_partition (pl_number pl) t' = Ok t"
proof -
  have t': "t' = set_partition (pl_number pl) (pl_partition pl) t"
    and "resolve_slot t (req_slot req) = Ok (pl_number pl)"
    using assms(2) by (auto elim: place_Ok)
  then have "\<not> is_partition_used t (pl_number pl)" using resolve_slot_free by blast
  moreover have "pl_number pl - 1 < length (entries t)" using assms(1,3,4) by simp
  ultimately have "entries t ! (pl_number pl - 1) = None"
    by (simp add: is_partition_used_def table_partition_def)
  then show ?thesis
    using \<open>pl_number pl - 1 < length (entries t)\<close> assms(1,3,4)
      list_update_id [of "entries t" "pl_number pl - 1"]
    by (simp add: remove_partition_Ok t' set_partition_def)
qed

text \<open>
  An explicit slot number beyond the table is accepted but loses the partition: whenever
  \<open>place\<close> succeeds with such a number it reports a placement, and the table it leaves is the one it
  was given.
\<close>

lemma exact_slot_out_of_range_lost:
  assumes "length (entries t) = ENTRIES_COUNT" "ENTRIES_COUNT < n"
    and "place (request_with_slot (Exact n) req) t ss = Ok (t', pl)"
  shows "pl_number pl = n \<and> t' = t"
proof -
  have "t' = set_partition (pl_number pl) (pl_partition pl) t"
    and "resolve_slot t (Exact n) = Ok (pl_number pl)"
    using assms(3) by (auto elim: place_Ok simp: request_with_slot_def)
  then show ?thesis
    using assms(1,2)
    by (auto simp: resolve_slot_def resolve_exact_slot_def set_partition_def split: if_splits)
qed

lemma demo_place_exact:
  "place (request_with_slot (Exact 129) demo_request) demo_empty 512 =
     Ok (demo_empty, \<lparr>pl_number = 129, pl_partition = demo_part\<rparr>)"
proof -
  have fu: "first_usable_lba demo_empty = 34" "last_usable_lba demo_empty = 9966"
    by (simp_all add: demo_empty_def)
  have "next_multiple_of 34 2048 = Ok 2048" by (simp add: next_multiple_of_def)
  moreover have "resolve_end_lba demo_empty 2048 (SizeLbas 100) 512 = Ok 2147"
    by (simp add: nonzero_lbas_def checked_end_lba_def checked_add_def u64_max_def)
  moreover have "validate_partition_range demo_empty 129 2048 2147 = Ok ()"
    by (simp add: validate_partition_range_def fu demo_empty_unused)
  moreover have "\<not> is_partition_used demo_empty 129" "set_partition 129 p demo_empty = demo_empty" for p
    by (simp_all add: set_partition_def is_partition_used_def table_partition_def demo_empty_def
        ENTRIES_COUNT_def)
  ultimately show ?thesis
    by (simp add: place_def demo_request_def request_new_def request_with_slot_def resolve_slot_def
        resolve_exact_slot_def fu Let_def demo_part_def)
qed

section \<open>Planning\<close>

lemma div_ceil_step:
  assumes "0 < d" "0 < s"
  shows "div_ceil d s = Suc (div_ceil (d - s) s)"
proof (cases "s \<le> d")
  case True
  then have "d div s = Suc ((d - s) div s)" "d mod s = (d - s) mod s"
    using assms le_div_geq le_mod_geq by auto
  then show ?thesis by (simp add: div_ceil_def)
next
  case False
  then show ?thesis using assms by (simp add: div_ceil_def)
qed

lemma create_512:
  assumes "34 \<le> sc"
  shows "table_create sc 512 guid = Ok \<lparr>sector_size = 512, disk_guid = guid, first_usable_lba = 34,
    last_usable_lba = sc - 34, entries = replicate ENTRIES_COUNT None\<rparr>"
  using assms by (simp add: table_create_Ok div_ceil_def)

lemma used_partitions_empty: "entries t = replicate n None \<Longrightarrow> used_partitions t = []"
  by (auto simp: used_partitions_def List.map_filter_def filter_empty_conv in_set_enumerate_eq)

lemma next_free_slot_empty: "entries t = replicate ENTRIES_COUNT None \<Longrightarrow> next_free_slot t = Some 1"
  by (simp add: next_free_slot_Some is_partition_used_def table_partition_def ENTRIES_COUNT_def)

lemma try_default_request:
  assumes "34 \<le> sc" "0 < n" "2047 + n \<le> u64_max"
  shows "case try_size sc 512 guid (request_new tg ug name (SizeLbas n)) of
      Inr (Inr _) \<Rightarrow> 2081 + n \<le> sc
    | Inr (Inl (InvalidPlacement _)) \<Rightarrow> sc < 2081 + n
    | _ \<Rightarrow> False"
proof -
  define t where "t = \<lparr>sector_size = 512, disk_guid = guid, first_usable_lba = 34,
    last_usable_lba = sc - 34, entries = replicate ENTRIES_COUNT None\<rparr>"
  have t: "table_create sc 512 guid = Ok t" "first_usable_lba t = 34" "last_usable_lba t = sc - 34"
    "used_partitions t = []" "next_free_slot t = Some 1"
    using create_512 [OF assms(1)] used_partitions_empty next_free_slot_empty by (auto simp: t_def)
  have "next_multiple_of 34 2048 = Ok 2048" by (simp add: next_multiple_of_def)
  moreover have "resolve_end_lba t 2048 (SizeLbas n) 512 = Ok (2047 + n)"
    using assms(2,3) by (simp add: nonzero_lbas_def checked_end_lba_def checked_add_def)
  ultimately show ?thesis
    using assms(1,2) t
    by (auto simp: try_size_def place_def request_new_def resolve_slot_def validate_partition_range_def
        Let_def)
qed

text \<open>
  The planning loop finds the smallest disk.  For a default request of \<open>n\<close> sectors on 512-byte
  sectors, a base of at least 34 sectors and a positive step that stays within 64 bits, the loop
  returns, and its result is the least size \<open>base + k * step\<close> that leaves room for the 2048 sectors
  before the partition, the partition and the 33 sectors of the backup table.
\<close>

lemma smallest_disk_closed_form:
  assumes "34 \<le> base" "0 < n" "0 < step" "2081 + n + step \<le> u64_max" "base \<le> u64_max"
  shows "smallest_disk base 512 step guid (request_new tg ug name (SizeLbas n)) =
    Some (Ok (base + div_ceil (2081 + n - base) step * step))"
  using assms(1,5)
proof (induction "2081 + n - base" arbitrary: base rule: less_induct)
  case less
  let ?round = "try_size base 512 guid (request_new tg ug name (SizeLbas n))"
  have fit: "case ?round of Inr (Inr _) \<Rightarrow> 2081 + n \<le> base
      | Inr (Inl (InvalidPlacement _)) \<Rightarrow> base < 2081 + n | _ \<Rightarrow> False"
    using assms(2,4) less.prems(1) by (intro try_default_request) auto
  show ?case
  proof (cases "2081 + n \<le> base")
    case True
    then show ?thesis
      using fit by (subst smallest_disk.simps)
        (auto simp: div_ceil_def split: sum.splits parttable_error.splits)
  next
    case False
    have "smallest_disk (base + step) 512 step guid (request_new tg ug name (SizeLbas n)) =
        Some (Ok (base + step + div_ceil (2081 + n - (base + step)) step * step))"
      using False assms(3,4) less.prems by (intro less.hyps) auto
    moreover have "div_ceil (2081 + n - base) step = Suc (div_ceil (2081 + n - (base + step)) step)"
      using div_ceil_step [of "2081 + n - base" step] False assms(3) by simp
    moreover have "checked_add u64_max base step = Some (base + step)"
      using False assms(4) by (simp add: checked_add_def)
    ultimately show ?thesis
      using fit False by (subst smallest_disk.simps)
        (auto split: sum.splits parttable_error.splits)
  qed
qed

text \<open>
  C9: For every request and geometry the planning loop returns when the step is positive, and a size it
  returns is the first of the sizes \<open>base, base + step, \<dots>\<close> on which the request can be placed: each
  smaller one was refused as an invalid placement.
\<close>

theorem smallest_disk_minimal:
  assumes "0 < step"
  shows "\<exists>r. smallest_disk base ss step guid req = Some r \<and>
    (\<forall>m. r = Ok m \<longrightarrow> (\<exists>k. m = base + k * step \<and> fits m ss guid req
       \<and> (\<forall>j < k. does_not_fit (base + j * step) ss guid req)))"
  using smallest_disk_returns [OF assms, of base ss guid req] smallest_disk_Ok
  by (metis (no_types, lifting))

theorem smallest_disk_minimal_witness:
  "\<exists>r. smallest_disk 34 512 64 demo_guid demo_request = Some r"
  using smallest_disk_minimal [of 64 34 512 demo_guid demo_request] by auto

text \<open>
  With a step of zero the planning loop does not end on a disk that is too small.
\<close>

lemma smallest_disk_zero_step:
  assumes "does_not_fit n ss guid req" "n \<le> u64_max"
  shows "smallest_disk n ss 0 guid req = None"
  using assms smallest_disk_stuck by (auto simp: does_not_fit_def)

section \<open>On-disk formats\<close>

text \<open>
  C8: Writing the primary copy and reading it back.  For a table whose partitions an entry can
  represent and a disk whose size fits in 64 bits, the write succeeds and \<open>read\<close> returns the same
  table, with the rest of the stream unread, except that the sector size it reports is 512 whatever
  the table's own sector size was.
\<close>

theorem gpt_primary_round_trip:
  assumes "table_typed t" "\<forall>p. Some p \<in> set (entries t) \<longrightarrow> representable p"
    and "sector_count * sector_size t \<le> u64_max"
  shows "\<exists>w. write_primary crc t sector_count vec_writer = Ok w
    \<and> gpt_read crc (written w @ rest) = Ok (t\<lparr>sector_size := 512\<rparr>, rest)"
proof -
  obtain sector where w: "write_primary crc t sector_count vec_writer =
       Ok (vec_writer\<lparr>written := protective_bytes (sector_count * sector_size t) (sector_size t)
             @ sector @ partition_entries_bytes t\<rparr>)"
    "length sector = 512"
    "gpt_header_parse crc sector =
       Ok ((to_header t)\<lparr>entries_crc := unat (crc (partition_entries_bytes t))\<rparr>)"
    "take 8 sector = EFI_PART"
    using write_primary_vec [OF assms(1,3)] by blast
  then show ?thesis
    using gpt_read_primary [OF assms(1) _ length_protective_bytes w(2,4,3)] assms(2) by simp
qed

theorem gpt_primary_round_trip_witness:
  "\<exists>w. write_primary (\<lambda>bs. word_of_nat (from_le bs)) demo_table 10000 vec_writer = Ok w
    \<and> gpt_read (\<lambda>bs. word_of_nat (from_le bs)) (written w) = Ok (demo_table, [])"
proof -
  have ss: "demo_table\<lparr>sector_size := 512\<rparr> = demo_table" "sector_size demo_table = 512"
    by (simp_all add: demo_table_def demo_empty_def)
  show ?thesis
    using gpt_primary_round_trip [OF demo_table_typed, of 10000 "\<lambda>bs. word_of_nat (from_le bs)" "[]"]
      demo_table_representable unfolding ss by (auto simp: u64_max_def)
qed

text \<open>
  The backup copy.  On 512-byte sectors the backup region is the entries array followed by a
  header sector, it fills the disk exactly from \<open>backup_data_offset\<close> to its end, and its header
  parses to the table's header with the entries located at that offset.
\<close>

lemma gpt_backup_at_disk_end:
  assumes "table_typed t" "sector_size t = 512" "33 \<le> sector_count" "sector_count * 512 \<le> u64_max"
  shows "\<exists>w offset h. write_backup crc t sector_count vec_writer = Ok w
    \<and> backup_data_offset t sector_count = Ok offset
    \<and> offset + length (written w) = sector_count * 512
    \<and> gpt_header_parse crc (drop ENTRIES_BYTES (written w)) = Ok h
    \<and> entries_lba h * 512 = offset
    \<and> entries_crc h = unat (crc (take ENTRIES_BYTES (written w)))"
proof -
  obtain sector where w: "write_backup crc t sector_count vec_writer =
       Ok (vec_writer\<lparr>written := partition_entries_bytes t @ sector\<rparr>)"
    "length sector = 512"
    "gpt_header_parse crc sector =
       Ok ((to_header t)\<lparr>entries_lba := sector_count - 1 - div_ceil 16384 (sector_size t),
                         entries_crc := unat (crc (partition_entries_bytes t))\<rparr>)"
    using write_backup_vec [OF assms(1), of sector_count crc] assms(2,4) by (auto simp: u64_max_def)
  have dc: "div_ceil 16384 512 = 32" by (simp add: div_ceil_def)
  have "backup_data_offset t sector_count = Ok ((sector_count - 33) * 512)"
    using assms(2,3,4) dc
    by (simp add: backup_data_offset_def u64_div_ceil_def saturating_mul_def gpt_sizes u64_max_def)
  moreover have "(sector_count - 33) * 512 + (ENTRIES_BYTES + 512) = sector_count * 512"
    using assms(3) by (simp add: diff_mult_distrib)
  ultimately show ?thesis
    using w length_partition_entries_bytes [OF assms(1)] assms(2) dc by simp
qed

text \<open>
  Master boot records round trip: the four entries written are the four entries read, for entries
  with a non-zero type and unused slots alike.
\<close>

lemma mbr_round_trip:
  assumes "length es = MBR_ENTRIES"
    and "\<forall>e. Some e \<in> set es \<longrightarrow> mbr_entry_typed e \<and> mbr_entry_used e"
  shows "\<exists>w. mbr_write vec_writer es = Ok w \<and> mbr_read (written w @ rest) = Ok (es, rest)"
  using mbr_write_vec [OF assms(1), of vec_writer] mbr_read_sector [OF assms(1)] assms(2)
  by (simp add: vec_writer_def)

end
