(* ===== verification/Workload_State.thy ===== *)
theory Workload_State
  imports Rust_Paths Bytes
begin

unbundle bit_operations_syntax

text \<open>
  Data of the workload daemon: the protobuf types it serves (\<open>api/vm.proto\<close>), the entries of its
  actor (\<open>services/workloadd/src/actor/state.rs\<close>), the persisted form and the state files
  (\<open>persistence/state.rs\<close>), and the deterministic MAC addresses of \<open>libs/netlib/src/mac.rs\<close>.

  Two external libraries are parameters: \<open>serde_json\<close> as a pair of functions in \<open>codec\<close>, and
  SHA-256.  What the operating system answers during one command (file system, clock, network,
  hypervisor processes) is a record \<open>vm_env\<close>, and what the command did to it is appended to the list
  of effects in the store.
\<close>

section \<open>Protobuf types\<close>

datatype vm_state =
  VmUnspecified | VmCreated | VmStarting | VmRunning | VmStopping | VmStopped | VmFailed

fun vm_state_code :: "vm_state \<Rightarrow> int" where
  "vm_state_code VmUnspecified = 0"
| "vm_state_code VmCreated = 1"
| "vm_state_code VmStarting = 2"
| "vm_state_code VmRunning = 3"
| "vm_state_code VmStopping = 4"
| "vm_state_code VmStopped = 5"
| "vm_state_code VmFailed = 6"

definition vm_state_of :: "int \<Rightarrow> vm_state option" where
  "vm_state_of code =
     find (\<lambda>s. vm_state_code s = code)
       [VmUnspecified, VmCreated, VmStarting, VmRunning, VmStopping, VmStopped, VmFailed]"

datatype hypervisor_type = HvUnspecified | HvFirecracker | HvCloudHypervisor | HvQemu

definition hypervisor_of :: "int \<Rightarrow> hypervisor_type option" where
  "hypervisor_of code =
     (if code = 0 then Some HvUnspecified else if code = 1 then Some HvFirecracker
      else if code = 2 then Some HvCloudHypervisor else if code = 3 then Some HvQemu else None)"

record disk_config =
  disk_path :: string
  disk_readonly :: bool

record vm_config =
  vm_name :: string
  cpus :: nat
  memory_mb :: nat
  kernel :: string
  initrd :: string
  cmdline :: string
  disks :: "disk_config list"
  hypervisor :: int
  root_disk_size_mb :: nat

record disk_usage =
  used_bytes :: nat
  quota_bytes :: nat
  usage_percent :: nat

record vm_info =
  info_id :: string
  info_name :: string
  info_state :: int
  info_config :: "vm_config option"
  info_pid :: int
  info_created_at :: int
  info_started_at :: int
  info_tap :: string
  info_mac :: string
  info_usage :: "disk_usage option"

section \<open>Entries and their persisted form\<close>

record tap_device =
  tap_name :: string
  mac_address :: string

record vm_entry =
  config :: vm_config
  vm_status :: vm_state
  vm_pid :: "nat option"
  tap :: "tap_device option"
  created_at :: int
  started_at :: "int option"

record vm_persisted =
  p_name :: string
  p_cpus :: nat
  p_memory_mb :: nat
  p_kernel :: string
  p_initrd :: string
  p_cmdline :: string
  p_disks :: "disk_config list"
  p_hypervisor :: int
  p_root_disk_size_mb :: nat
  p_state :: int
  p_created_at :: int
  p_started_at :: "int option"
  p_tap_device :: "string option"
  p_mac_address :: "string option"

definition to_info :: "(string \<Rightarrow> disk_usage option) \<Rightarrow> vm_entry \<Rightarrow> string \<Rightarrow> vm_info" where
  "to_info get_usage e vm_id =
     \<lparr>info_id = vm_id, info_name = vm_name (config e), info_state = vm_state_code (vm_status e),
      info_config = Some (config e),
      info_pid = (case vm_pid e of None \<Rightarrow> 0 | Some p \<Rightarrow> if p < 2 ^ 31 then int p else 0),
      info_created_at = created_at e,
      info_started_at = (case started_at e of None \<Rightarrow> 0 | Some t \<Rightarrow> t),
      info_tap = (case tap e of None \<Rightarrow> [] | Some t \<Rightarrow> tap_name t),
      info_mac = (case tap e of None \<Rightarrow> [] | Some t \<Rightarrow> mac_address t),
      info_usage = get_usage vm_id\<rparr>"

definition to_persisted :: "vm_entry \<Rightarrow> vm_persisted" where
  "to_persisted e =
     \<lparr>p_name = vm_name (config e), p_cpus = cpus (config e), p_memory_mb = memory_mb (config e),
      p_kernel = kernel (config e), p_initrd = initrd (config e), p_cmdline = cmdline (config e),
      p_disks = disks (config e), p_hypervisor = hypervisor (config e),
      p_root_disk_size_mb = root_disk_size_mb (config e), p_state = vm_state_code (vm_status e),
      p_created_at = created_at e, p_started_at = started_at e,
      p_tap_device = map_option tap_name (tap e), p_mac_address = map_option mac_address (tap e)\<rparr>"

definition from_persisted :: "vm_persisted \<Rightarrow> vm_entry" where
  "from_persisted p =
     \<lparr>config = \<lparr>vm_name = p_name p, cpus = p_cpus p, memory_mb = p_memory_mb p, kernel = p_kernel p,
                initrd = p_initrd p, cmdline = p_cmdline p, disks = p_disks p,
                hypervisor = p_hypervisor p, root_disk_size_mb = p_root_disk_size_mb p\<rparr>,
      vm_status = (case vm_state_of (p_state p) of None \<Rightarrow> VmStopped | Some s \<Rightarrow> s),
      vm_pid = None,
      tap = (case (p_tap_device p, p_mac_address p) of
               (Some name, Some mac) \<Rightarrow> Some \<lparr>tap_name = name, mac_address = mac\<rparr>
             | _ \<Rightarrow> None),
      created_at = p_created_at p, started_at = p_started_at p\<rparr>"

section \<open>MAC addresses\<close>

definition bytes_of :: "string \<Rightarrow> bytes" where
  "bytes_of s = map (\<lambda>c. word_of_nat (of_char c)) s"

text \<open>The loop copies as many digest bytes as the zeroed array has room for.\<close>

definition mac_generate :: "(bytes \<Rightarrow> bytes) \<Rightarrow> string \<Rightarrow> bytes" where
  "mac_generate sha256 ident =
     (let mac = take 6 (sha256 (bytes_of ident) @ zeros 6)
      in mac[0 := (mac ! 0 AND 0xfe) OR 0x02])"

definition hex_digit :: "nat \<Rightarrow> char" where
  "hex_digit n = (if n < 10 then char_of (48 + n) else char_of (87 + n))"

definition hex_byte :: "byte \<Rightarrow> string" where
  "hex_byte b = [hex_digit (unat b div 16), hex_digit (unat b mod 16)]"

fun join_colon :: "string list \<Rightarrow> string" where
  "join_colon [] = []"
| "join_colon [s] = s"
| "join_colon (s # t # ts) = s @ '':'' @ join_colon (t # ts)"

definition mac_format :: "bytes \<Rightarrow> string" where
  "mac_format mac = join_colon (map hex_byte mac)"

section \<open>What the operating system answers, and what is done to it\<close>

datatype hypervisor_impl = Firecracker | CloudHypervisor | Qemu

record start_disk =
  sd_path :: string
  sd_readonly :: bool

record vm_start_config =
  sc_vm_id :: string
  sc_cpus :: nat
  sc_memory_mb :: nat
  sc_kernel :: string
  sc_initrd :: "string option"
  sc_cmdline :: string
  sc_disks :: "start_disk list"
  sc_tap_device :: string
  sc_mac_address :: string
  sc_serial_log_path :: string
  sc_persistent_disk :: "string option"

definition create_hypervisor :: "hypervisor_type \<Rightarrow> hypervisor_impl" where
  "create_hypervisor t =
     (case t of HvFirecracker \<Rightarrow> Firecracker | HvCloudHypervisor \<Rightarrow> CloudHypervisor
              | HvQemu \<Rightarrow> Qemu | HvUnspecified \<Rightarrow> Qemu)"

record vm_env =
  new_uuid :: string
  epoch_secs :: "nat option"
  create_subvol :: "string + unit"
  set_quota :: "string + unit"
  create_image :: "string + unit"
  write_state :: "string + unit"
  remove_state :: "string + unit"
  state_dir :: "string + unit"
  state_readable :: "string \<Rightarrow> bool"
  list_subvols :: "string + string list"
  delete_subvol :: "string \<Rightarrow> string + unit"
  setup_tap :: "string + unit"
  delete_tap :: "string + unit"
  start_hypervisor :: "string + nat"
  stop_hypervisor :: "string + unit"
  path_exists :: "string \<Rightarrow> bool"
  write_file :: "string + unit"
  read_log :: "string + string"
  usage_of :: "string \<Rightarrow> disk_usage option"

datatype effect =
    SubvolCreated string
  | QuotaSet string nat
  | ImageCreated string nat
  | SubvolDeleted string
  | TapSetup string string
  | TapRemoved string
  | HvStarted string nat hypervisor_impl vm_start_config
  | HvStopped string nat hypervisor_impl bool
  | FileWritten string string

record vm_store =
  state_files :: "(string \<times> string) list"
  effects :: "effect list"

definition emit :: "effect \<Rightarrow> vm_store \<Rightarrow> vm_store" where
  "emit e w = w\<lparr>effects := effects w @ [e]\<rparr>"

record codec =
  to_json :: "vm_persisted \<Rightarrow> string"
  from_json :: "string \<Rightarrow> string + vm_persisted"
  sha256 :: "bytes \<Rightarrow> bytes"

section \<open>State files\<close>

abbreviation (input) VMS_DIR :: string where "VMS_DIR \<equiv> ''/run/state/workloadd/vms''"
abbreviation (input) DATA_DIR :: string where "DATA_DIR \<equiv> ''/run/data''"

definition state_file_name :: "string \<Rightarrow> string" where
  "state_file_name vm_id = vm_id @ ''.json''"

definition save_vm ::
    "codec \<Rightarrow> vm_env \<Rightarrow> string \<Rightarrow> vm_persisted \<Rightarrow> vm_store \<Rightarrow> vm_store \<times> (string + unit)" where
  "save_vm c env vm_id p w =
     (case write_state env of
        Inl e \<Rightarrow> (w, Err e)
      | Inr _ \<Rightarrow> (w\<lparr>state_files := AList.update (state_file_name vm_id) (to_json c p) (state_files w)\<rparr>,
                  Ok ()))"

definition delete_vm :: "vm_env \<Rightarrow> string \<Rightarrow> vm_store \<Rightarrow> vm_store \<times> (string + unit)" where
  "delete_vm env vm_id w =
     (if map_of (state_files w) (state_file_name vm_id) = None then (w, Ok ())
      else case remove_state env of
             Inl e \<Rightarrow> (w, Err e)
           | Inr _ \<Rightarrow> (w\<lparr>state_files := AList.delete (state_file_name vm_id) (state_files w)\<rparr>, Ok ()))"

definition load_vm_from_path :: "codec \<Rightarrow> vm_env \<Rightarrow> string \<times> string \<Rightarrow> string + vm_persisted" where
  "load_vm_from_path c env file =
     (if state_readable env (fst file) then from_json c (snd file) else Err ''read failed'')"

definition load_entry ::
    "codec \<Rightarrow> vm_env \<Rightarrow> string \<times> string \<Rightarrow> (string \<times> vm_persisted) list \<Rightarrow> (string \<times> vm_persisted) list"
where
  "load_entry c env file acc =
     (if extension (fst file) \<noteq> Some ''json'' then acc
      else case load_vm_from_path c env file of
             Inl _ \<Rightarrow> acc
           | Inr p \<Rightarrow> AList.update (file_stem (fst file)) p acc)"

definition load_vms :: "codec \<Rightarrow> vm_env \<Rightarrow> vm_store \<Rightarrow> string + (string \<times> vm_persisted) list" where
  "load_vms c env w =
     (if \<not> path_exists env VMS_DIR then Ok []
      else and_then (state_dir env) (\<lambda>_. Ok (fold (load_entry c env) (state_files w) [])))"

section \<open>Lemmas\<close>

lemma vm_state_of_code [simp]: "vm_state_of (vm_state_code s) = Some s"
  by (cases s) (simp_all add: vm_state_of_def)

lemma vm_state_of_Some: "vm_state_of code = Some s \<Longrightarrow> code = vm_state_code s"
  by (auto simp: vm_state_of_def split: if_splits)

text \<open>Persisting an entry loses the process id and nothing else.\<close>

lemma from_to_persisted: "from_persisted (to_persisted e) = e\<lparr>vm_pid := None\<rparr>"
  by (cases "tap e") (simp_all add: from_persisted_def to_persisted_def)

lemma length_mac_generate [simp]: "length (mac_generate sha ident) = 6"
  by (simp add: mac_generate_def Let_def)

lemma map_of_save_vm:
  assumes "save_vm c env vm_id p w = (w', Ok ())"
  shows "map_of (state_files w') (state_file_name vm_id) = Some (to_json c p)"
  using assms by (auto simp: save_vm_def update_conv' split: sum.splits)

lemma save_vm_effects [simp]: "save_vm c env vm_id p w = (w', r) \<Longrightarrow> effects w' = effects w"
  by (auto simp: save_vm_def split: sum.splits)

lemma load_entry_lookup:
  "map_of (load_entry c env file acc) k =
     (if extension (fst file) = Some ''json'' \<and> file_stem (fst file) = k \<and> is_ok (load_vm_from_path c env file)
      then (case load_vm_from_path c env file of Inr p \<Rightarrow> Some p | Inl _ \<Rightarrow> None)
      else map_of acc k)"
  by (auto simp: load_entry_def update_conv' split: sum.splits)

lemma distinct_load_entry: "distinct (map fst acc) \<Longrightarrow> distinct (map fst (load_entry c env file acc))"
  by (auto simp: load_entry_def distinct_update split: sum.splits)

lemma distinct_load_fold:
  "distinct (map fst acc) \<Longrightarrow> distinct (map fst (fold (load_entry c env) files acc))"
  by (induction files arbitrary: acc) (auto simp: distinct_load_entry)

lemma distinct_load_vms: "load_vms c env w = Ok vms \<Longrightarrow> distinct (map fst vms)"
  by (auto simp: load_vms_def and_then_eq_Ok distinct_load_fold split: if_splits)

end
