(* ===== verification/Workload_Actor.thy ===== *)
theory Workload_Actor
  imports Workload_State
begin

text \<open>
  The virtual machine actor (\<open>services/workloadd/src/actor/state.rs\<close>): start-up from the state files,
  one definition per command handler, the dispatch, and the command loop as a step relation.  A
  handler takes the actor and the store and returns both, updated as far as the handler got: an early
  return with \<open>?\<close> keeps what was assigned through the \<open>get_mut\<close> reference before it.
\<close>

abbreviation (input) DEFAULT_DISK_SIZE_MB :: nat where "DEFAULT_DISK_SIZE_MB \<equiv> 1024"

record vm_actor =
  bridge_name :: string
  vms :: "(string \<times> vm_entry) list"
  pending_restarts :: "string list"
  kvm_available :: bool

type_synonym 'a handled = "vm_actor \<times> vm_store \<times> (string + 'a)"

section \<open>Start-up\<close>

definition reset_if_running ::
    "vm_entry \<Rightarrow> bool \<Rightarrow> string \<Rightarrow> bool \<Rightarrow> string list \<Rightarrow> vm_entry \<times> string list" where
  "reset_if_running entry was_running vm_id auto_restart pending =
     (if \<not> was_running then (entry, pending)
      else (entry\<lparr>vm_status := VmStopped, tap := None\<rparr>,
            if auto_restart then pending @ [vm_id] else pending))"

definition load_one ::
    "bool \<Rightarrow> string \<times> vm_persisted \<Rightarrow> (string \<times> vm_entry) list \<times> string list \<Rightarrow>
     (string \<times> vm_entry) list \<times> string list" where
  "load_one auto_restart = (\<lambda>(vm_id, p) (table, pending).
     let was_running = (vm_state_of (p_state p) = Some VmRunning);
         (entry, pending) = reset_if_running (from_persisted p) was_running vm_id auto_restart pending
     in (AList.update vm_id entry table, pending))"

definition load_persisted_state ::
    "codec \<Rightarrow> vm_env \<Rightarrow> vm_store \<Rightarrow> bool \<Rightarrow> (string \<times> vm_entry) list \<times> string list" where
  "load_persisted_state c env w auto_restart =
     (let persisted = (case load_vms c env w of Inr ps \<Rightarrow> ps | Inl _ \<Rightarrow> [])
      in fold (load_one auto_restart) (sort_key fst persisted) ([], []))"

definition delete_orphaned_disk :: "vm_env \<Rightarrow> string \<Rightarrow> vm_store \<Rightarrow> vm_store" where
  "delete_orphaned_disk env vm_id w =
     (case delete_subvol env vm_id of Inl _ \<Rightarrow> w | Inr _ \<Rightarrow> emit (SubvolDeleted vm_id) w)"

definition cleanup_orphaned_disks ::
    "vm_env \<Rightarrow> (string \<times> vm_entry) list \<Rightarrow> vm_store \<Rightarrow> vm_store" where
  "cleanup_orphaned_disks env table w =
     fold (delete_orphaned_disk env)
       (filter (\<lambda>vm_id. map_of table vm_id = None)
          (case list_subvols env of Inr ids \<Rightarrow> ids | Inl _ \<Rightarrow> [])) w"

definition vm_actor_new ::
    "codec \<Rightarrow> vm_env \<Rightarrow> string \<Rightarrow> bool \<Rightarrow> bool \<Rightarrow> vm_store \<Rightarrow> vm_actor \<times> vm_store" where
  "vm_actor_new c env bridge kvm auto_restart w =
     (let (table, pending) = load_persisted_state c env w auto_restart
      in (\<lparr>bridge_name = bridge, vms = table, pending_restarts = pending, kvm_available = kvm\<rparr>,
          cleanup_orphaned_disks env table w))"

section \<open>Creating\<close>

definition now_secs :: "vm_env \<Rightarrow> int" where
  "now_secs env =
     (case epoch_secs env of None \<Rightarrow> 0 | Some s \<Rightarrow> if s < 2 ^ 63 then int s else 0)"

definition vm_not_found :: "string \<Rightarrow> string" where
  "vm_not_found vm_id = ''VM not found: '' @ vm_id"

definition handle_create :: "codec \<Rightarrow> vm_env \<Rightarrow> vm_config \<Rightarrow> vm_actor \<Rightarrow> vm_store \<Rightarrow> string handled" where
  "handle_create c env cfg a w =
     (let vm_id = new_uuid env;
          size_mb = (if root_disk_size_mb cfg = 0 then DEFAULT_DISK_SIZE_MB else root_disk_size_mb cfg);
          size_bytes = saturating_mul u64_max size_mb (1024 * 1024)
      in case create_subvol env of Inl e \<Rightarrow> (a, w, Err e)
       | Inr _ \<Rightarrow>
      let w = emit (SubvolCreated vm_id) w
      in case set_quota env of Inl e \<Rightarrow> (a, w, Err e)
       | Inr _ \<Rightarrow>
      let w = emit (QuotaSet vm_id size_bytes) w
      in case create_image env of Inl e \<Rightarrow> (a, w, Err e)
       | Inr _ \<Rightarrow>
      let w = emit (ImageCreated vm_id size_bytes) w;
          cfg = (if root_disk_size_mb cfg = 0
                 then cfg\<lparr>root_disk_size_mb := DEFAULT_DISK_SIZE_MB\<rparr> else cfg);
          entry = \<lparr>config = cfg, vm_status = VmCreated, vm_pid = None, tap = None,
                   created_at = now_secs env, started_at = None\<rparr>
      in case save_vm c env vm_id (to_persisted entry) w of
           (w, Inl e) \<Rightarrow> (a, w, Err e)
         | (w, Inr _) \<Rightarrow> (a\<lparr>vms := AList.update vm_id entry (vms a)\<rparr>, w, Ok vm_id))"

section \<open>Starting\<close>

definition resolve_boot_asset :: "vm_env \<Rightarrow> string \<Rightarrow> string \<Rightarrow> string + string" where
  "resolve_boot_asset env dir name =
     (let path = path_join dir name
      in if path_exists env path then Ok path else Err (name @ '' not found: '' @ path))"

fun resolve_disks :: "vm_env \<Rightarrow> string \<Rightarrow> nat \<Rightarrow> disk_config list \<Rightarrow> string + start_disk list" where
  "resolve_disks env dir idx [] = Ok []"
| "resolve_disks env dir idx (d # ds) =
     and_then (resolve_boot_asset env dir (''disk'' @ decimal idx)) (\<lambda>path.
     and_then (resolve_disks env dir (Suc idx) ds) (\<lambda>rest.
       Ok (\<lparr>sd_path = path, sd_readonly = disk_readonly d\<rparr> # rest)))"

text \<open>\<open>vm_id.get(..8.min(len)).unwrap_or_default()\<close>: empty if byte 8 is inside a character.\<close>

definition short_id :: "string \<Rightarrow> string" where
  "short_id vm_id =
     (if length vm_id \<le> 8 then vm_id
      else if byte_between 0x80 0xBF (vm_id ! 8) then [] else take 8 vm_id)"

definition tap_for :: "codec \<Rightarrow> string \<Rightarrow> tap_device" where
  "tap_for c vm_id =
     \<lparr>tap_name = ''tap-'' @ short_id vm_id, mac_address = mac_format (mac_generate (sha256 c) vm_id)\<rparr>"

definition driver_of :: "vm_entry \<Rightarrow> hypervisor_impl" where
  "driver_of entry =
     create_hypervisor (case hypervisor_of (hypervisor (config entry)) of None \<Rightarrow> HvQemu | Some t \<Rightarrow> t)"

definition image_path :: "string \<Rightarrow> string" where
  "image_path vm_id = path_join (path_join DATA_DIR vm_id) ''disk.raw''"

definition start_config ::
    "string \<Rightarrow> vm_config \<Rightarrow> tap_device \<Rightarrow> string \<Rightarrow> string option \<Rightarrow> start_disk list \<Rightarrow> vm_start_config" where
  "start_config vm_id cfg t kern ird ds =
     \<lparr>sc_vm_id = vm_id, sc_cpus = cpus cfg, sc_memory_mb = memory_mb cfg, sc_kernel = kern,
      sc_initrd = ird, sc_cmdline = cmdline cfg, sc_disks = ds, sc_tap_device = tap_name t,
      sc_mac_address = mac_address t,
      sc_serial_log_path = path_join (path_join DATA_DIR vm_id) ''serial.log'',
      sc_persistent_disk = Some (image_path vm_id)\<rparr>"

definition resolve_assets :: "vm_env \<Rightarrow> string \<Rightarrow> vm_config \<Rightarrow> tap_device \<Rightarrow> string + vm_start_config" where
  "resolve_assets env vm_id cfg t =
     (let dir = path_join DATA_DIR vm_id in
      and_then (resolve_boot_asset env dir ''kernel'') (\<lambda>kern.
      let ird = (case resolve_boot_asset env dir ''initrd'' of Inr p \<Rightarrow> Some p | Inl _ \<Rightarrow> None) in
      and_then (resolve_disks env dir 0 (disks cfg)) (\<lambda>ds.
        Ok (start_config vm_id cfg t kern ird ds))))"

definition remove_tap :: "vm_env \<Rightarrow> string \<Rightarrow> vm_store \<Rightarrow> vm_store" where
  "remove_tap env name w =
     (case delete_tap env of Inl _ \<Rightarrow> w | Inr _ \<Rightarrow> emit (TapRemoved name) w)"

definition cleanup_tap_on_err :: "vm_env \<Rightarrow> string option \<Rightarrow> vm_store \<Rightarrow> vm_store" where
  "cleanup_tap_on_err env name w = (case name of None \<Rightarrow> w | Some n \<Rightarrow> remove_tap env n w)"

text \<open>Assigning through the \<open>get_mut\<close> reference.\<close>

definition put_vm :: "string \<Rightarrow> vm_entry \<Rightarrow> vm_actor \<Rightarrow> vm_actor" where
  "put_vm vm_id entry a = a\<lparr>vms := alter vm_id (\<lambda>_. entry) (vms a)\<rparr>"

text \<open>The tail of \<open>handle_start\<close>, from \<open>hypervisor.start\<close> on.\<close>

definition launch ::
    "codec \<Rightarrow> vm_env \<Rightarrow> string \<Rightarrow> vm_entry \<Rightarrow> vm_start_config \<Rightarrow> vm_actor \<Rightarrow> vm_store \<Rightarrow> unit handled" where
  "launch c env vm_id entry sc a w =
     (case start_hypervisor env of
        Inr pid \<Rightarrow>
          let w = emit (HvStarted vm_id pid (driver_of entry) sc) w;
              entry = entry\<lparr>vm_pid := Some pid, vm_status := VmRunning, started_at := Some (now_secs env)\<rparr>;
              (w, saved) = save_vm c env vm_id (to_persisted entry) w
          in (put_vm vm_id entry a, w, saved)
      | Inl e \<Rightarrow>
          let name = map_option tap_name (tap entry);
              entry = entry\<lparr>tap := None, vm_status := VmCreated\<rparr>
          in case save_vm c env vm_id (to_persisted entry) w of
               (w, Inl e') \<Rightarrow> (put_vm vm_id entry a, w, Err e')
             | (w, Inr _) \<Rightarrow> (put_vm vm_id entry a, cleanup_tap_on_err env name w, Err e))"

definition handle_start :: "codec \<Rightarrow> vm_env \<Rightarrow> string \<Rightarrow> vm_actor \<Rightarrow> vm_store \<Rightarrow> unit handled" where
  "handle_start c env vm_id a w =
     (if \<not> kvm_available a
      then (a, w, Err ''KVM is not available: /dev/kvm is missing or inaccessible, cannot start VMs'')
      else case map_of (vms a) vm_id of
        None \<Rightarrow> (a, w, Err (vm_not_found vm_id))
      | Some entry \<Rightarrow>
          if vm_status entry = VmRunning then (a, w, Err ''VM is already running'')
          else let entry = entry\<lparr>vm_status := VmStarting\<rparr>; t = tap_for c vm_id in
          case setup_tap env of
            Inl e \<Rightarrow> (put_vm vm_id entry a, w, Err e)
          | Inr _ \<Rightarrow>
              let w = emit (TapSetup (tap_name t) (bridge_name a)) w; entry = entry\<lparr>tap := Some t\<rparr> in
              case resolve_assets env vm_id (config entry) t of
                Inl e \<Rightarrow> (put_vm vm_id entry a, w, Err e)
              | Inr sc \<Rightarrow> launch c env vm_id entry sc a w)"

section \<open>Stopping and deleting\<close>

definition finish_stop :: "codec \<Rightarrow> vm_env \<Rightarrow> string \<Rightarrow> vm_entry \<Rightarrow> vm_actor \<Rightarrow> vm_store \<Rightarrow> unit handled" where
  "finish_stop c env vm_id entry a w =
     (case tap entry of
        Some t \<Rightarrow>
          let entry = entry\<lparr>tap := None, vm_status := VmStopped, vm_pid := None\<rparr>
          in (case save_vm c env vm_id (to_persisted entry) w of
                (w, Inl e) \<Rightarrow> (put_vm vm_id entry a, w, Err e)
              | (w, Inr _) \<Rightarrow> (put_vm vm_id entry a, remove_tap env (tap_name t) w, Ok ()))
      | None \<Rightarrow>
          let entry = entry\<lparr>vm_status := VmStopped, vm_pid := None\<rparr>;
              (w, saved) = save_vm c env vm_id (to_persisted entry) w
          in (put_vm vm_id entry a, w, saved))"

definition handle_stop :: "codec \<Rightarrow> vm_env \<Rightarrow> string \<Rightarrow> bool \<Rightarrow> vm_actor \<Rightarrow> vm_store \<Rightarrow> unit handled" where
  "handle_stop c env vm_id force a w =
     (case map_of (vms a) vm_id of
        None \<Rightarrow> (a, w, Err (vm_not_found vm_id))
      | Some entry \<Rightarrow>
          if vm_status entry \<noteq> VmRunning then (a, w, Err ''VM is not running'')
          else let entry = entry\<lparr>vm_status := VmStopping\<rparr> in
          case vm_pid entry of
            Some pid \<Rightarrow>
              (case stop_hypervisor env of
                 Inl e \<Rightarrow> (put_vm vm_id entry a, w, Err e)
               | Inr _ \<Rightarrow>
                   finish_stop c env vm_id entry a (emit (HvStopped vm_id pid (driver_of entry) force) w))
          | None \<Rightarrow> finish_stop c env vm_id entry a w)"

definition handle_delete :: "vm_env \<Rightarrow> string \<Rightarrow> vm_actor \<Rightarrow> vm_store \<Rightarrow> unit handled" where
  "handle_delete env vm_id a w =
     (case map_of (vms a) vm_id of
        None \<Rightarrow> (a, w, Err (vm_not_found vm_id))
      | Some entry \<Rightarrow>
          if vm_status entry = VmRunning then (a, w, Err ''Cannot delete running VM'')
          else let w = (case delete_subvol env vm_id of
                          Inl _ \<Rightarrow> w | Inr _ \<Rightarrow> emit (SubvolDeleted vm_id) w);
                   w = fst (delete_vm env vm_id w)
               in (a\<lparr>vms := AList.delete vm_id (vms a)\<rparr>, w, Ok ()))"

section \<open>Queries and uploads\<close>

definition handle_get :: "vm_env \<Rightarrow> string \<Rightarrow> vm_actor \<Rightarrow> string + vm_info" where
  "handle_get env vm_id a =
     and_then (ok_or (map_of (vms a) vm_id) (vm_not_found vm_id))
       (\<lambda>entry. Ok (to_info (usage_of env) entry vm_id))"

definition handle_list :: "vm_env \<Rightarrow> vm_actor \<Rightarrow> vm_info list" where
  "handle_list env a = map (\<lambda>(vm_id, entry). to_info (usage_of env) entry vm_id) (vms a)"

definition safe_filename :: "string \<Rightarrow> string" where
  "safe_filename name =
     map (\<lambda>ch. if ch = CHR ''/'' \<or> ch = CHR 0x5C \<or> ch = CHR 0x00 then CHR ''_'' else ch) name"

definition handle_upload_file ::
    "vm_env \<Rightarrow> string \<Rightarrow> string \<Rightarrow> string option \<Rightarrow> vm_store \<Rightarrow> vm_store \<times> (string + string)" where
  "handle_upload_file env filename data vm_id w =
     (case vm_id of
        None \<Rightarrow> (w, Err ''vm_id is required for file uploads'')
      | Some vm_id \<Rightarrow>
          let vm_dir = path_join DATA_DIR vm_id in
          if \<not> path_exists env vm_dir
          then (w, Err (''VM directory not found: '' @ vm_id @ ''. Create the VM first.''))
          else let path = path_join vm_dir (safe_filename filename) in
          case write_file env of
            Inl e \<Rightarrow> (w, Err e)
          | Inr _ \<Rightarrow> (emit (FileWritten path data) w, Ok path))"

fun join_newline :: "string list \<Rightarrow> string" where
  "join_newline [] = []"
| "join_newline [s] = s"
| "join_newline (s # t # ts) = s @ [newline] @ join_newline (t # ts)"

definition handle_get_serial_log :: "vm_env \<Rightarrow> string \<Rightarrow> int \<Rightarrow> vm_actor \<Rightarrow> string + string" where
  "handle_get_serial_log env vm_id tail_lines a =
     and_then (ok_or (map_of (vms a) vm_id) (vm_not_found vm_id)) (\<lambda>_.
       if \<not> path_exists env (path_join (path_join DATA_DIR vm_id) ''serial.log'') then Ok []
       else and_then (read_log env) (\<lambda>content.
         if 0 < tail_lines
         then let ls = lines content in Ok (join_newline (drop (length ls - nat tail_lines) ls))
         else Ok content))"

section \<open>The command loop\<close>

datatype vm_command =
    CmdCreate vm_config
  | CmdStart string
  | CmdStop string bool
  | CmdDelete string
  | CmdGet string
  | CmdList
  | CmdUploadFile string string "string option"
  | CmdGetSerialLog string int

datatype vm_reply =
    ReplyText "string + string"
  | ReplyUnit "string + unit"
  | ReplyInfo "string + vm_info"
  | ReplyInfos "string + vm_info list"

fun dispatch :: "codec \<Rightarrow> vm_env \<Rightarrow> vm_command \<Rightarrow> vm_actor \<Rightarrow> vm_store \<Rightarrow> vm_actor \<times> vm_store \<times> vm_reply" where
  "dispatch c env (CmdCreate cfg) a w =
     (let (a, w, r) = handle_create c env cfg a w in (a, w, ReplyText r))"
| "dispatch c env (CmdStart vm_id) a w =
     (let (a, w, r) = handle_start c env vm_id a w in (a, w, ReplyUnit r))"
| "dispatch c env (CmdStop vm_id force) a w =
     (let (a, w, r) = handle_stop c env vm_id force a w in (a, w, ReplyUnit r))"
| "dispatch c env (CmdDelete vm_id) a w =
     (let (a, w, r) = handle_delete env vm_id a w in (a, w, ReplyUnit r))"
| "dispatch c env (CmdGet vm_id) a w = (a, w, ReplyInfo (handle_get env vm_id a))"
| "dispatch c env CmdList a w = (a, w, ReplyInfos (Ok (handle_list env a)))"
| "dispatch c env (CmdUploadFile filename data vm_id) a w =
     (let (w, r) = handle_upload_file env filename data vm_id w in (a, w, ReplyText r))"
| "dispatch c env (CmdGetSerialLog vm_id tail_lines) a w =
     (a, w, ReplyText (handle_get_serial_log env vm_id tail_lines a))"

text \<open>The restarts at the start of \<open>run\<close>; each has its own answers of the operating system.\<close>

definition auto_restart_vm ::
    "codec \<Rightarrow> (string \<Rightarrow> vm_env) \<Rightarrow> string \<Rightarrow> vm_actor \<times> vm_store \<Rightarrow> vm_actor \<times> vm_store" where
  "auto_restart_vm c envs vm_id = (\<lambda>(a, w).
     let (a, w, _) = handle_start c (envs vm_id) vm_id a w in (a, w))"

definition vm_process_pending_restarts ::
    "codec \<Rightarrow> (string \<Rightarrow> vm_env) \<Rightarrow> vm_actor \<Rightarrow> vm_store \<Rightarrow> vm_actor \<times> vm_store" where
  "vm_process_pending_restarts c envs a w =
     fold (auto_restart_vm c envs) (pending_restarts a) (a\<lparr>pending_restarts := []\<rparr>, w)"

inductive vm_reach :: "codec \<Rightarrow> vm_actor \<Rightarrow> vm_store \<Rightarrow> bool" for c where
  boot: "vm_actor_new c env bridge kvm auto_restart w = (a, w') \<Longrightarrow>
         vm_process_pending_restarts c envs a w' = (a', w'') \<Longrightarrow> vm_reach c a' w''"
| command: "vm_reach c a w \<Longrightarrow> dispatch c env cmd a w = (a', w', reply) \<Longrightarrow> vm_reach c a' w'"

end
