(* ===== verification/Workload_Safety.thy ===== *)
theory Workload_Safety
  imports Workload_Actor
begin

text \<open>
  Lemmas on the workload actor: the invariant of its table of machines and that every handler keeps
  it, and the recovery of the table from the state files.
\<close>

section \<open>The table of machines\<close>

text \<open>A machine that counts as running has a process, a network device and a start time.\<close>

definition entry_ok :: "vm_entry \<Rightarrow> bool" where
  "entry_ok e \<longleftrightarrow> (vm_status e = VmRunning \<longrightarrow> vm_pid e \<noteq> None \<and> tap e \<noteq> None \<and> started_at e \<noteq> None)"

definition actor_inv :: "vm_actor \<Rightarrow> bool" where
  "actor_inv a \<longleftrightarrow> distinct (map fst (vms a)) \<and> (\<forall>vm_id e. map_of (vms a) vm_id = Some e \<longrightarrow> entry_ok e)"

lemma fst_alter: "map fst (alter k f m) = map fst m"
  by (induction m) (auto simp: alter_def)

lemma actor_inv_put:
  assumes "actor_inv a" "entry_ok e"
  shows "actor_inv (put_vm vm_id e a)"
proof -
  have "entry_ok e'" if "map_of (alter vm_id (\<lambda>_. e) (vms a)) k = Some e'" for k e'
    using that assms by (cases "k = vm_id") (auto simp: map_of_alter actor_inv_def)
  then show ?thesis using assms(1) by (simp add: actor_inv_def put_vm_def fst_alter)
qed

lemma actor_inv_update:
  "actor_inv a \<Longrightarrow> entry_ok e \<Longrightarrow> actor_inv (a\<lparr>vms := AList.update vm_id e (vms a)\<rparr>)"
  by (auto simp: actor_inv_def distinct_update update_conv' split: if_splits)

lemma actor_inv_delete: "actor_inv a \<Longrightarrow> actor_inv (a\<lparr>vms := AList.delete vm_id (vms a)\<rparr>)"
  by (auto simp: actor_inv_def distinct_delete delete_conv' split: if_splits)

lemma entry_ok_other [simp]: "vm_status e \<noteq> VmRunning \<Longrightarrow> entry_ok e"
  by (simp add: entry_ok_def)

lemma actor_inv_launch:
  assumes "actor_inv a" "tap entry \<noteq> None" "launch c env vm_id entry sc a w = (a', w', r)"
  shows "actor_inv a'"
  using assms
  by (auto simp: launch_def Let_def entry_ok_def intro!: actor_inv_put split: sum.splits prod.splits)

lemma actor_inv_start:
  assumes "actor_inv a" "handle_start c env vm_id a w = (a', w', r)"
  shows "actor_inv a'"
  using assms
  by (auto simp: handle_start_def Let_def intro!: actor_inv_put
      dest: actor_inv_launch [rotated 2] split: if_splits option.splits sum.splits)

lemma actor_inv_finish_stop:
  assumes "actor_inv a" "finish_stop c env vm_id entry a w = (a', w', r)"
  shows "actor_inv a'"
  using assms
  by (auto simp: finish_stop_def Let_def intro!: actor_inv_put split: option.splits sum.splits prod.splits)

lemma actor_inv_stop:
  assumes "actor_inv a" "handle_stop c env vm_id force a w = (a', w', r)"
  shows "actor_inv a'"
  using assms
  by (auto simp: handle_stop_def Let_def intro!: actor_inv_put
      dest: actor_inv_finish_stop [rotated] split: if_splits option.splits sum.splits)

lemma actor_inv_create:
  assumes "actor_inv a" "handle_create c env cfg a w = (a', w', r)"
  shows "actor_inv a'"
  using assms
  by (auto simp: handle_create_def Let_def intro!: actor_inv_update
      split: sum.splits prod.splits if_splits)

lemma actor_inv_handle_delete:
  assumes "actor_inv a" "handle_delete env vm_id a w = (a', w', r)"
  shows "actor_inv a'"
  using assms
  by (auto simp: handle_delete_def Let_def intro: actor_inv_delete split: if_splits option.splits)

lemma actor_inv_dispatch:
  assumes "actor_inv a" "dispatch c env cmd a w = (a', w', r)"
  shows "actor_inv a'"
  using assms
  by (cases cmd)
     (auto simp: Let_def split: prod.splits
       intro: actor_inv_create actor_inv_start actor_inv_stop actor_inv_handle_delete)

section \<open>Loading the table\<close>

definition loaded_entry :: "vm_persisted \<Rightarrow> vm_entry" where
  "loaded_entry p =
     (if vm_state_of (p_state p) = Some VmRunning
      then (from_persisted p)\<lparr>vm_status := VmStopped, tap := None\<rparr> else from_persisted p)"

lemma loaded_entry_ok: "vm_status (loaded_entry p) \<noteq> VmRunning"
  by (auto simp: loaded_entry_def from_persisted_def split: option.splits)

lemma load_one_eq:
  "load_one auto_restart (vm_id, p) (table, pending) =
     (AList.update vm_id (loaded_entry p) table,
      if auto_restart \<and> vm_state_of (p_state p) = Some VmRunning then pending @ [vm_id] else pending)"
  by (simp add: load_one_def reset_if_running_def loaded_entry_def Let_def)

lemma load_fold:
  "fold (load_one auto_restart) ps (table, pending) =
     (fold (\<lambda>(vm_id, p). AList.update vm_id (loaded_entry p)) ps table,
      pending @ map fst (filter (\<lambda>(_, p). auto_restart \<and> vm_state_of (p_state p) = Some VmRunning) ps))"
proof (induction ps arbitrary: table pending)
  case (Cons x ps)
  then show ?case by (cases x) (simp add: load_one_eq)
qed simp

lemma lookup_load_fold:
  assumes "distinct (map fst ps)"
  shows "map_of (fold (\<lambda>(vm_id, p). AList.update vm_id (loaded_entry p)) ps table) k =
    (case map_of ps k of Some p \<Rightarrow> Some (loaded_entry p) | None \<Rightarrow> map_of table k)"
  using assms
proof (induction ps arbitrary: table)
  case (Cons x ps)
  obtain vm_id p where x: "x = (vm_id, p)" by (cases x)
  have "map_of ps vm_id = None" using Cons.prems by (auto simp: x map_of_eq_None_iff)
  then show ?case
    using Cons by (auto simp: x update_conv' split: option.split)
qed simp

lemma distinct_load_table:
  "distinct (map fst table) \<Longrightarrow>
   distinct (map fst (fold (\<lambda>(vm_id, p). AList.update vm_id (loaded_entry p)) ps table))"
proof (induction ps arbitrary: table)
  case (Cons x ps)
  then show ?case by (cases x) (simp add: distinct_update)
qed simp

lemma map_of_sort_key:
  assumes "distinct (map fst ps)"
  shows "map_of (sort_key fst ps) k = map_of ps k"
proof -
  have d: "distinct (map fst (sort_key fst ps))"
    using assms by (metis distinct_map distinct_sort inj_on_cong set_sort distinct_map)
  have "map_of (sort_key fst ps) k = Some v \<longleftrightarrow> map_of ps k = Some v" for v
    using assms d by (simp add: map_of_eq_Some_iff)
  then show ?thesis by (metis not_Some_eq)
qed

definition persisted_table :: "codec \<Rightarrow> vm_env \<Rightarrow> vm_store \<Rightarrow> (string \<times> vm_persisted) list" where
  "persisted_table c env w = (case load_vms c env w of Inr ps \<Rightarrow> ps | Inl _ \<Rightarrow> [])"

lemma distinct_persisted_table: "distinct (map fst (persisted_table c env w))"
  by (auto simp: persisted_table_def distinct_load_vms split: sum.split)

lemma load_persisted_state_lookup:
  "map_of (fst (load_persisted_state c env w auto_restart)) k =
     map_option loaded_entry (map_of (persisted_table c env w) k)"
proof -
  have d: "distinct (map fst (sort_key fst (persisted_table c env w)))"
    using distinct_persisted_table [of c env w]
    by (metis distinct_map distinct_sort set_sort)
  show ?thesis
    using lookup_load_fold [OF d, of "[]" k] map_of_sort_key [OF distinct_persisted_table, of c env w k]
    by (simp add: load_persisted_state_def load_fold persisted_table_def [symmetric] Let_def
        split: option.split)
qed

lemma load_persisted_state_pending:
  "vm_id \<in> set (snd (load_persisted_state c env w auto_restart)) \<longleftrightarrow>
     auto_restart \<and> (\<exists>p. map_of (persisted_table c env w) vm_id = Some p
       \<and> vm_state_of (p_state p) = Some VmRunning)"
  using distinct_persisted_table [of c env w]
  by (force simp: load_persisted_state_def load_fold persisted_table_def [symmetric] Let_def image_iff
      map_of_eq_Some_iff)

lemma actor_inv_new:
  assumes "vm_actor_new c env bridge kvm auto_restart w = (a, w')"
  shows "actor_inv a"
proof -
  have vms: "vms a = fst (load_persisted_state c env w auto_restart)"
    using assms by (auto simp: vm_actor_new_def Let_def split: prod.splits)
  have "distinct (map fst (vms a))"
    unfolding vms load_persisted_state_def Let_def load_fold fst_conv by (rule distinct_load_table) simp
  then show ?thesis
    using loaded_entry_ok by (auto simp: actor_inv_def vms load_persisted_state_lookup)
qed

lemma actor_inv_restarts:
  "actor_inv a \<Longrightarrow> fold (auto_restart_vm c envs) ids (a, w) = (a', w') \<Longrightarrow> actor_inv a'"
proof (induction ids arbitrary: a w)
  case (Cons vm_id ids)
  obtain a1 w1 r where s: "handle_start c (envs vm_id) vm_id a w = (a1, w1, r)" by (metis prod_cases3)
  have "actor_inv a1" using actor_inv_start [OF Cons.prems(1) s] .
  then show ?case
    using Cons.IH [of a1 w1] Cons.prems(2) s by (simp add: auto_restart_vm_def)
qed simp

lemma actor_inv_reach: "vm_reach c a w \<Longrightarrow> actor_inv a"
proof (induction rule: vm_reach.induct)
  case (boot env bridge kvm auto_restart w a w' envs a' w'')
  have "actor_inv (a\<lparr>pending_restarts := []\<rparr>)"
    using actor_inv_new [OF boot(1)] by (simp add: actor_inv_def)
  then show ?case
    using boot(2) actor_inv_restarts by (simp add: vm_process_pending_restarts_def)
next
  case (command a w env cmd a' w' reply)
  then show ?case using actor_inv_dispatch by blast
qed

section \<open>Processes behind running machines\<close>

definition started_inv :: "vm_actor \<Rightarrow> vm_store \<Rightarrow> bool" where
  "started_inv a w \<longleftrightarrow> (\<forall>vm_id e p. map_of (vms a) vm_id = Some e \<longrightarrow> vm_status e = VmRunning \<longrightarrow>
     vm_pid e = Some p \<longrightarrow> (\<exists>driver sc. HvStarted vm_id p driver sc \<in> set (effects w)))"

lemma effects_emit [simp]: "effects (emit e w) = effects w @ [e]"
  by (simp add: emit_def)

lemma effects_remove_tap: "set (effects w) \<subseteq> set (effects (remove_tap env n w))"
  by (auto simp: remove_tap_def split: sum.split)

lemma effects_cleanup_tap: "set (effects w) \<subseteq> set (effects (cleanup_tap_on_err env n w))"
  using effects_remove_tap by (auto simp: cleanup_tap_on_err_def split: option.split)

lemma started_put:
  assumes "started_inv a w" "set (effects w) \<subseteq> set (effects w')"
    and "\<And>p. vm_status e = VmRunning \<Longrightarrow> vm_pid e = Some p \<Longrightarrow>
           \<exists>driver sc. HvStarted vm_id p driver sc \<in> set (effects w')"
  shows "started_inv (put_vm vm_id e a) w'"
proof -
  have "\<exists>driver sc. HvStarted k p driver sc \<in> set (effects w')"
    if "map_of (alter vm_id (\<lambda>_. e) (vms a)) k = Some e'" "vm_status e' = VmRunning" "vm_pid e' = Some p"
    for k e' p
  proof (cases "k = vm_id")
    case True
    then have "e' = e" using that(1) by (auto simp: map_of_alter)
    then show ?thesis using that assms(3) True by blast
  next
    case False
    then show ?thesis using that assms(1,2) by (auto simp: map_of_alter started_inv_def) blast
  qed
  then show ?thesis by (auto simp: started_inv_def put_vm_def)
qed

lemma started_mono: "started_inv a w \<Longrightarrow> set (effects w) \<subseteq> set (effects w') \<Longrightarrow> started_inv a w'"
  unfolding started_inv_def by blast

lemma started_put_idle:
  "started_inv a w \<Longrightarrow> set (effects w) \<subseteq> set (effects w') \<Longrightarrow> vm_status e \<noteq> VmRunning \<Longrightarrow>
   started_inv (put_vm vm_id e a) w'"
  by (rule started_put) auto

lemma started_launch:
  assumes "started_inv a w" "launch c env vm_id entry sc a w = (a', w', r)"
  shows "started_inv a' w'"
proof (cases "start_hypervisor env")
  case (Inr pid)
  then show ?thesis
    using assms
    by (auto simp: launch_def Let_def split: prod.splits
        intro!: started_put dest!: save_vm_effects) blast
next
  case (Inl e)
  obtain w1 s where sv: "save_vm c env vm_id (to_persisted (entry\<lparr>tap := None, vm_status := VmCreated\<rparr>)) w
      = (w1, s)" by (metis surj_pair)
  then show ?thesis
    using assms Inl effects_cleanup_tap [of w1 env "map_option tap_name (tap entry)"] save_vm_effects [OF sv]
    by (auto simp: launch_def Let_def split: sum.splits intro!: started_put_idle)
qed

lemma started_start:
  assumes "started_inv a w" "handle_start c env vm_id a w = (a', w', r)"
  shows "started_inv a' w'"
proof -
  have "started_inv a (emit x w)" for x using assms(1) by (rule started_mono) auto
  then show ?thesis
    using assms
    by (auto simp: handle_start_def Let_def intro: started_put_idle
        dest: started_launch [rotated] split: if_splits option.splits sum.splits)
qed

lemma started_finish_stop:
  assumes "started_inv a w" "finish_stop c env vm_id entry a w = (a', w', r)"
  shows "started_inv a' w'"
proof (cases "tap entry")
  case None
  then show ?thesis
    using assms
    by (auto simp: finish_stop_def Let_def split: prod.splits intro!: started_put_idle dest: save_vm_effects)
next
  case (Some t)
  obtain w1 s where sv: "save_vm c env vm_id
      (to_persisted (entry\<lparr>tap := None, vm_status := VmStopped, vm_pid := None\<rparr>)) w = (w1, s)"
    by (metis surj_pair)
  then show ?thesis
    using assms Some effects_remove_tap [of w1 env "tap_name t"] save_vm_effects [OF sv]
    by (auto simp: finish_stop_def Let_def split: sum.splits intro!: started_put_idle)
qed

lemma started_stop:
  assumes "started_inv a w" "handle_stop c env vm_id force a w = (a', w', r)"
  shows "started_inv a' w'"
proof -
  have "started_inv a (emit x w)" for x using assms(1) by (rule started_mono) auto
  then show ?thesis
    using assms
    by (auto simp: handle_stop_def Let_def intro: started_put_idle
        dest: started_finish_stop [rotated] split: if_splits option.splits sum.splits)
qed

lemma started_create:
  assumes "started_inv a w" "handle_create c env cfg a w = (a', w', r)"
  shows "started_inv a' w'"
proof -
  have idle: "started_inv (a\<lparr>vms := AList.update k e (vms a)\<rparr>) w1"
    if "vm_status e \<noteq> VmRunning" "set (effects w) \<subseteq> set (effects w1)" for k e w1
    using assms(1) that by (auto simp: started_inv_def update_conv' split: if_splits) blast
  have grow: "started_inv a1 w1" if "a = a1" "set (effects w) \<subseteq> set (effects w1)" for a1 w1
    using assms(1) that(2) unfolding that(1) by (rule started_mono)
  show ?thesis
    using assms(2)
    by (auto simp: handle_create_def Let_def intro!: idle intro: grow dest!: save_vm_effects
        split: sum.splits prod.splits)
qed

lemma started_delete:
  assumes "started_inv a w" "handle_delete env vm_id a w = (a', w', r)"
  shows "started_inv a' w'"
proof -
  have eff: "effects (fst (delete_vm env vm_id w1)) = effects w1" for w1
    by (auto simp: delete_vm_def split: sum.split)
  have gone: "started_inv (a\<lparr>vms := AList.delete vm_id (vms a)\<rparr>) w1" if "set (effects w) \<subseteq> set (effects w1)" for w1
    using assms(1) that by (auto simp: started_inv_def delete_conv' split: if_splits) blast
  show ?thesis
    using assms
    by (auto simp: handle_delete_def Let_def eff intro!: gone split: if_splits option.splits sum.splits)
qed

lemma started_dispatch:
  assumes "started_inv a w" "dispatch c env cmd a w = (a', w', r)"
  shows "started_inv a' w'"
proof -
  have "started_inv a w1" if "handle_upload_file env f d i w = (w1, s)" for w1 s f d i
    using that assms(1)
    by (auto simp: handle_upload_file_def Let_def started_inv_def split: option.splits if_splits sum.splits)
  then show ?thesis
    using assms
    by (cases cmd)
       (auto simp: Let_def split: prod.splits
         intro: started_create started_start started_stop started_delete)
qed

lemma started_restarts:
  "started_inv a w \<Longrightarrow> fold (auto_restart_vm c envs) ids (a, w) = (a', w') \<Longrightarrow> started_inv a' w'"
proof (induction ids arbitrary: a w)
  case (Cons vm_id ids)
  obtain a1 w1 r where s: "handle_start c (envs vm_id) vm_id a w = (a1, w1, r)" by (metis prod_cases3)
  have "started_inv a1 w1" using started_start [OF Cons.prems(1) s] .
  then show ?case
    using Cons.IH [of a1 w1] Cons.prems(2) s by (simp add: auto_restart_vm_def)
qed simp

lemma new_not_running:
  assumes "vm_actor_new c env bridge kvm auto_restart w = (a, w')" "map_of (vms a) vm_id = Some e"
  shows "vm_status e \<noteq> VmRunning"
proof -
  have "vms a = fst (load_persisted_state c env w auto_restart)"
    using assms(1) by (auto simp: vm_actor_new_def Let_def split: prod.splits)
  then show ?thesis using assms(2) loaded_entry_ok by (auto simp: load_persisted_state_lookup)
qed

lemma started_reach: "vm_reach c a w \<Longrightarrow> started_inv a w"
proof (induction rule: vm_reach.induct)
  case (boot env bridge kvm auto_restart w a w' envs a' w'')
  have "started_inv (a\<lparr>pending_restarts := []\<rparr>) w'"
    using new_not_running [OF boot(1)] by (auto simp: started_inv_def)
  then show ?case
    using boot(2) started_restarts by (simp add: vm_process_pending_restarts_def)
next
  case (command a w env cmd a' w' reply)
  then show ?case using started_dispatch by blast
qed

section \<open>Finding a state file again\<close>

lemma extension_stem_name:
  assumes "CHR ''/'' \<notin> set f" "extension f = Some e"
  shows "f = file_stem f @ ''.'' @ e"
proof -
  let ?P = "\<lambda>ch. ch \<noteq> CHR ''.''"
  define d where "d = dropWhile ?P (rev f)"
  have f: "file_name_of f = f" using assms(1) by (rule file_name_of_id)
  have ext: "extension f = (if length (rev d) \<le> 1 \<or> f = ''..'' then None else Some (rev (takeWhile ?P (rev f))))"
    and stem: "file_stem f = (if length (rev d) \<le> 1 \<or> f = ''..'' then f else butlast (rev d))"
    unfolding extension_def file_stem_def Let_def f d_def by (rule refl)+
  have long: "\<not> (length (rev d) \<le> 1 \<or> f = ''..'')" and e: "e = rev (takeWhile ?P (rev f))"
    using assms(2) unfolding ext by (simp_all split: if_splits)
  then have "d \<noteq> []" by auto
  then have "hd d = CHR ''.''" using hd_dropWhile [of ?P "rev f"] by (simp add: d_def)
  then obtain ds where ds: "d = CHR ''.'' # ds" using \<open>d \<noteq> []\<close> by (cases d) auto
  have "file_stem f = rev ds" using long unfolding stem by (simp add: ds)
  moreover have "rev f = takeWhile ?P (rev f) @ d" unfolding d_def by simp
  then have "f = rev d @ e" unfolding e by (metis rev_append rev_rev_ident)
  ultimately show ?thesis by (simp add: ds)
qed

definition store_ok :: "vm_store \<Rightarrow> bool" where
  "store_ok w \<longleftrightarrow> distinct (map fst (state_files w)) \<and> (\<forall>f \<in> fst ` set (state_files w). CHR ''/'' \<notin> set f)"

text \<open>The file system answers a reader of the state directory as it should.\<close>

definition readable_env :: "vm_env \<Rightarrow> bool" where
  "readable_env env \<longleftrightarrow> path_exists env VMS_DIR \<and> is_ok (state_dir env) \<and> (\<forall>f. state_readable env f)"

lemma load_fold_other:
  "(\<And>f. f \<in> set files \<Longrightarrow> \<not> (extension (fst f) = Some ''json'' \<and> file_stem (fst f) = k)) \<Longrightarrow>
   map_of (fold (load_entry c env) files acc) k = map_of acc k"
  by (induction files arbitrary: acc) (auto simp: load_entry_lookup)

lemma persisted_table_lookup:
  assumes "store_ok w" "readable_env env" "from_json c (to_json c p) = Ok p"
    and "vm_id \<noteq> []" "CHR ''/'' \<notin> set vm_id"
    and "map_of (state_files w) (state_file_name vm_id) = Some (to_json c p)"
  shows "map_of (persisted_table c env w) vm_id = Some p"
proof -
  let ?f = "state_file_name vm_id"
  have name: "extension ?f = Some ''json''" "file_stem ?f = vm_id"
    using stem_and_extension [of vm_id "''json''"] assms(4,5) by (simp_all add: state_file_name_def)
  obtain us vs where split: "state_files w = us @ (?f, to_json c p) # vs"
    using map_of_SomeD [OF assms(6)] by (meson split_list)
  have other: "\<not> (extension (fst g) = Some ''json'' \<and> file_stem (fst g) = vm_id)"
    if "g \<in> set vs" for g
  proof
    assume "extension (fst g) = Some ''json'' \<and> file_stem (fst g) = vm_id"
    moreover have "CHR ''/'' \<notin> set (fst g)" using assms(1) that by (auto simp: store_ok_def split)
    ultimately have "fst g = ?f" using extension_stem_name by (force simp: state_file_name_def)
    then show False using assms(1) that by (auto simp: store_ok_def split image_iff)
  qed
  have "map_of (fold (load_entry c env) vs
      (load_entry c env (?f, to_json c p) (fold (load_entry c env) us []))) vm_id = Some p"
    using assms(2,3) name
    by (subst load_fold_other [OF other]) (auto simp: load_entry_lookup load_vm_from_path_def readable_env_def)
  then show ?thesis
    using assms(2)
    by (auto simp: persisted_table_def load_vms_def readable_env_def split is_ok_iff)
qed

end
