(* ===== verification/Workload_Ipc.thy ===== *)
theory Workload_Ipc
  imports Workload_Actor
begin

text \<open>
  The gRPC front of the workload daemon (\<open>services/workloadd/src/ipc/mod.rs\<close>) over the handle of
  \<open>actor/mod.rs\<close>.  A call sends one command and waits for its reply, so on a live actor it is one
  \<^const>\<open>dispatch\<close>; failures of the command travel inside the response, not as a status.
\<close>

datatype status = InvalidArgument string | Internal string | StreamFailed string

record create_vm_response =
  cr_vm_id :: string
  cr_error :: string

record outcome_response =
  or_success :: bool
  or_error :: string

record get_vm_response =
  gr_vm :: "vm_info option"
  gr_error :: string

record upload_file_response =
  ur_path :: string
  ur_error :: string

record serial_log_response =
  sl_output :: string
  sl_error :: string

type_synonym 'r rpc = "vm_actor \<times> vm_store \<times> (status + 'r)"

definition create_vm ::
    "codec \<Rightarrow> vm_env \<Rightarrow> vm_config option \<Rightarrow> vm_actor \<Rightarrow> vm_store \<Rightarrow> create_vm_response rpc" where
  "create_vm c env cfg a w =
     (case cfg of
        None \<Rightarrow> (a, w, Err (InvalidArgument ''config is required''))
      | Some cfg \<Rightarrow>
          (case dispatch c env (CmdCreate cfg) a w of
             (a, w, ReplyText (Inr vm_id)) \<Rightarrow> (a, w, Ok \<lparr>cr_vm_id = vm_id, cr_error = []\<rparr>)
           | (a, w, ReplyText (Inl e)) \<Rightarrow>
               (a, w, Ok \<lparr>cr_vm_id = [], cr_error = ''Failed to create VM: '' @ e\<rparr>)
           | (a, w, _) \<Rightarrow> (a, w, Err (Internal []))))"

text \<open>\<open>start_vm\<close>, \<open>stop_vm\<close> and \<open>delete_vm\<close> differ in the command and the prefix of the message.\<close>

definition outcome :: "string \<Rightarrow> vm_actor \<times> vm_store \<times> vm_reply \<Rightarrow> outcome_response rpc" where
  "outcome prefix r =
     (case r of
        (a, w, ReplyUnit (Inr _)) \<Rightarrow> (a, w, Ok \<lparr>or_success = True, or_error = []\<rparr>)
      | (a, w, ReplyUnit (Inl e)) \<Rightarrow> (a, w, Ok \<lparr>or_success = False, or_error = prefix @ e\<rparr>)
      | (a, w, _) \<Rightarrow> (a, w, Err (Internal [])))"

definition start_vm :: "codec \<Rightarrow> vm_env \<Rightarrow> string \<Rightarrow> vm_actor \<Rightarrow> vm_store \<Rightarrow> outcome_response rpc" where
  "start_vm c env vm_id a w = outcome ''Failed to start VM: '' (dispatch c env (CmdStart vm_id) a w)"

definition stop_vm ::
    "codec \<Rightarrow> vm_env \<Rightarrow> string \<Rightarrow> bool \<Rightarrow> vm_actor \<Rightarrow> vm_store \<Rightarrow> outcome_response rpc" where
  "stop_vm c env vm_id force a w =
     outcome ''Failed to stop VM: '' (dispatch c env (CmdStop vm_id force) a w)"

definition rpc_delete_vm :: "codec \<Rightarrow> vm_env \<Rightarrow> string \<Rightarrow> vm_actor \<Rightarrow> vm_store \<Rightarrow> outcome_response rpc" where
  "rpc_delete_vm c env vm_id a w =
     outcome ''Failed to delete VM: '' (dispatch c env (CmdDelete vm_id) a w)"

definition get_vm :: "codec \<Rightarrow> vm_env \<Rightarrow> string \<Rightarrow> vm_actor \<Rightarrow> vm_store \<Rightarrow> get_vm_response rpc" where
  "get_vm c env vm_id a w =
     (case dispatch c env (CmdGet vm_id) a w of
        (a, w, ReplyInfo (Inr vm)) \<Rightarrow> (a, w, Ok \<lparr>gr_vm = Some vm, gr_error = []\<rparr>)
      | (a, w, ReplyInfo (Inl e)) \<Rightarrow> (a, w, Ok \<lparr>gr_vm = None, gr_error = ''VM not found: '' @ e\<rparr>)
      | (a, w, _) \<Rightarrow> (a, w, Err (Internal [])))"

definition list_vms :: "codec \<Rightarrow> vm_env \<Rightarrow> vm_actor \<Rightarrow> vm_store \<Rightarrow> vm_info list rpc" where
  "list_vms c env a w =
     (case dispatch c env CmdList a w of
        (a, w, ReplyInfos (Inr infos)) \<Rightarrow> (a, w, Ok infos)
      | (a, w, ReplyInfos (Inl e)) \<Rightarrow> (a, w, Err (Internal (''Failed to list VMs: '' @ e)))
      | (a, w, _) \<Rightarrow> (a, w, Err (Internal [])))"

text \<open>The upload stream: metadata and chunks in any order, or a broken stream.\<close>

datatype upload_message = Metadata string string int | Chunk string | NoMessage

record upload_state =
  up_filename :: string
  up_vm_id :: "string option"
  up_data :: string

definition upload_start :: upload_state where
  "upload_start = \<lparr>up_filename = [], up_vm_id = None, up_data = []\<rparr>"

fun collect_upload :: "(string + upload_message) list \<Rightarrow> upload_state \<Rightarrow> status + upload_state" where
  "collect_upload [] st = Ok st"
| "collect_upload (Inl e # ms) st = Err (StreamFailed e)"
| "collect_upload (Inr (Metadata filename vm_id sz) # ms) st =
     collect_upload ms (st\<lparr>up_filename := filename,
                           up_vm_id := (if vm_id \<noteq> [] then Some vm_id else up_vm_id st)\<rparr>)"
| "collect_upload (Inr (Chunk bs) # ms) st = collect_upload ms (st\<lparr>up_data := up_data st @ bs\<rparr>)"
| "collect_upload (Inr NoMessage # ms) st = collect_upload ms st"

definition upload_file ::
    "codec \<Rightarrow> vm_env \<Rightarrow> (string + upload_message) list \<Rightarrow> vm_actor \<Rightarrow> vm_store \<Rightarrow> upload_file_response rpc" where
  "upload_file c env ms a w =
     (case collect_upload ms upload_start of
        Inl s \<Rightarrow> (a, w, Err s)
      | Inr st \<Rightarrow>
          if up_filename st = [] then (a, w, Err (InvalidArgument ''filename is required''))
          else (case dispatch c env (CmdUploadFile (up_filename st) (up_data st) (up_vm_id st)) a w of
                  (a, w, ReplyText (Inr path)) \<Rightarrow> (a, w, Ok \<lparr>ur_path = path, ur_error = []\<rparr>)
                | (a, w, ReplyText (Inl e)) \<Rightarrow>
                    (a, w, Ok \<lparr>ur_path = [], ur_error = ''Failed to upload file: '' @ e\<rparr>)
                | (a, w, _) \<Rightarrow> (a, w, Err (Internal []))))"

definition get_vm_serial_log ::
    "codec \<Rightarrow> vm_env \<Rightarrow> string \<Rightarrow> int \<Rightarrow> vm_actor \<Rightarrow> vm_store \<Rightarrow> serial_log_response rpc" where
  "get_vm_serial_log c env vm_id tail_lines a w =
     (case dispatch c env (CmdGetSerialLog vm_id tail_lines) a w of
        (a, w, ReplyText (Inr out)) \<Rightarrow> (a, w, Ok \<lparr>sl_output = out, sl_error = []\<rparr>)
      | (a, w, ReplyText (Inl e)) \<Rightarrow>
          (a, w, Ok \<lparr>sl_output = [], sl_error = ''Failed to get serial log: '' @ e\<rparr>)
      | (a, w, _) \<Rightarrow> (a, w, Err (Internal [])))"

text \<open>What the stream carried: all chunks in order, and the last file name.\<close>

definition chunk_bytes :: "(string + upload_message) list \<Rightarrow> string" where
  "chunk_bytes ms = concat (map (\<lambda>m. case m of Inr (Chunk bs) \<Rightarrow> bs | _ \<Rightarrow> []) ms)"

lemma collect_upload_data:
  "collect_upload ms st = Ok st' \<Longrightarrow> up_data st' = up_data st @ chunk_bytes ms"
  by (induction ms st rule: collect_upload.induct) (auto simp: chunk_bytes_def)

end
