(* ===== verification/Workload_Properties.thy ===== *)
theory Workload_Properties
  imports Workload_Safety Workload_Ipc
begin

text \<open>
  The properties of the workload daemon: what holds of every machine in every reachable state, what
  starting does on each outcome, what survives a restart of the daemon, which disks start-up deletes,
  and where an upload is written.
\<close>

section \<open>A demonstration machine\<close>

definition demo_config :: vm_config where
  "demo_config = \<lparr>vm_name = ''web'', cpus = 2, memory_mb = 512, kernel = [], initrd = [],
     cmdline = ''console=ttyS0'', disks = [], hypervisor = 3, root_disk_size_mb = 1024\<rparr>"

definition demo_entry :: vm_entry where
  "demo_entry = \<lparr>config = demo_config, vm_status = VmCreated, vm_pid = None, tap = None,
     created_at = 100, started_at = None\<rparr>"

definition demo_actor :: vm_actor where
  "demo_actor = \<lparr>bridge_name = ''br0'', vms = [(''vm1'', demo_entry)], pending_restarts = [],
     kvm_available = True\<rparr>"

definition demo_vm_env :: vm_env where
  "demo_vm_env = \<lparr>new_uuid = ''vm1'', epoch_secs = Some 200, create_subvol = Ok (), set_quota = Ok (),
     create_image = Ok (), write_state = Ok (), remove_state = Ok (), state_dir = Ok (),
     state_readable = (\<lambda>_. True), list_subvols = Ok [], delete_subvol = (\<lambda>_. Ok ()), setup_tap = Ok (),
     delete_tap = Ok (), start_hypervisor = Ok 77, stop_hypervisor = Ok (), path_exists = (\<lambda>_. True),
     write_file = Ok (), read_log = Ok [], usage_of = (\<lambda>_. None)\<rparr>"

definition demo_tap :: tap_device where
  "demo_tap = tap_for \<lparr>to_json = (\<lambda>_. []), from_json = (\<lambda>_. Err []), sha256 = (\<lambda>_. [])\<rparr> ''vm1''"

definition demo_running :: vm_entry where
  "demo_running = demo_entry\<lparr>vm_status := VmRunning, vm_pid := Some 77, tap := Some demo_tap,
     started_at := Some 200\<rparr>"

definition demo_codec :: codec where
  "demo_codec = \<lparr>to_json = (\<lambda>_. ''{}''), from_json = (\<lambda>_. Ok (to_persisted demo_running)),
     sha256 = (\<lambda>_. [])\<rparr>"

definition demo_store :: vm_store where
  "demo_store = \<lparr>state_files = [], effects = []\<rparr>"

lemma demo_codec_simps:
  "to_json demo_codec p = ''{}''" "from_json demo_codec s = Ok (to_persisted demo_running)"
  by (simp_all add: demo_codec_def)

lemma tap_for_sha: "sha256 c = sha256 c' \<Longrightarrow> tap_for c vm_id = tap_for c' vm_id"
  by (simp add: tap_for_def)

lemma demo_tap_codec: "tap_for demo_codec ''vm1'' = demo_tap"
  unfolding demo_tap_def by (rule tap_for_sha) (simp add: demo_codec_def)

definition demo_started :: "vm_actor \<times> vm_store \<times> (string + unit)" where
  "demo_started = handle_start demo_codec demo_vm_env ''vm1'' demo_actor demo_store"

lemma demo_started_result:
  "fst demo_started = demo_actor\<lparr>vms := [(''vm1'', demo_running)]\<rparr>"
  "state_files (fst (snd demo_started)) = [(''vm1.json'', ''{}'')]"
  "snd (snd demo_started) = Ok ()"
  by (simp_all add: demo_started_def handle_start_def demo_actor_def demo_vm_env_def demo_entry_def
      demo_config_def resolve_assets_def resolve_boot_asset_def launch_def save_vm_def put_vm_def alter_def
      demo_store_def emit_def state_file_name_def demo_codec_simps Let_def now_secs_def demo_running_def
      demo_tap_codec)

lemma demo_reach: "vm_reach demo_codec
   \<lparr>bridge_name = ''br0'', vms = [], pending_restarts = [], kvm_available = True\<rparr> demo_store"
proof (rule vm_reach.boot)
  show "vm_actor_new demo_codec demo_vm_env ''br0'' True True demo_store =
      (\<lparr>bridge_name = ''br0'', vms = [], pending_restarts = [], kvm_available = True\<rparr>, demo_store)"
    by (simp add: vm_actor_new_def load_persisted_state_def load_vms_def cleanup_orphaned_disks_def
        demo_vm_env_def demo_store_def)
  show "vm_process_pending_restarts demo_codec (\<lambda>_. demo_vm_env)
      \<lparr>bridge_name = ''br0'', vms = [], pending_restarts = [], kvm_available = True\<rparr> demo_store =
      (\<lparr>bridge_name = ''br0'', vms = [], pending_restarts = [], kvm_available = True\<rparr>, demo_store)"
    by (simp add: vm_process_pending_restarts_def)
qed

definition demo_one :: "vm_actor \<times> vm_store \<times> vm_reply" where
  "demo_one = dispatch demo_codec demo_vm_env (CmdCreate demo_config)
     \<lparr>bridge_name = ''br0'', vms = [], pending_restarts = [], kvm_available = True\<rparr> demo_store"

definition demo_two :: "vm_actor \<times> vm_store \<times> vm_reply" where
  "demo_two = dispatch demo_codec demo_vm_env (CmdStart ''vm1'') (fst demo_one) (fst (snd demo_one))"

lemma demo_one_vms: "vms (fst demo_one) = [(''vm1'', demo_entry\<lparr>created_at := 200\<rparr>)]"
  "kvm_available (fst demo_one)"
  by (simp_all add: demo_one_def handle_create_def demo_vm_env_def demo_entry_def demo_config_def
      save_vm_def now_secs_def Let_def)

lemma demo_two_running:
  "map_of (vms (fst demo_two)) ''vm1'' = Some (demo_running\<lparr>created_at := 200\<rparr>)"
  by (simp add: demo_two_def handle_start_def demo_one_vms demo_vm_env_def demo_entry_def demo_config_def
      resolve_assets_def resolve_boot_asset_def launch_def save_vm_def put_vm_def alter_def
      demo_running_def Let_def now_secs_def demo_tap_codec)

lemma demo_two_reach: "vm_reach demo_codec (fst demo_two) (fst (snd demo_two))"
proof -
  have "vm_reach demo_codec (fst demo_one) (fst (snd demo_one))"
    using vm_reach.command [OF demo_reach] by (metis demo_one_def prod.collapse)
  then show ?thesis
    using vm_reach.command by (metis demo_two_def prod.collapse)
qed

section \<open>Machines\<close>

text \<open>
  C10: In every state the daemon can reach from any contents of its state directory, through automatic
  restarts and any sequence of commands and answers of the operating system, machine ids are unique,
  and a machine reported as running has a network device, a start time and the process id of a
  hypervisor that this daemon started for that very machine.
\<close>

theorem vm_running_has_process:
  assumes "vm_reach c a w"
  shows "distinct (map fst (vms a)) \<and>
    (\<forall>vm_id e. map_of (vms a) vm_id = Some e \<and> vm_status e = VmRunning \<longrightarrow>
       tap e \<noteq> None \<and> started_at e \<noteq> None \<and>
       (\<exists>pid driver sc. vm_pid e = Some pid \<and> HvStarted vm_id pid driver sc \<in> set (effects w)))"
proof -
  have "tap e \<noteq> None \<and> started_at e \<noteq> None \<and>
      (\<exists>pid driver sc. vm_pid e = Some pid \<and> HvStarted vm_id pid driver sc \<in> set (effects w))"
    if e: "map_of (vms a) vm_id = Some e" "vm_status e = VmRunning" for vm_id e
  proof -
    have ok: "vm_pid e \<noteq> None" "tap e \<noteq> None" "started_at e \<noteq> None"
      using actor_inv_reach [OF assms] e unfolding actor_inv_def entry_ok_def by blast+
    then obtain pid where pid: "vm_pid e = Some pid" by blast
    moreover from pid have "\<exists>driver sc. HvStarted vm_id pid driver sc \<in> set (effects w)"
      using started_reach [OF assms] e unfolding started_inv_def by blast
    ultimately show ?thesis using ok by blast
  qed
  then show ?thesis using actor_inv_reach [OF assms] unfolding actor_inv_def by blast
qed

theorem vm_running_has_process_witness:
  "\<exists>driver sc. HvStarted ''vm1'' 77 driver sc \<in> set (effects (fst (snd demo_two)))"
proof -
  have "map_of (vms (fst demo_two)) ''vm1'' = Some (demo_running\<lparr>created_at := 200\<rparr>)
      \<and> vm_status (demo_running\<lparr>created_at := 200\<rparr>) = VmRunning"
    using demo_two_running by (simp add: demo_running_def)
  note proc = vm_running_has_process [OF demo_two_reach, THEN conjunct2, rule_format, OF this]
  have "vm_pid (demo_running\<lparr>created_at := 200\<rparr>) = Some 77" by (simp add: demo_running_def)
  then show ?thesis using proc by auto
qed



text \<open>
  C12: A machine survives a crash of the daemon.  After a start that reported success, a new daemon
  that reads the state directory knows the machine with the same configuration and times, stopped and
  without process or device, and queues it for a restart exactly when automatic restarts are enabled.
  The JSON library is assumed to decode what it encoded for this machine.
\<close>

theorem crash_recovery:
  assumes "handle_start c env vm_id a w = (a', w', Ok ())" "map_of (vms a') vm_id = Some e"
    and "from_json c (to_json c (to_persisted e)) = Ok (to_persisted e)"
    and "store_ok w'" "readable_env env'" "vm_id \<noteq> []" "CHR ''/'' \<notin> set vm_id"
    and "vm_actor_new c env' bridge kvm auto_restart w' = (b, w'')"
  shows "map_of (vms b) vm_id = Some (e\<lparr>vm_pid := None, vm_status := VmStopped, tap := None\<rparr>)
    \<and> (vm_id \<in> set (pending_restarts b) \<longleftrightarrow> auto_restart)"
proof -
  have e: "vm_status e = VmRunning"
    and stored: "map_of (state_files w') (state_file_name vm_id) = Some (to_json c (to_persisted e))"
    using assms(1,2)
    by (auto simp: handle_start_def launch_def save_vm_def put_vm_def map_of_alter Let_def update_conv'
        split: if_splits option.splits sum.splits)
  have t: "map_of (persisted_table c env' w') vm_id = Some (to_persisted e)"
    using persisted_table_lookup assms(3-7) stored by blast
  have b: "vms b = fst (load_persisted_state c env' w' auto_restart)"
    "pending_restarts b = snd (load_persisted_state c env' w' auto_restart)"
    using assms(8) by (auto simp: vm_actor_new_def Let_def split: prod.splits)
  have "p_state (to_persisted e) = vm_state_code VmRunning" by (simp add: to_persisted_def e)
  then have "vm_state_of (p_state (to_persisted e)) = Some VmRunning" by (simp only: vm_state_of_code)
  then show ?thesis
    using t
    by (simp add: b load_persisted_state_lookup load_persisted_state_pending loaded_entry_def
        from_to_persisted)
qed

theorem crash_recovery_witness:
  "\<exists>b w''. vm_actor_new demo_codec demo_vm_env ''br0'' True True (fst (snd demo_started)) = (b, w'')
     \<and> ''vm1'' \<in> set (pending_restarts b)"
proof -
  obtain b w'' where new: "vm_actor_new demo_codec demo_vm_env ''br0'' True True (fst (snd demo_started)) = (b, w'')"
    by (metis surj_pair)
  have start: "handle_start demo_codec demo_vm_env ''vm1'' demo_actor demo_store =
      (fst demo_started, fst (snd demo_started), Ok ())"
    using demo_started_result(3) by (metis demo_started_def prod.collapse)
  have "map_of (vms (fst demo_started)) ''vm1'' = Some demo_running" by (simp add: demo_started_result)
  moreover have "from_json demo_codec (to_json demo_codec (to_persisted demo_running)) = Ok (to_persisted demo_running)"
    by (simp add: demo_codec_simps)
  moreover have "store_ok (fst (snd demo_started))" by (simp add: store_ok_def demo_started_result)
  moreover have "readable_env demo_vm_env" by (simp add: readable_env_def demo_vm_env_def)
  ultimately show ?thesis
    using crash_recovery [OF start _ _ _ _ _ _ new] new by auto
qed

text \<open>
  C13: Start-up deletes the disk of every machine whose state was not loaded, and no other disk: the
  effects of building the actor are the deletions of exactly those listed disks that have no loaded
  state file, in the order of the listing.  A state file that cannot be read or decoded therefore
  costs the machine its disk.
\<close>

theorem startup_deletes_unknown_disks:
  assumes "vm_actor_new c env bridge kvm auto_restart w = (a, w')" "list_subvols env = Ok ids"
    and "\<forall>vm_id. is_ok (delete_subvol env vm_id)"
  shows "effects w' = effects w @
    map SubvolDeleted (filter (\<lambda>vm_id. map_of (persisted_table c env w) vm_id = None) ids)"
proof -
  have f: "effects (fold (delete_orphaned_disk env) xs w1) = effects w1 @ map SubvolDeleted xs" for xs w1
    using assms(3)
    by (induction xs arbitrary: w1) (auto simp: delete_orphaned_disk_def emit_def is_ok_def split: sum.splits)
  have "w' = cleanup_orphaned_disks env (fst (load_persisted_state c env w auto_restart)) w"
    using assms(1) by (auto simp: vm_actor_new_def Let_def split: prod.splits)
  then show ?thesis
    by (simp add: cleanup_orphaned_disks_def f assms(2) load_persisted_state_lookup)
qed

definition unreadable_env :: vm_env where
  "unreadable_env = demo_vm_env\<lparr>state_readable := (\<lambda>_. False), list_subvols := Ok [''vm1'']\<rparr>"

theorem startup_deletes_unknown_disks_witness:
  "\<exists>a w'. vm_actor_new demo_codec unreadable_env ''br0'' True True (fst (snd demo_started)) = (a, w')
     \<and> SubvolDeleted ''vm1'' \<in> set (effects w')"
proof -
  obtain a w' where new: "vm_actor_new demo_codec unreadable_env ''br0'' True True (fst (snd demo_started)) = (a, w')"
    by (metis surj_pair)
  have "persisted_table demo_codec unreadable_env (fst (snd demo_started)) = []"
    by (simp add: persisted_table_def load_vms_def load_entry_def load_vm_from_path_def demo_started_result
        unreadable_env_def demo_vm_env_def)
  then show ?thesis
    using startup_deletes_unknown_disks [OF new, of "[''vm1'']"] new
    by (simp add: unreadable_env_def demo_vm_env_def)
qed



section \<open>Uploads\<close>

text \<open>
  Where an upload is written.  The file name cannot leave its directory, since separators are
  replaced; for a relative machine id the file lands under the data directory, but an absolute
  machine id, which is not checked against the known machines, replaces the data directory.
\<close>

lemma upload_path:
  assumes "filename \<noteq> []" "vm_id \<noteq> []" "last vm_id \<noteq> CHR ''/''"
    and "handle_upload_file env filename data (Some vm_id) w = (w', Ok path)"
  shows "path = (if hd vm_id = CHR ''/'' then vm_id else DATA_DIR @ ''/'' @ vm_id) @ ''/'' @ safe_filename filename
    \<and> CHR ''/'' \<notin> set (safe_filename filename)
    \<and> effects w' = effects w @ [FileWritten path data]"
proof -
  have safe: "safe_filename filename \<noteq> []" "hd (safe_filename filename) \<noteq> CHR ''/''"
    "CHR ''/'' \<notin> set (safe_filename filename)"
    using assms(1) by (auto simp: safe_filename_def hd_map)
  have "path_join (path_join DATA_DIR vm_id) (safe_filename filename) =
      (if hd vm_id = CHR ''/'' then vm_id else DATA_DIR @ ''/'' @ vm_id) @ ''/'' @ safe_filename filename"
    using safe assms(2,3) by (simp add: path_join_def )
  then show ?thesis
    using assms(4) safe(3)
    by (auto simp: handle_upload_file_def Let_def emit_def split: if_splits sum.splits)
qed

text \<open>
  An upload call writes all chunks of its stream, in order, whatever metadata arrives between them,
  and nothing when the stream breaks or names no file.
\<close>

lemma upload_collects_chunks:
  assumes "upload_file c env ms a w = (a', w', Ok r)" "ur_error r = []"
  shows "a' = a \<and> effects w' = effects w @ [FileWritten (ur_path r) (chunk_bytes ms)]"
proof -
  obtain st where st: "collect_upload ms upload_start = Ok st"
    using assms(1) by (auto simp: upload_file_def split: sum.splits)
  then have "up_data st = chunk_bytes ms" using collect_upload_data by (force simp: upload_start_def)
  then show ?thesis
    using assms st
    by (auto simp: upload_file_def handle_upload_file_def Let_def emit_def
        split: if_splits sum.splits option.splits)
qed

end
