(* ===== verification/Permission.thy ===== *)
theory Permission
  imports Rust_Strings
begin

text \<open>
  Permissions and the authorization state: \<open>libs/config/src/permission.rs\<close> (names, categories,
  wildcard patterns) and \<open>libs/config/src/auth.rs\<close> (users, revoked certificates, and the cache over
  the state file with its modification time).  The TOML decoder and the file system are parameters.
\<close>

section \<open>Permissions\<close>

datatype permission =
  Admin | VmRead | VmCreate | VmStart | VmStop | VmDelete | VmUpload | AuthManage | SystemRead
  | SystemUpdate | ProcessRead | SecurityRead

definition CATEGORIES :: "string list" where
  "CATEGORIES = [''vm'', ''system'', ''auth'', ''process'', ''security'']"

fun permission_fmt :: "permission \<Rightarrow> string" where
  "permission_fmt Admin = ''admin''"
| "permission_fmt VmRead = ''vm:read''"
| "permission_fmt VmCreate = ''vm:create''"
| "permission_fmt VmStart = ''vm:start''"
| "permission_fmt VmStop = ''vm:stop''"
| "permission_fmt VmDelete = ''vm:delete''"
| "permission_fmt VmUpload = ''vm:upload''"
| "permission_fmt AuthManage = ''auth:manage''"
| "permission_fmt SystemRead = ''system:read''"
| "permission_fmt SystemUpdate = ''system:update''"
| "permission_fmt ProcessRead = ''process:read''"
| "permission_fmt SecurityRead = ''security:read''"

definition permission_from_str :: "string \<Rightarrow> string + permission" where
  "permission_from_str s =
     (if s = ''admin'' then Ok Admin
      else if s = ''vm:read'' then Ok VmRead
      else if s = ''vm:create'' then Ok VmCreate
      else if s = ''vm:start'' then Ok VmStart
      else if s = ''vm:stop'' then Ok VmStop
      else if s = ''vm:delete'' then Ok VmDelete
      else if s = ''vm:upload'' then Ok VmUpload
      else if s = ''auth:manage'' then Ok AuthManage
      else if s = ''system:read'' then Ok SystemRead
      else if s = ''system:update'' then Ok SystemUpdate
      else if s = ''process:read'' then Ok ProcessRead
      else if s = ''security:read'' then Ok SecurityRead
      else Err (''Unknown permission: '' @ s))"

definition all_in_category :: "string \<Rightarrow> permission list" where
  "all_in_category cat =
     (if cat = ''vm'' then [VmRead, VmCreate, VmStart, VmStop, VmDelete, VmUpload]
      else if cat = ''system'' then [SystemRead, SystemUpdate]
      else if cat = ''auth'' then [AuthManage]
      else if cat = ''process'' then [ProcessRead]
      else if cat = ''security'' then [SecurityRead]
      else [])"

fun join_with :: "string \<Rightarrow> string list \<Rightarrow> string" where
  "join_with sep [] = []"
| "join_with sep [s] = s"
| "join_with sep (s # t # ts) = s @ sep @ join_with sep (t # ts)"

definition expand_pattern :: "string \<Rightarrow> string + permission list" where
  "expand_pattern pattern =
     (case strip_suffix '':*'' pattern of
        None \<Rightarrow> and_then (permission_from_str pattern) (\<lambda>perm. Ok [perm])
      | Some cat \<Rightarrow>
          let perms = all_in_category cat
          in if perms = []
             then Err (''Unknown permission category: '' @ [CHR 0x27] @ cat
                       @ [CHR 0x27] @ ''. Valid categories: '' @ join_with '', '' CATEGORIES)
             else Ok perms)"

fun permission_category :: "permission \<Rightarrow> string option" where
  "permission_category Admin = None"
| "permission_category VmRead = Some ''vm''"
| "permission_category VmCreate = Some ''vm''"
| "permission_category VmStart = Some ''vm''"
| "permission_category VmStop = Some ''vm''"
| "permission_category VmDelete = Some ''vm''"
| "permission_category VmUpload = Some ''vm''"
| "permission_category AuthManage = Some ''auth''"
| "permission_category SystemRead = Some ''system''"
| "permission_category SystemUpdate = Some ''system''"
| "permission_category ProcessRead = Some ''process''"
| "permission_category SecurityRead = Some ''security''"

text \<open>\<open>collapse\<close>: the loop over the categories, then the rest sorted without duplicates.\<close>

definition complete_categories :: "permission list \<Rightarrow> string list" where
  "complete_categories perms =
     filter (\<lambda>cat. list_all (\<lambda>perm. perm \<in> set perms) (all_in_category cat)) CATEGORIES"

definition handled :: "permission list \<Rightarrow> permission list" where
  "handled perms = concat (map all_in_category (complete_categories perms))"

fun dedup :: "'a list \<Rightarrow> 'a list" where
  "dedup [] = []"
| "dedup [x] = [x]"
| "dedup (x # y # ys) = (if x = y then dedup (y # ys) else x # dedup (y # ys))"

definition collapse :: "permission list \<Rightarrow> string list" where
  "collapse perms =
     (if Admin \<in> set perms then [''admin'']
      else map (\<lambda>cat. cat @ '':*'') (complete_categories perms)
           @ dedup (sort (map permission_fmt (filter (\<lambda>perm. perm \<notin> set (handled perms)) perms))))"

section \<open>Authorization state\<close>

record auth_user =
  fingerprint :: string
  permissions :: "permission list"

record auth_state =
  users :: "auth_user list"
  revoked :: "string list"

definition auth_default :: auth_state where
  "auth_default = \<lparr>users = [], revoked = []\<rparr>"

text \<open>
  The state file as the process sees it at one moment: absent, or its text (or a read error) and its
  modification time in whole seconds since the epoch.
\<close>

record auth_file =
  file_text :: "string + string"
  file_secs :: nat

record auth_cache =
  cached :: auth_state
  cached_mtime :: nat

definition load_from_path :: "(string \<Rightarrow> string + auth_state) \<Rightarrow> auth_file option \<Rightarrow> string + auth_state" where
  "load_from_path toml f =
     (case f of
        None \<Rightarrow> Ok auth_default
      | Some f \<Rightarrow> and_then (file_text f) toml)"

definition file_mtime :: "auth_file option \<Rightarrow> nat" where
  "file_mtime f = (case f of None \<Rightarrow> 0 | Some f \<Rightarrow> file_secs f)"

definition auth_init :: "(string \<Rightarrow> string + auth_state) \<Rightarrow> auth_file option \<Rightarrow> string + auth_cache" where
  "auth_init toml f =
     (case f of
        None \<Rightarrow> Ok \<lparr>cached = auth_default, cached_mtime = 0\<rparr>
      | Some _ \<Rightarrow>
          and_then (load_from_path toml f) (\<lambda>st. Ok \<lparr>cached = st, cached_mtime = file_mtime f\<rparr>))"

definition load_with_mtime :: "(string \<Rightarrow> string + auth_state) \<Rightarrow> auth_file option \<Rightarrow> auth_state \<times> nat" where
  "load_with_mtime toml f =
     ((case load_from_path toml f of Inr st \<Rightarrow> st | Inl _ \<Rightarrow> auth_default), file_mtime f)"

text \<open>\<open>try_current\<close>: the state to use and the cache afterwards, if the cache was initialised.\<close>

definition try_current ::
    "(string \<Rightarrow> string + auth_state) \<Rightarrow> auth_file option \<Rightarrow> auth_cache option \<Rightarrow>
     (auth_state \<times> auth_cache) option" where
  "try_current toml f cache =
     (case cache of
        None \<Rightarrow> None
      | Some ca \<Rightarrow>
          if file_mtime f \<noteq> cached_mtime ca
          then let (st, mtime) = load_with_mtime toml f
               in Some (st, \<lparr>cached = st, cached_mtime = mtime\<rparr>)
          else Some (cached ca, ca))"

section \<open>Names and patterns\<close>

lemma permission_round_trip: "permission_from_str (permission_fmt p) = Ok p"
  by (cases p) (simp_all add: permission_from_str_def)

lemma permission_from_str_Ok: "permission_from_str s = Ok p \<Longrightarrow> permission_fmt p = s"
  by (auto simp: permission_from_str_def split: if_splits)

lemma permission_fmt_no_wildcard: "strip_suffix '':*'' (permission_fmt p) = None"
  by (cases p) (simp_all add: strip_suffix_def)

lemma expand_permission: "expand_pattern (permission_fmt p) = Ok [p]"
  by (simp add: expand_pattern_def permission_fmt_no_wildcard permission_round_trip)

lemma expand_wildcard:
  "cat \<in> set CATEGORIES \<Longrightarrow> expand_pattern (cat @ '':*'') = Ok (all_in_category cat)"
  by (auto simp: expand_pattern_def CATEGORIES_def all_in_category_def strip_suffix_def)

lemma category_members:
  "cat \<in> set CATEGORIES \<Longrightarrow> p \<in> set (all_in_category cat) \<longleftrightarrow> permission_category p = Some cat"
  by (cases p) (auto simp: CATEGORIES_def all_in_category_def)

lemma permission_category_known: "permission_category p = Some cat \<Longrightarrow> cat \<in> set CATEGORIES"
  by (cases p) (auto simp: CATEGORIES_def)

section \<open>Collapsing\<close>

lemma set_dedup [simp]: "set (dedup xs) = set xs"
  by (induction xs rule: dedup.induct) auto

lemma sorted_dedup_strict: "sorted (xs :: string list) \<Longrightarrow> sorted_wrt (<) (dedup xs)"
proof (induction xs rule: dedup.induct)
  case (3 x y ys)
  then show ?case
  proof (cases "x = y")
    case False
    have "\<forall>z \<in> set (y # ys). x < z"
      using 3(3) False by (auto simp: less_le order_antisym)
    then show ?thesis using 3 False by auto
  qed auto
qed auto

lemma handled_subset: "p \<in> set (handled perms) \<Longrightarrow> p \<in> set perms"
  by (auto simp: handled_def complete_categories_def list_all_iff)

definition expand_all :: "string list \<Rightarrow> permission set" where
  "expand_all pats = (\<Union>pat \<in> set pats. case expand_pattern pat of Inr ps \<Rightarrow> set ps | Inl _ \<Rightarrow> {})"

lemma expand_all_append: "expand_all (a @ b) = expand_all a \<union> expand_all b"
  by (simp add: expand_all_def)

lemma expand_all_complete:
  "expand_all (map (\<lambda>cat. cat @ '':*'') (complete_categories perms)) = set (handled perms)"
proof -
  have "cat \<in> set CATEGORIES" if "cat \<in> set (complete_categories perms)" for cat
    using that by (simp add: complete_categories_def)
  then show ?thesis by (auto simp: expand_all_def handled_def expand_wildcard)
qed

lemma expand_all_names: "set ps = permission_fmt ` P \<Longrightarrow> expand_all ps = P"
  by (auto simp: expand_all_def expand_permission)

lemma collapse_expand: "Admin \<notin> set perms \<Longrightarrow> expand_all (collapse perms) = set perms"
  using handled_subset
  by (auto simp: collapse_def expand_all_append expand_all_complete
      expand_all_names [where P = "{p \<in> set perms. p \<notin> set (handled perms)}"] image_Collect)

end
