(* ===== verification/Rbac.thy ===== *)
theory Rbac
  imports Permission
begin

text \<open>
  Access control of the API gateway: the build script that turns the \<open>@rbac\<close> comments of the
  protobuf files into the table of methods (\<open>services/apid/build.rs\<close>), the check of one call
  (\<open>src/rbac\<close>), and the request handler that applies it and routes the call (\<open>src/handler.rs\<close>).

  The protobuf files are ASCII, so white space is ASCII white space here.  The generated function is
  modelled by what its text means: a \<open>match\<close> with one arm per requirement, in the order of the
  requirement's code, the first arm with the path winning.
\<close>

section \<open>String helpers of the build script\<close>

definition is_space :: "char \<Rightarrow> bool" where
  "is_space ch \<longleftrightarrow> ch = CHR '' '' \<or> byte_between 9 13 ch"

definition trim :: "string \<Rightarrow> string" where
  "trim s = rev (dropWhile is_space (rev (dropWhile is_space s)))"

definition trim_end_char :: "char \<Rightarrow> string \<Rightarrow> string" where
  "trim_end_char ch s = rev (dropWhile (\<lambda>x. x = ch) (rev s))"

text \<open>The text before the first character with a property, if there is one.\<close>

definition before_first :: "(char \<Rightarrow> bool) \<Rightarrow> string \<Rightarrow> string option" where
  "before_first P s = (if list_ex P s then Some (takeWhile (\<lambda>ch. \<not> P ch) s) else None)"

section \<open>The build script\<close>

definition VALID_PERMISSIONS :: "(string \<times> permission) list" where
  "VALID_PERMISSIONS =
     [(''admin'', Admin), (''vm:read'', VmRead), (''vm:create'', VmCreate), (''vm:start'', VmStart),
      (''vm:stop'', VmStop), (''vm:delete'', VmDelete), (''vm:upload'', VmUpload),
      (''auth:manage'', AuthManage), (''system:read'', SystemRead), (''system:update'', SystemUpdate),
      (''process:read'', ProcessRead), (''security:read'', SecurityRead)]"

datatype rbac_requirement =
    Unauthenticated
  | RequiresPermission permission
  | MaintenanceOrPermission permission

record rpc_method =
  full_path :: string
  requirement :: rbac_requirement

definition quote :: "string \<Rightarrow> string" where
  "quote s = [CHR 0x27] @ s @ [CHR 0x27]"

definition parse_rbac_annotation :: "string \<Rightarrow> string + rbac_requirement" where
  "parse_rbac_annotation annotation =
     (let annotation = trim annotation in
      if annotation = ''none'' then Ok Unauthenticated
      else case strip_prefix ''maintenance|'' annotation of
        Some perm_str \<Rightarrow>
          let perm_str = trim perm_str
          in ok_or (map_option MaintenanceOrPermission (map_of VALID_PERMISSIONS perm_str))
               (''Unknown permission in maintenance annotation: '' @ quote perm_str)
      | None \<Rightarrow>
          ok_or (map_option RequiresPermission (map_of VALID_PERMISSIONS annotation))
            (''Unknown permission: '' @ quote annotation))"

definition extract_rbac_annotation :: "string \<Rightarrow> string option" where
  "extract_rbac_annotation line =
     Option.bind (strip_prefix ''//'' (trim line)) (\<lambda>rest.
       map_option trim (strip_prefix ''@rbac:'' (trim rest)))"

definition extract_method_name :: "string \<Rightarrow> string option" where
  "extract_method_name line =
     Option.bind (strip_prefix ''rpc '' line) (\<lambda>rest.
       map_option trim (before_first (\<lambda>ch. ch = CHR ''('') (trim rest)))"

definition extract_package :: "string list \<Rightarrow> string" where
  "extract_package ls =
     (case find_map (\<lambda>line. map_option (\<lambda>rest. trim (trim_end_char (CHR '';'') rest))
                              (strip_prefix ''package '' (trim line))) ls of
        None \<Rightarrow> [] | Some p \<Rightarrow> p)"

definition error_at :: "string \<Rightarrow> nat \<Rightarrow> string \<Rightarrow> string" where
  "error_at filename idx msg = filename @ '':'' @ decimal (Suc idx) @ '': '' @ msg"

text \<open>\<open>parse_rpc_line\<close>: the method that the line declares, or the error to report.\<close>

definition parse_rpc_line ::
    "string \<Rightarrow> string \<Rightarrow> string list \<Rightarrow> string \<Rightarrow> nat \<Rightarrow> string option \<Rightarrow> string + rpc_method" where
  "parse_rpc_line filename package ls trimmed idx current_service =
     and_then (ok_or current_service (error_at filename idx ''RPC found outside of service block''))
       (\<lambda>service.
     and_then (ok_or (extract_method_name trimmed)
                 (error_at filename idx (''Could not parse RPC method name from: '' @ trimmed)))
       (\<lambda>method_name.
     and_then (ok_or (if 0 < idx then extract_rbac_annotation (ls ! (idx - 1)) else None)
                 (error_at filename idx (''RPC method '' @ quote method_name
                    @ '' is missing @rbac annotation. Add `// @rbac: <permission>` on the line before the rpc declaration.'')))
       (\<lambda>annotation.
     case parse_rbac_annotation annotation of
       Inl e \<Rightarrow> Err (error_at filename idx (''Invalid @rbac annotation for '' @ method_name @ '': '' @ e))
     | Inr req \<Rightarrow> Ok \<lparr>full_path = ''/'' @ package @ ''.'' @ service @ ''/'' @ method_name,
                      requirement = req\<rparr>)))"

record proto_state =
  current_service :: "string option"
  brace_depth :: nat
  methods :: "rpc_method list"
  errors :: "string list"

definition count_char :: "char \<Rightarrow> string \<Rightarrow> nat" where
  "count_char ch s = length (filter (\<lambda>x. x = ch) s)"

text \<open>The service in scope after a line, before its \<open>rpc\<close> is looked at.\<close>

definition scan_service :: "string \<Rightarrow> proto_state \<Rightarrow> proto_state" where
  "scan_service trimmed st =
     (let svc = (case Option.bind (strip_prefix ''service '' trimmed)
                        (before_first (\<lambda>ch. ch = CHR ''{'' \<or> is_space ch)) of
                   Some name \<Rightarrow> Some name | None \<Rightarrow> current_service st);
          depth = brace_depth st + count_char (CHR ''{'') trimmed - count_char (CHR ''}'') trimmed
      in st\<lparr>current_service := (if depth = 0 then None else svc), brace_depth := depth\<rparr>)"

definition is_rpc_line :: "string \<Rightarrow> bool" where
  "is_rpc_line line \<longleftrightarrow> strip_prefix ''rpc '' (trim line) \<noteq> None"

definition parse_line :: "string \<Rightarrow> string \<Rightarrow> string list \<Rightarrow> nat \<times> string \<Rightarrow> proto_state \<Rightarrow> proto_state" where
  "parse_line filename package ls = (\<lambda>(idx, line) st.
     let trimmed = trim line; st = scan_service trimmed st in
     if is_rpc_line line
     then (case parse_rpc_line filename package ls trimmed idx (current_service st) of
             Inl e \<Rightarrow> st\<lparr>errors := errors st @ [e]\<rparr>
           | Inr m \<Rightarrow> st\<lparr>methods := methods st @ [m]\<rparr>)
     else st)"

definition proto_start :: proto_state where
  "proto_start = \<lparr>current_service = None, brace_depth = 0, methods = [], errors = []\<rparr>"

definition parse_proto :: "string \<Rightarrow> string \<Rightarrow> string list + rpc_method list" where
  "parse_proto content filename =
     (let ls = lines content;
          st = fold (parse_line filename (extract_package ls) ls) (enumerate 0 ls) proto_start
      in if errors st = [] then Ok (methods st) else Err (errors st))"

text \<open>\<open>main\<close>: the files in order, or the build fails with all errors.\<close>

definition parse_files :: "(string \<times> (string + string)) list \<Rightarrow> string list + rpc_method list" where
  "parse_files files =
     (let rs = map (\<lambda>(name, content).
                 case content of
                   Inl e \<Rightarrow> Err [''Failed to read '' @ name @ '': '' @ e]
                 | Inr c \<Rightarrow> parse_proto c name) files;
          errs = concat (map (\<lambda>r. case r of Inl es \<Rightarrow> es | Inr _ \<Rightarrow> []) rs)
      in if errs \<noteq> [] then Err errs
         else Ok (concat (map (\<lambda>r. case r of Inr ms \<Rightarrow> ms | Inl _ \<Rightarrow> []) rs)))"

text \<open>The generated \<open>method_permission\<close>.\<close>

fun variant_name :: "permission \<Rightarrow> string" where
  "variant_name Admin = ''Admin''"
| "variant_name VmRead = ''VmRead''"
| "variant_name VmCreate = ''VmCreate''"
| "variant_name VmStart = ''VmStart''"
| "variant_name VmStop = ''VmStop''"
| "variant_name VmDelete = ''VmDelete''"
| "variant_name VmUpload = ''VmUpload''"
| "variant_name AuthManage = ''AuthManage''"
| "variant_name SystemRead = ''SystemRead''"
| "variant_name SystemUpdate = ''SystemUpdate''"
| "variant_name ProcessRead = ''ProcessRead''"
| "variant_name SecurityRead = ''SecurityRead''"

fun requirement_code :: "rbac_requirement \<Rightarrow> string" where
  "requirement_code Unauthenticated = ''MethodRequirement::Unauthenticated''"
| "requirement_code (RequiresPermission p) =
     ''MethodRequirement::RequiresPermission(Permission::'' @ variant_name p @ '')''"
| "requirement_code (MaintenanceOrPermission p) =
     ''MethodRequirement::MaintenanceOrPermission(Permission::'' @ variant_name p @ '')''"

definition requirement_groups :: "rpc_method list \<Rightarrow> (rbac_requirement \<times> string list) list" where
  "requirement_groups ms =
     sort_key (requirement_code \<circ> fst)
       (map (\<lambda>r. (r, map full_path (filter (\<lambda>m. requirement m = r) ms)))
          (remdups (map requirement ms)))"

datatype method_requirement = Known rbac_requirement | Unknown

definition method_permission :: "rpc_method list \<Rightarrow> string \<Rightarrow> method_requirement" where
  "method_permission ms path =
     (case find (\<lambda>(r, paths). path \<in> set paths) (requirement_groups ms) of
        Some (r, _) \<Rightarrow> Known r
      | None \<Rightarrow> Unknown)"

section \<open>Checking one call\<close>

datatype rbac_error =
    RbacUnauthenticated
  | CertificateRevoked
  | UnknownCertificate
  | PermissionDenied permission
  | UnknownMethod
  | InsecureNotAllowed
  | RbacInternal

fun grpc_status_code :: "rbac_error \<Rightarrow> nat" where
  "grpc_status_code RbacUnauthenticated = 16"
| "grpc_status_code UnknownMethod = 12"
| "grpc_status_code _ = 7"

fun grpc_message :: "rbac_error \<Rightarrow> string" where
  "grpc_message RbacUnauthenticated = ''client certificate required''"
| "grpc_message CertificateRevoked = ''certificate has been revoked''"
| "grpc_message UnknownCertificate = ''certificate not authorized''"
| "grpc_message (PermissionDenied p) = ''permission denied: requires '' @ permission_fmt p"
| "grpc_message UnknownMethod = ''unknown method''"
| "grpc_message InsecureNotAllowed = ''system is installed, insecure access is not allowed''"
| "grpc_message RbacInternal = ''auth state unavailable''"

text \<open>\<open>AuthenticatedUser::has_permission\<close> on the set collected from the user's list.\<close>

definition has_permission :: "auth_user \<Rightarrow> permission \<Rightarrow> bool" where
  "has_permission user p \<longleftrightarrow> p \<in> set (permissions user) \<or> Admin \<in> set (permissions user)"

text \<open>\<open>auth\<close> is what \<open>config::auth::current()\<close> returns.\<close>

definition check_access ::
    "rpc_method list \<Rightarrow> auth_state option \<Rightarrow> string \<Rightarrow> string option \<Rightarrow> rbac_error + unit" where
  "check_access ms auth path client =
     (let check = (\<lambda>required.
        and_then (ok_or client RbacUnauthenticated) (\<lambda>fp.
        and_then (ok_or auth RbacInternal) (\<lambda>st.
          if fp \<in> set (revoked st) then Err CertificateRevoked
          else and_then (ok_or (find (\<lambda>u. fingerprint u = fp) (users st)) UnknownCertificate) (\<lambda>user.
            if \<not> has_permission user required then Err (PermissionDenied required) else Ok ()))))
      in case method_permission ms path of
           Known Unauthenticated \<Rightarrow> Ok ()
         | Unknown \<Rightarrow> Err UnknownMethod
         | Known (RequiresPermission required) \<Rightarrow> check required
         | Known (MaintenanceOrPermission required) \<Rightarrow> check required)"

section \<open>Handling and routing\<close>

abbreviation (input) WORKLOADD_SOCKET :: string where "WORKLOADD_SOCKET \<equiv> ''/run/services/workloadd.sock''"
abbreviation (input) GRANOLA_SOCKET :: string where "GRANOLA_SOCKET \<equiv> ''/run/services/granola.sock''"
abbreviation (input) PROVISIOND_SOCKET :: string where "PROVISIOND_SOCKET \<equiv> ''/run/services/provisiond.sock''"

abbreviation (input) VM_SERVICE_PREFIX :: string where "VM_SERVICE_PREFIX \<equiv> ''/muak.vm.v1.VmService/''"
abbreviation (input) PROCESS_SERVICE_PREFIX :: string where
  "PROCESS_SERVICE_PREFIX \<equiv> ''/muak.process.v1.ProcessService/''"
abbreviation (input) PROVISION_SERVICE_PREFIX :: string where
  "PROVISION_SERVICE_PREFIX \<equiv> ''/muak.provision.v1.ProvisionService/''"
abbreviation (input) AUTH_SERVICE_PREFIX :: string where "AUTH_SERVICE_PREFIX \<equiv> ''/muak.auth.v1.AuthService/''"
abbreviation (input) SECURITY_SERVICE_PREFIX :: string where
  "SECURITY_SERVICE_PREFIX \<equiv> ''/muak.security.v1.SecurityService/''"
abbreviation (input) LOG_SERVICE_PREFIX :: string where "LOG_SERVICE_PREFIX \<equiv> ''/muak.log.v1.LogService/''"
abbreviation (input) VERSION_SERVICE_PREFIX :: string where
  "VERSION_SERVICE_PREFIX \<equiv> ''/muak.version.v1.VersionService/''"

definition starts_with :: "string \<Rightarrow> string \<Rightarrow> bool" where
  "starts_with p s \<longleftrightarrow> strip_prefix p s \<noteq> None"

definition route_request :: "(string \<Rightarrow> bool) \<Rightarrow> string \<Rightarrow> string option" where
  "route_request socket_exists path =
     (if starts_with VM_SERVICE_PREFIX path
      then (if socket_exists WORKLOADD_SOCKET then Some WORKLOADD_SOCKET else None)
      else if starts_with PROCESS_SERVICE_PREFIX path \<or> starts_with LOG_SERVICE_PREFIX path
      then Some GRANOLA_SOCKET
      else if starts_with PROVISION_SERVICE_PREFIX path \<or> starts_with AUTH_SERVICE_PREFIX path
           \<or> starts_with SECURITY_SERVICE_PREFIX path \<or> starts_with VERSION_SERVICE_PREFIX path
      then Some PROVISIOND_SOCKET
      else None)"

datatype api_response = GrpcError nat string | Proxied string

text \<open>The environment of one request: the sockets that exist and whether a backend answers.\<close>

record api_env =
  socket_exists :: "string \<Rightarrow> bool"
  backend :: "string \<Rightarrow> string + unit"

definition skip_rbac :: "bool \<Rightarrow> method_requirement \<Rightarrow> bool" where
  "skip_rbac maintenance req \<longleftrightarrow>
     req = Known Unauthenticated
     \<or> maintenance \<and> (case req of Known (MaintenanceOrPermission _) \<Rightarrow> True | _ \<Rightarrow> False)"

definition handle_request ::
    "api_env \<Rightarrow> rpc_method list \<Rightarrow> auth_state option \<Rightarrow> string \<Rightarrow> string option \<Rightarrow> bool \<Rightarrow> api_response" where
  "handle_request env ms auth path client maintenance =
     (let req = method_permission ms path;
          denied = (if skip_rbac maintenance req then None
                    else case check_access ms auth path client of Inl e \<Rightarrow> Some e | Inr _ \<Rightarrow> None)
      in case denied of
           Some e \<Rightarrow> GrpcError (grpc_status_code e) (grpc_message e)
         | None \<Rightarrow>
             if \<not> maintenance \<and> client = None \<and> req \<noteq> Known Unauthenticated
             then GrpcError (grpc_status_code InsecureNotAllowed) (grpc_message InsecureNotAllowed)
             else case route_request (socket_exists env) path of
               None \<Rightarrow> GrpcError 12 ''Unknown service''
             | Some socket_path \<Rightarrow>
                 (case backend env socket_path of
                    Inr _ \<Rightarrow> Proxied socket_path
                  | Inl e \<Rightarrow> GrpcError 14 (''Backend unavailable: '' @ e)))"

section \<open>Lemmas on the build script\<close>

lemma valid_permissions: "map_of VALID_PERMISSIONS s = Some p \<longleftrightarrow> permission_from_str s = Ok p"
  by (auto simp: VALID_PERMISSIONS_def permission_from_str_def)

lemma scan_service_methods [simp]:
  "methods (scan_service t st) = methods st" "errors (scan_service t st) = errors st"
  by (simp_all add: scan_service_def Let_def)

lemma parse_line_errors_grow: "errors st \<noteq> [] \<Longrightarrow> errors (parse_line f p ls x st) \<noteq> []"
  by (cases x) (simp add: parse_line_def Let_def split: sum.split)

lemma fold_errors_grow: "errors st \<noteq> [] \<Longrightarrow> errors (fold (parse_line f p ls) xs st) \<noteq> []"
  by (induction xs arbitrary: st) (auto simp: parse_line_errors_grow)

lemma parse_line_methods_grow: "set (methods st) \<subseteq> set (methods (parse_line f p ls x st))"
  by (cases x) (auto simp: parse_line_def Let_def split: sum.split)

lemma fold_methods_grow: "set (methods st) \<subseteq> set (methods (fold (parse_line f p ls) xs st))"
  by (induction xs arbitrary: st) (use parse_line_methods_grow in force)+

text \<open>The requirement that a line's preceding comment asks for.\<close>

definition annotated :: "string list \<Rightarrow> nat \<Rightarrow> rbac_requirement \<Rightarrow> bool" where
  "annotated ls idx req \<longleftrightarrow> 0 < idx \<and>
     (\<exists>a. extract_rbac_annotation (ls ! (idx - 1)) = Some a \<and> parse_rbac_annotation a = Ok req)"

lemma parse_rpc_line_Ok:
  assumes "parse_rpc_line f p ls t idx svc = Ok m"
  shows "\<exists>s name. svc = Some s \<and> extract_method_name t = Some name \<and> annotated ls idx (requirement m)
    \<and> full_path m = ''/'' @ p @ ''.'' @ s @ ''/'' @ name"
proof -
  obtain s name a where r: "svc = Some s" "extract_method_name t = Some name"
    "(if 0 < idx then extract_rbac_annotation (ls ! (idx - 1)) else None) = Some a"
    "(case parse_rbac_annotation a of
        Inl e \<Rightarrow> Err (error_at f idx (''Invalid @rbac annotation for '' @ name @ '': '' @ e))
      | Inr req \<Rightarrow> Ok \<lparr>full_path = ''/'' @ p @ ''.'' @ s @ ''/'' @ name, requirement = req\<rparr>) = Ok m"
    using assms unfolding parse_rpc_line_def and_then_eq_Ok ok_or_eq_Ok by blast
  show ?thesis
    using r by (cases "parse_rbac_annotation a") (auto simp: annotated_def split: if_splits)
qed

lemma fold_rpc_lines:
  assumes "errors (fold (parse_line f p ls) xs st) = []" "(idx, line) \<in> set xs" "is_rpc_line line"
  shows "\<exists>m \<in> set (methods (fold (parse_line f p ls) xs st)). \<exists>s name.
    extract_method_name (trim line) = Some name \<and> annotated ls idx (requirement m)
    \<and> full_path m = ''/'' @ p @ ''.'' @ s @ ''/'' @ name"
  using assms(1,2)
proof (induction xs arbitrary: st)
  case (Cons x xs)
  let ?st = "parse_line f p ls x st"
  show ?case
  proof (cases "x = (idx, line)")
    case True
    have "errors ?st = []" using Cons.prems(1) fold_errors_grow by fastforce
    then obtain m where m: "parse_rpc_line f p ls (trim line) idx
        (current_service (scan_service (trim line) st)) = Ok m" "m \<in> set (methods ?st)"
      using assms(3) by (auto simp: parse_line_def Let_def True split: sum.splits)
    then have "m \<in> set (methods (fold (parse_line f p ls) (x # xs) st))"
      using fold_methods_grow [of ?st f p ls xs] by auto
    then show ?thesis using parse_rpc_line_Ok [OF m(1)] by blast
  next
    case False
    then show ?thesis using Cons.IH [of ?st] Cons.prems by auto
  qed
qed simp

text \<open>Conversely, every method of the table comes from an annotated \<open>rpc\<close> line.\<close>

lemma fold_methods_origin:
  assumes "m \<in> set (methods (fold (parse_line f p ls) xs st))" "m \<notin> set (methods st)"
  shows "\<exists>idx line. (idx, line) \<in> set xs \<and> is_rpc_line line \<and> annotated ls idx (requirement m)"
  using assms
proof (induction xs arbitrary: st)
  case (Cons x xs)
  obtain idx line where x: "x = (idx, line)" by (cases x)
  show ?case
  proof (cases "m \<in> set (methods (parse_line f p ls x st))")
    case True
    then have "is_rpc_line line \<and> parse_rpc_line f p ls (trim line) idx
        (current_service (scan_service (trim line) st)) = Ok m"
      using Cons.prems(2) by (auto simp: parse_line_def Let_def x split: if_splits sum.splits)
    then show ?thesis using parse_rpc_line_Ok by (fastforce simp: x)
  next
    case False
    then show ?thesis using Cons.IH [of "parse_line f p ls x st"] Cons.prems(1) by auto
  qed
qed simp

section \<open>Lemmas on the generated table\<close>

lemma in_requirement_groups:
  "(r, paths) \<in> set (requirement_groups ms) \<Longrightarrow>
   path \<in> set paths \<longleftrightarrow> (\<exists>m \<in> set ms. full_path m = path \<and> requirement m = r)"
  by (auto simp: requirement_groups_def)

lemma method_permission_Unknown:
  "method_permission ms path = Unknown \<longleftrightarrow> path \<notin> full_path ` set ms"
proof -
  have "(\<exists>g \<in> set (requirement_groups ms). path \<in> set (snd g)) \<longleftrightarrow> path \<in> full_path ` set ms"
    by (force simp: requirement_groups_def)
  moreover have "method_permission ms path = Unknown \<longleftrightarrow>
      find (\<lambda>(r, paths). path \<in> set paths) (requirement_groups ms) = None"
    by (simp add: method_permission_def split: option.split)
  ultimately show ?thesis by (simp add: find_None_iff case_prod_beta) force
qed

lemma method_permission_Known:
  assumes "method_permission ms path = Known r"
  shows "\<exists>m \<in> set ms. full_path m = path \<and> requirement m = r"
proof -
  obtain paths where "find (\<lambda>(r, paths). path \<in> set paths) (requirement_groups ms) = Some (r, paths)"
    using assms by (auto simp: method_permission_def split: option.splits prod.splits)
  then have "(r, paths) \<in> set (requirement_groups ms)" "path \<in> set paths"
    by (auto simp: find_Some_iff in_set_conv_nth)
  then show ?thesis using in_requirement_groups by blast
qed

section \<open>Lemmas on the check\<close>

definition grants :: "auth_state option \<Rightarrow> string option \<Rightarrow> permission \<Rightarrow> bool" where
  "grants auth client required \<longleftrightarrow>
     (\<exists>fp st user. client = Some fp \<and> auth = Some st \<and> fp \<notin> set (revoked st)
        \<and> find (\<lambda>u. fingerprint u = fp) (users st) = Some user
        \<and> (required \<in> set (permissions user) \<or> Admin \<in> set (permissions user)))"

lemma check_access_Ok:
  "check_access ms auth path client = Ok () \<longleftrightarrow>
     method_permission ms path = Known Unauthenticated
     \<or> (\<exists>p. (method_permission ms path = Known (RequiresPermission p)
            \<or> method_permission ms path = Known (MaintenanceOrPermission p)) \<and> grants auth client p)"
  by (auto simp: check_access_def grants_def has_permission_def Let_def and_then_eq_Ok ok_or_eq_Ok
      split: method_requirement.splits rbac_requirement.splits if_splits)

end
