(* ===== verification/Statemachine.thy ===== *)
theory Statemachine
  imports Prelude
begin

text \<open>
  The trait \<open>StateMachine\<close> of \<open>services/networkd/src/statemachine.rs\<close> and its three
  implementations: the DHCP client states, the life cycle of an interface, and the state of the
  network.  The trait is a parameter, the function \<open>valid_next_states\<close>; its provided method is
  \<open>transition\<close>.
\<close>

section \<open>The trait\<close>

datatype 's invalid_transition = InvalidTransition 's 's

definition transition :: "('s \<Rightarrow> 's list) \<Rightarrow> 's \<Rightarrow> 's \<Rightarrow> 's \<times> ('s invalid_transition + unit)" where
  "transition valid_next_states s to =
     (if to \<in> set (valid_next_states s) then (to, Ok ()) else (s, Err (InvalidTransition s to)))"

text \<open>A sequence of requests; each one that is not allowed leaves the state alone.\<close>

definition request_all :: "('s \<Rightarrow> 's list) \<Rightarrow> 's list \<Rightarrow> 's \<Rightarrow> 's" where
  "request_all valid_next_states reqs s = fold (\<lambda>to s. fst (transition valid_next_states s to)) reqs s"

section \<open>Implementations\<close>

text \<open>\<open>dhcp::State\<close>.\<close>

datatype dhcp_state = DhcpInit | DhcpBound | DhcpRenewing | DhcpRebinding

fun dhcp_next_states :: "dhcp_state \<Rightarrow> dhcp_state list" where
  "dhcp_next_states DhcpInit = [DhcpBound]"
| "dhcp_next_states DhcpBound = [DhcpRenewing, DhcpInit]"
| "dhcp_next_states DhcpRenewing = [DhcpBound, DhcpRebinding, DhcpInit]"
| "dhcp_next_states DhcpRebinding = [DhcpBound, DhcpInit]"

text \<open>\<open>interface::state::Lifecycle\<close>.\<close>

datatype lifecycle = Discovered | Configuring | Configured | Degraded | Failed | Deconfiguring

fun lifecycle_next_states :: "lifecycle \<Rightarrow> lifecycle list" where
  "lifecycle_next_states Discovered = [Configuring]"
| "lifecycle_next_states Configuring = [Configured, Failed]"
| "lifecycle_next_states Configured = [Degraded, Deconfiguring]"
| "lifecycle_next_states Degraded = [Configuring, Configured, Deconfiguring]"
| "lifecycle_next_states Failed = [Configuring, Deconfiguring]"
| "lifecycle_next_states Deconfiguring = [Discovered]"

text \<open>\<open>supervisor::state::NetworkState\<close>.\<close>

datatype network_state = NetUninitialized | NetInitializing | NetOperational | NetReady | NetDegraded

fun network_next_states :: "network_state \<Rightarrow> network_state list" where
  "network_next_states NetUninitialized = [NetInitializing]"
| "network_next_states NetInitializing = [NetOperational, NetDegraded]"
| "network_next_states NetOperational = [NetReady, NetDegraded]"
| "network_next_states NetReady = [NetDegraded]"
| "network_next_states NetDegraded = [NetInitializing, NetOperational]"

section \<open>What every implementation guarantees\<close>

text \<open>
  The contract the callers rely on: a state never lists itself, and a designated state can be
  reached again from every state.  From it: a request for the present state is always refused, a
  refused request changes nothing, every history of requests moves along allowed edges only, and
  no state is a dead end.
\<close>

locale state_machine =
  fixes next_states :: "'s \<Rightarrow> 's list" and home :: 's
  assumes irreflexive: "s \<notin> set (next_states s)"
    and home_reachable: "(\<lambda>s t. t \<in> set (next_states s))\<^sup>*\<^sup>* s home"
begin

abbreviation edge :: "'s \<Rightarrow> 's \<Rightarrow> bool" where
  "edge s t \<equiv> t \<in> set (next_states s)"

lemma transition_self: "transition next_states s s = (s, Err (InvalidTransition s s))"
  by (simp add: transition_def irreflexive)

lemma transition_moved_iff: "fst (transition next_states s t) \<noteq> s \<longleftrightarrow> edge s t"
  using irreflexive by (auto simp: transition_def)

lemma transition_ok_iff: "is_ok (snd (transition next_states s t)) \<longleftrightarrow> edge s t"
  by (simp add: transition_def)

lemma request_all_follows_edges: "edge\<^sup>*\<^sup>* s (request_all next_states reqs s)"
proof (induction reqs arbitrary: s)
  case Nil
  then show ?case by (simp add: request_all_def)
next
  case (Cons to reqs)
  have "edge\<^sup>*\<^sup>* s (fst (transition next_states s to))"
    by (cases "edge s to") (auto simp: transition_def)
  also have "edge\<^sup>*\<^sup>* (fst (transition next_states s to)) (request_all next_states (to # reqs) s)"
    using Cons by (simp add: request_all_def)
  finally show ?case .
qed

lemma edges_are_requests: "edge\<^sup>*\<^sup>* s t \<Longrightarrow> \<exists>reqs. request_all next_states reqs s = t"
proof (induction rule: converse_rtranclp_induct)
  case base
  show ?case by (rule exI [of _ "[]"]) (simp add: request_all_def)
next
  case (step s u)
  then obtain reqs where "request_all next_states reqs u = t" by blast
  then have "request_all next_states (u # reqs) s = t"
    using step(1) by (simp add: request_all_def transition_def)
  then show ?case ..
qed

lemma no_dead_end: "\<exists>reqs. request_all next_states reqs s = home"
  using edges_are_requests [OF home_reachable] .

end

interpretation dhcp_sm: state_machine dhcp_next_states DhcpInit
proof
  show "s \<notin> set (dhcp_next_states s)" for s by (cases s) simp_all
  show "(\<lambda>s t. t \<in> set (dhcp_next_states s))\<^sup>*\<^sup>* s DhcpInit" for s
  proof (cases s)
    case DhcpInit
    then show ?thesis by simp
  qed (rule r_into_rtranclp, simp)+
qed

interpretation lifecycle_sm: state_machine lifecycle_next_states Discovered
proof
  let ?e = "\<lambda>s t. t \<in> set (lifecycle_next_states s)"
  show "s \<notin> set (lifecycle_next_states s)" for s by (cases s) simp_all
  have d: "?e\<^sup>*\<^sup>* Deconfiguring Discovered" by (rule r_into_rtranclp) simp
  have mid: "?e\<^sup>*\<^sup>* s Discovered" if "s \<in> {Configured, Degraded, Failed}" for s
    by (rule converse_rtranclp_into_rtranclp [OF _ d]) (use that in auto)
  have "?e\<^sup>*\<^sup>* Configuring Discovered"
    by (rule converse_rtranclp_into_rtranclp [OF _ mid [of Configured]]) simp_all
  then show "?e\<^sup>*\<^sup>* s Discovered" for s using d mid by (cases s) auto
qed

interpretation network_sm: state_machine network_next_states NetInitializing
proof
  let ?e = "\<lambda>s t. t \<in> set (network_next_states s)"
  show "s \<notin> set (network_next_states s)" for s by (cases s) simp_all
  have d: "?e\<^sup>*\<^sup>* NetDegraded NetInitializing" by (rule r_into_rtranclp) simp
  have "?e\<^sup>*\<^sup>* s NetInitializing" if "s \<in> {NetOperational, NetReady}" for s
    by (rule converse_rtranclp_into_rtranclp [OF _ d]) (use that in auto)
  moreover have "?e\<^sup>*\<^sup>* NetUninitialized NetInitializing" by (rule r_into_rtranclp) simp
  ultimately show "?e\<^sup>*\<^sup>* s NetInitializing" for s using d by (cases s) auto
qed

end
