(* ===== verification/Dhcp_Framing.thy ===== *)
theory Dhcp_Framing
  imports Bytes
begin

text \<open>
  IPv4 and UDP framing of raw DHCP packets: \<open>services/networkd/src/dhcp/framing.rs\<close>.  An IPv4
  address is its four octets.  A \<open>u16\<close> is a 16-bit word; the 32-bit sum of the checksum is a
  number that saturates where the code saturates.
\<close>

unbundle bit_operations_syntax

section \<open>Addresses and bounds-tolerant reads\<close>

text \<open>\<open>core::net::Ipv4Addr\<close> with \<open>octets\<close>, and \<open>u16::to_be_bytes\<close> / \<open>u16::from_be_bytes\<close>.\<close>

datatype ipv4 = Ipv4 byte byte byte byte

primrec octets :: "ipv4 \<Rightarrow> bytes" where
  "octets (Ipv4 a b c d) = [a, b, c, d]"

definition ipv4_unspecified :: ipv4 where "ipv4_unspecified = Ipv4 0 0 0 0"
definition ipv4_broadcast :: ipv4 where "ipv4_broadcast = Ipv4 255 255 255 255"

type_synonym u16 = "16 word"

definition u16_bytes :: "u16 \<Rightarrow> bytes" where
  "u16_bytes x = to_be 2 (unat x)"

definition u16_of :: "byte \<Rightarrow> byte \<Rightarrow> u16" where
  "u16_of high low = word_of_nat (from_be [high, low])"

definition byte_or_zero :: "bytes \<Rightarrow> nat \<Rightarrow> byte" where
  "byte_or_zero data i = (if i < length data then data ! i else 0)"

definition read_u16 :: "bytes \<Rightarrow> nat \<Rightarrow> u16" where
  "read_u16 data offset = u16_of (byte_or_zero data offset) (byte_or_zero data (offset + 1))"

section \<open>Checksums\<close>

fun checksum_words :: "nat \<Rightarrow> bytes \<Rightarrow> nat" where
  "checksum_words acc [] = acc"
| "checksum_words acc [high] = saturating_add u32_max acc (unat (u16_of high 0))"
| "checksum_words acc (high # low # data) =
     checksum_words (saturating_add u32_max acc (unat (u16_of high low))) data"

text \<open>The folding loop of \<open>finish_checksum\<close>: it ends because every round makes the sum smaller.\<close>

function fold_carries :: "nat \<Rightarrow> nat" where
  "fold_carries acc =
     (if acc div 65536 \<noteq> 0 then fold_carries (saturating_add u32_max (acc mod 65536) (acc div 65536))
      else acc)"
  by pat_completeness auto
termination
proof (relation "measure id")
  fix acc :: nat assume a: "acc div 65536 \<noteq> 0"
  have "acc = acc div 65536 * 65536 + acc mod 65536" by simp
  with a have "acc mod 65536 + acc div 65536 < acc" by linarith
  then show "(saturating_add u32_max (acc mod 65536) (acc div 65536), acc) \<in> measure id"
    by (simp add: saturating_add_def)
qed simp

declare fold_carries.simps [simp del]

definition finish_checksum :: "nat \<Rightarrow> u16" where
  "finish_checksum acc =
     (let s = fold_carries acc in NOT (if s \<le> u16_max then word_of_nat s else 0))"

definition checksum_ones_complement :: "bytes \<Rightarrow> u16" where
  "checksum_ones_complement data = finish_checksum (checksum_words 0 data)"

abbreviation (input) IPV4_HEADER_LEN :: nat where "IPV4_HEADER_LEN \<equiv> 20"
abbreviation (input) UDP_HEADER_LEN :: nat where "UDP_HEADER_LEN \<equiv> 8"
abbreviation (input) L3L4_HEADER_LEN :: nat where "L3L4_HEADER_LEN \<equiv> IPV4_HEADER_LEN + UDP_HEADER_LEN"
abbreviation (input) IPV4_VERSION_IHL :: byte where "IPV4_VERSION_IHL \<equiv> 0x45"
abbreviation (input) IPV4_TTL :: byte where "IPV4_TTL \<equiv> 64"
abbreviation (input) IPV4_PROTO_UDP :: byte where "IPV4_PROTO_UDP \<equiv> 17"
abbreviation (input) IPV4_FLAG_DONT_FRAGMENT :: u16 where "IPV4_FLAG_DONT_FRAGMENT \<equiv> 0x4000"

definition udp_checksum :: "ipv4 \<Rightarrow> ipv4 \<Rightarrow> bytes \<Rightarrow> u16" where
  "udp_checksum src_ip dst_ip segment =
     (let src = octets src_ip; dst = octets dst_ip; add = saturating_add u32_max;
          acc = add 0 (unat (u16_of (src ! 0) (src ! 1)));
          acc = add acc (unat (u16_of (src ! 2) (src ! 3)));
          acc = add acc (unat (u16_of (dst ! 0) (dst ! 1)));
          acc = add acc (unat (u16_of (dst ! 2) (dst ! 3)));
          acc = add acc (unat IPV4_PROTO_UDP);
          acc = add acc (if length segment \<le> u32_max then length segment else 0)
      in finish_checksum (checksum_words acc segment))"

section \<open>Wrapping and unwrapping\<close>

text \<open>\<open>u16::try_from(n).unwrap_or(u16::MAX)\<close>, and the header before its checksum is filled in.\<close>

definition u16_clamped :: "nat \<Rightarrow> u16" where
  "u16_clamped n = (if n \<le> u16_max then word_of_nat n else word_of_nat u16_max)"

definition ip_header_of :: "u16 \<Rightarrow> ipv4 \<Rightarrow> ipv4 \<Rightarrow> bytes" where
  "ip_header_of total_len src_ip dst_ip =
     (let h = zeros IPV4_HEADER_LEN;
          h = h[0 := IPV4_VERSION_IHL];
          h = h[1 := 0];
          h = put_range h 2 4 (u16_bytes total_len);
          h = put_range h 4 6 (u16_bytes 0);
          h = put_range h 6 8 (u16_bytes IPV4_FLAG_DONT_FRAGMENT);
          h = h[8 := IPV4_TTL];
          h = h[9 := IPV4_PROTO_UDP];
          h = put_range h 10 12 (u16_bytes 0);
          h = put_range h 12 16 (octets src_ip)
      in put_range h 16 20 (octets dst_ip))"

definition wrap_ipv4_udp :: "bytes \<Rightarrow> ipv4 \<Rightarrow> ipv4 \<Rightarrow> u16 \<Rightarrow> u16 \<Rightarrow> bytes" where
  "wrap_ipv4_udp payload src_ip dst_ip src_port dst_port =
     (let total_len = u16_clamped (L3L4_HEADER_LEN + length payload);
          udp_len = u16_clamped (UDP_HEADER_LEN + length payload);
          h = ip_header_of total_len src_ip dst_ip;
          ip_checksum = checksum_ones_complement h;
          h = put_range h 10 12 (u16_bytes ip_checksum);
          buf = h @ u16_bytes src_port @ u16_bytes dst_port @ u16_bytes udp_len @ u16_bytes 0 @ payload;
          ck = udp_checksum src_ip dst_ip (drop IPV4_HEADER_LEN buf);
          ck = (if ck = 0 then 0xFFFF else ck)
      in put_range buf (IPV4_HEADER_LEN + 6) (IPV4_HEADER_LEN + 8) (u16_bytes ck))"

datatype framing_error =
    PacketTooShort nat
  | InvalidHeaderLength nat
  | NonUdpProtocol byte
  | TotalLengthExceeds nat nat
  | InvalidUdpLength nat

definition unwrap_ipv4_udp :: "bytes \<Rightarrow> framing_error + bytes \<times> u16 \<times> u16" where
  "unwrap_ipv4_udp buf =
     (if length buf < L3L4_HEADER_LEN then Err (PacketTooShort (length buf))
      else let ihl = unat (byte_or_zero buf 0 AND 0x0F) * 4 in
      if ihl < IPV4_HEADER_LEN \<or> length buf < ihl + UDP_HEADER_LEN then Err (InvalidHeaderLength ihl)
      else if byte_or_zero buf 9 \<noteq> IPV4_PROTO_UDP then Err (NonUdpProtocol (byte_or_zero buf 9))
      else let total_len = unat (u16_of (byte_or_zero buf 2) (byte_or_zero buf 3)) in
      if length buf < total_len then Err (TotalLengthExceeds total_len (length buf))
      else let udp = (case get_range buf ihl total_len of Some u \<Rightarrow> u | None \<Rightarrow> []);
               src_port = read_u16 udp 0;
               dst_port = read_u16 udp 2;
               udp_len = unat (read_u16 udp 4)
      in if udp_len < UDP_HEADER_LEN \<or> length udp < udp_len then Err (InvalidUdpLength udp_len)
         else Ok (case get_range udp UDP_HEADER_LEN udp_len of Some p \<Rightarrow> p | None \<Rightarrow> [], src_port, dst_port))"

section \<open>Reads and encodings\<close>

lemma length_octets [simp]: "length (octets ip) = 4"
  by (cases ip) simp

lemma octets_nth: "octets ip = [octets ip ! 0, octets ip ! 1, octets ip ! 2, octets ip ! 3]"
  by (cases ip) simp

lemma length_u16_bytes [simp]: "length (u16_bytes x) = 2"
  by (simp add: u16_bytes_def)

lemma unat_u16_of_nat: "n \<le> 65535 \<Longrightarrow> unat (word_of_nat n :: u16) = n"
  by (simp add: unat_of_nat)

lemma unat_u16_of: "unat (u16_of h l) = unat h * 256 + unat l"
proof -
  have eq: "from_be [h, l] = unat h * 256 + unat l" by (simp add: from_be_def)
  have "unat h * 256 + unat l \<le> 65535" using unat_byte_less [of h] unat_byte_less [of l] by linarith
  then show ?thesis unfolding u16_of_def eq by (rule unat_u16_of_nat)
qed

lemma u16_bytes_split:
  obtains h l where "u16_bytes x = [h, l]" "u16_of h l = x"
proof -
  obtain h l where eq: "u16_bytes x = [h, l]"
    using length_u16_bytes [of x]
    by (metis (no_types, lifting) One_nat_def Suc_1 length_0_conv length_Suc_conv)
  have "unat x < 256 ^ 2" using unsigned_less [of x, where 'a = nat] by simp
  then have "from_be [h, l] = unat x" using eq by (metis from_be_to_be_id u16_bytes_def)
  then show thesis using that [OF eq] by (simp add: u16_of_def)
qed

lemma u16_of_bytes [simp]: "u16_of (u16_bytes x ! 0) (u16_bytes x ! Suc 0) = x"
  by (rule u16_bytes_split [of x]) simp

lemma unat_u16_bound: "unat (x :: u16) \<le> 65535"
  using unsigned_less [of x, where 'a = nat] by simp

lemma unat_u16_clamped: "n \<le> u16_max \<Longrightarrow> unat (u16_clamped n) = n"
  by (simp add: u16_clamped_def u16_max_def unat_of_nat)

section \<open>One's complement sums\<close>

text \<open>
  The plain sum of the big-endian words of a buffer, and the representative that end-around
  carries keep: zero for zero, otherwise the number from 1 to 65535 congruent to the sum.
\<close>

fun word_sum :: "bytes \<Rightarrow> nat" where
  "word_sum [] = 0"
| "word_sum [h] = unat h * 256"
| "word_sum (h # l # data) = unat h * 256 + unat l + word_sum data"

definition canonical :: "nat \<Rightarrow> nat" where
  "canonical s = (if s = 0 then 0 else (s - 1) mod 65535 + 1)"

text \<open>The reference of RFC 1071: add the words one by one, each addition with its end-around carry.\<close>

fun words_of :: "bytes \<Rightarrow> nat list" where
  "words_of [] = []"
| "words_of [h] = [unat h * 256]"
| "words_of (h # l # data) = (unat h * 256 + unat l) # words_of data"

definition carry_add :: "nat \<Rightarrow> nat \<Rightarrow> nat" where
  "carry_add w s = (if s + w < 65536 then s + w else s + w - 65535)"

definition rfc1071_checksum :: "bytes \<Rightarrow> u16" where
  "rfc1071_checksum data = NOT (word_of_nat (fold carry_add (words_of data) 0))"

lemma checksum_words_eq: "acc + word_sum data \<le> u32_max \<Longrightarrow> checksum_words acc data = acc + word_sum data"
  by (induction acc data rule: checksum_words.induct) (simp_all add: saturating_add_def unat_u16_of)

lemma word_sum_bound: "word_sum data \<le> 65535 * ((length data + 1) div 2)"
proof (induction data rule: word_sum.induct)
  case (2 h)
  then show ?case using unat_byte_less [of h] by simp
next
  case (3 h l data)
  then show ?case using unat_byte_less [of h] unat_byte_less [of l] by simp
qed simp

lemma word_sum_append: "even (length a) \<Longrightarrow> word_sum (a @ b) = word_sum a + word_sum b"
  by (induction a rule: word_sum.induct) simp_all

lemma word_sum_u16 [simp]: "word_sum (u16_bytes x) = unat x"
  by (rule u16_bytes_split [of x]) (metis add.right_neutral unat_u16_of word_sum.simps(1,3))

lemma canonical_bound: "canonical s \<le> 65535"
  using mod_less_divisor [of 65535 "s - 1"] by (auto simp: canonical_def)

lemma fold_carries_canonical: "s \<le> u32_max \<Longrightarrow> fold_carries s = canonical s"
proof (induction s rule: less_induct)
  case (less s)
  show ?case
  proof (cases "s div 65536 = 0")
    case True
    then have "s < 65536" by (simp add: div_eq_0_iff)
    then show ?thesis using True by (auto simp: fold_carries.simps [of s] canonical_def)
  next
    case False
    let ?q = "s div 65536" and ?r = "s mod 65536"
    have eq: "s = 65536 * ?q + ?r" by simp
    have lt: "?r + ?q < s" using eq False by linarith
    have "s - 1 = (?r + ?q - 1) + 65535 * ?q" using eq False by linarith
    then have "(s - 1) mod 65535 = (?r + ?q - 1) mod 65535" by (metis mod_mult_self2)
    then have "canonical s = canonical (?r + ?q)" using False by (auto simp: canonical_def)
    moreover have "fold_carries s = fold_carries (?r + ?q)"
      using False lt less.prems by (simp add: fold_carries.simps [of s] saturating_add_def min_def)
    ultimately show ?thesis using less.IH [OF lt] lt less.prems by simp
  qed
qed

lemma carry_add_canonical: "w \<le> 65535 \<Longrightarrow> carry_add w (canonical s) = canonical (s + w)"
proof (cases "s = 0")
  case True
  assume "w \<le> 65535"
  then show ?thesis using True by (auto simp: carry_add_def canonical_def)
next
  case False
  assume w: "w \<le> 65535"
  define r where "r = (s - Suc 0) mod 65535"
  have r: "r \<le> 65534" using mod_less_divisor [of 65535 "s - Suc 0"] by (simp add: r_def)
  have "(s + w - 1) mod 65535 = (r + w) mod 65535"
    using False by (simp add: r_def mod_simps)
  also have "\<dots> = (if r + w < 65535 then r + w else r + w - 65535)"
    using r w by (simp add: mod_if)
  finally show ?thesis
    using False r w by (auto simp: carry_add_def canonical_def r_def [symmetric])
qed

lemma fold_carry_add: "fold carry_add (words_of data) (canonical s) = canonical (s + word_sum data)"
proof (induction data arbitrary: s rule: words_of.induct)
  case (2 h)
  then show ?case using unat_byte_less [of h] by (simp add: carry_add_canonical)
next
  case (3 h l data)
  have "unat h * 256 + unat l \<le> 65535" using unat_byte_less [of h] unat_byte_less [of l] by linarith
  then show ?case using 3 [of "s + (unat h * 256 + unat l)"] by (simp add: carry_add_canonical add.assoc)
qed simp

lemma finish_checksum_eq: "s \<le> u32_max \<Longrightarrow> finish_checksum s = NOT (word_of_nat (canonical s))"
  using canonical_bound [of s] by (simp add: finish_checksum_def fold_carries_canonical u16_max_def)

lemma word_sum_le:
  assumes "length data \<le> 2 * k"
  shows "word_sum data \<le> 65535 * k"
proof -
  have "(length data + 1) div 2 \<le> k" using assms by linarith
  then show ?thesis using word_sum_bound [of data] mult_le_mono2 order_trans by blast
qed

lemma not_word16: "n \<le> 65535 \<Longrightarrow> NOT (word_of_nat n :: u16) = word_of_nat (65535 - n)"
  by (simp add: not_eq_complement of_nat_diff)

text \<open>A buffer verifies when the checksum over it, its checksum field included, is zero.\<close>

lemma finish_checksum_verifies:
  assumes "0 < s" "s + 65535 \<le> u32_max"
  shows "finish_checksum (s + unat (finish_checksum s)) = 0"
    and "finish_checksum s = 0 \<Longrightarrow> finish_checksum (s + 65535) = 0"
proof -
  have c: "1 \<le> canonical s" "canonical s \<le> 65535"
    using assms canonical_bound [of s] by (auto simp: canonical_def)
  have f: "unat (finish_checksum s) = 65535 - canonical s"
    using assms c by (simp only: finish_checksum_eq not_word16 unat_u16_of_nat)
  have "s - 1 + 65535 = canonical s - 1 + 65535 * ((s - 1) div 65535 + 1)"
    using assms by (simp add: canonical_def)
  then have e: "s + (65535 - canonical s) - 1 = 65535 * ((s - 1) div 65535) + 65534"
    using assms c by (simp add: algebra_simps)
  have m: "(s + (65535 - canonical s) - 1) mod 65535 = 65534" unfolding e by simp
  have "canonical (s + (65535 - canonical s)) = 65535"
    using assms by (simp only: canonical_def [of "s + (65535 - canonical s)"] m) simp
  then show z: "finish_checksum (s + unat (finish_checksum s)) = 0"
    unfolding f using assms by (subst finish_checksum_eq) simp_all
  assume "finish_checksum s = 0"
  then have "canonical s = 65535" using f c by simp
  moreover have "s + 65535 - Suc 0 = (s - Suc 0) + 65535" using assms by simp
  then have "(s + 65535 - Suc 0) mod 65535 = (s - Suc 0) mod 65535" by (simp only: mod_add_self2)
  ultimately have "canonical (s + 65535) = 65535"
    using assms by (simp add: canonical_def)
  then show "finish_checksum (s + 65535) = 0"
    using assms by (simp add: finish_checksum_eq)
qed

section \<open>The frame\<close>

text \<open>The first ten bytes of the header, and the whole frame as a concatenation of its fields.\<close>

definition ip_prefix :: "u16 \<Rightarrow> bytes" where
  "ip_prefix total_len =
     [IPV4_VERSION_IHL, 0] @ u16_bytes total_len @ u16_bytes 0 @ u16_bytes IPV4_FLAG_DONT_FRAGMENT
     @ [IPV4_TTL, IPV4_PROTO_UDP]"

lemma length_ip_prefix [simp]: "length (ip_prefix t) = 10"
  by (simp add: ip_prefix_def)

lemma ip_header_of_eq:
  "ip_header_of t src dst = ip_prefix t @ u16_bytes 0 @ octets src @ octets dst"
proof -
  obtain a b c d where src: "src = Ipv4 a b c d" by (cases src)
  obtain e f g h where dst: "dst = Ipv4 e f g h" by (cases dst)
  obtain i j where t: "u16_bytes t = [i, j]" by (rule u16_bytes_split)
  have z: "u16_bytes 0 = [0, 0]" by (simp add: u16_bytes_def to_be_def numeral_2_eq_2)
  obtain m n where df: "u16_bytes IPV4_FLAG_DONT_FRAGMENT = [m, n]" by (rule u16_bytes_split)
  have zs: "zeros IPV4_HEADER_LEN = [0,0,0,0,0,0,0,0,0,0,0,0,0,0,0,0,0,0,0,0]"
    by (simp add: zeros_def numeral_eq_Suc)
  show ?thesis
    by (simp add: ip_header_of_def ip_prefix_def zs src dst t z df put_range_def Let_def)
qed

lemma length_ip_header_of [simp]: "length (ip_header_of t src dst) = 20"
  by (simp add: ip_header_of_eq)

definition sealed_header :: "u16 \<Rightarrow> ipv4 \<Rightarrow> ipv4 \<Rightarrow> bytes" where
  "sealed_header t src dst =
     ip_prefix t @ u16_bytes (checksum_ones_complement (ip_header_of t src dst)) @ octets src @ octets dst"

definition udp_segment :: "u16 \<Rightarrow> u16 \<Rightarrow> u16 \<Rightarrow> u16 \<Rightarrow> bytes \<Rightarrow> bytes" where
  "udp_segment src_port dst_port udp_len ck payload =
     u16_bytes src_port @ u16_bytes dst_port @ u16_bytes udp_len @ u16_bytes ck @ payload"

definition sealed_udp_checksum :: "ipv4 \<Rightarrow> ipv4 \<Rightarrow> bytes \<Rightarrow> u16" where
  "sealed_udp_checksum src dst segment =
     (let ck = udp_checksum src dst segment in if ck = 0 then 0xFFFF else ck)"

lemma length_sealed_header [simp]: "length (sealed_header t src dst) = 20"
  by (simp add: sealed_header_def)

lemma length_udp_segment [simp]: "length (udp_segment sp dp ul ck payload) = 8 + length payload"
  by (simp add: udp_segment_def)

lemma wrap_ipv4_udp_eq:
  "wrap_ipv4_udp payload src dst sp dp =
     (let ul = u16_clamped (8 + length payload) in
      sealed_header (u16_clamped (28 + length payload)) src dst
      @ udp_segment sp dp ul (sealed_udp_checksum src dst (udp_segment sp dp ul 0 payload)) payload)"
proof -
  let ?t = "u16_clamped (28 + length payload)" and ?ul = "u16_clamped (8 + length payload)"
  let ?h = "sealed_header ?t src dst" and ?ck = "checksum_ones_complement (ip_header_of ?t src dst)"
  have h: "put_range (ip_header_of ?t src dst) 10 12 (u16_bytes ?ck) = ?h"
    unfolding ip_header_of_eq sealed_header_def by (rule put_range_middle) simp_all
  have drop: "drop 20 (?h @ udp_segment sp dp ?ul 0 payload) = udp_segment sp dp ?ul 0 payload"
    by simp
  have put: "put_range (?h @ udp_segment sp dp ?ul 0 payload) 26 28 (u16_bytes ck)
      = ?h @ udp_segment sp dp ?ul ck payload" for ck
  proof -
    have "put_range ((?h @ u16_bytes sp @ u16_bytes dp @ u16_bytes ?ul) @ u16_bytes 0 @ payload) 26 28 (u16_bytes ck)
        = (?h @ u16_bytes sp @ u16_bytes dp @ u16_bytes ?ul) @ u16_bytes ck @ payload"
      by (rule put_range_middle) simp_all
    then show ?thesis by (simp only: udp_segment_def append_assoc)
  qed
  show ?thesis
    using put drop h
    by (simp add: wrap_ipv4_udp_def sealed_udp_checksum_def udp_segment_def Let_def
        )
qed

text \<open>Reads of a concatenation at a known position.\<close>

lemma byte_or_zero_append:
  "byte_or_zero (a @ b) i = (if i < length a then byte_or_zero a i else byte_or_zero b (i - length a))"
  by (auto simp: byte_or_zero_def nth_append)

lemma byte_or_zero_Cons: "byte_or_zero (x # xs) i = (if i = 0 then x else byte_or_zero xs (i - 1))"
  by (cases i) (auto simp: byte_or_zero_def)

lemma read_u16_at:
  assumes "length a = i"
  shows "read_u16 (a @ u16_bytes x @ b) i = x"
  using assms by (auto simp: read_u16_def byte_or_zero_def nth_append)

lemma wrap_reads:
  assumes buf_def: "buf = wrap_ipv4_udp payload src dst sp dp"
  shows "length buf = 28 + length payload" "byte_or_zero buf 0 = 0x45" "byte_or_zero buf 9 = 17"
    "u16_of (byte_or_zero buf 2) (byte_or_zero buf 3) = u16_clamped (28 + length payload)"
    "get_range buf 20 (28 + length payload) = Some (udp_segment sp dp (u16_clamped (8 + length payload))
       (sealed_udp_checksum src dst (udp_segment sp dp (u16_clamped (8 + length payload)) 0 payload)) payload)"
proof -
  have buf: "buf = sealed_header (u16_clamped (28 + length payload)) src dst
      @ udp_segment sp dp (u16_clamped (8 + length payload))
       (sealed_udp_checksum src dst (udp_segment sp dp (u16_clamped (8 + length payload)) 0 payload)) payload"
    by (simp add: buf_def wrap_ipv4_udp_eq Let_def)
  show "length buf = 28 + length payload" by (simp add: buf)
  show "byte_or_zero buf 0 = 0x45" "byte_or_zero buf 9 = 17"
    by (simp_all add: buf sealed_header_def ip_prefix_def byte_or_zero_append byte_or_zero_Cons
        )
  obtain h l where hl: "u16_bytes (u16_clamped (28 + length payload)) = [h, l]"
      "u16_of h l = u16_clamped (28 + length payload)"
    by (rule u16_bytes_split)
  then show "u16_of (byte_or_zero buf 2) (byte_or_zero buf 3) = u16_clamped (28 + length payload)"
    by (simp add: buf sealed_header_def ip_prefix_def byte_or_zero_append byte_or_zero_Cons)
  show "get_range buf 20 (28 + length payload) = Some (udp_segment sp dp (u16_clamped (8 + length payload))
       (sealed_udp_checksum src dst (udp_segment sp dp (u16_clamped (8 + length payload)) 0 payload)) payload)"
    by (simp add: buf get_range_def)
qed

lemma udp_segment_reads:
  "read_u16 (udp_segment sp dp ul ck payload) 0 = sp"
  "read_u16 (udp_segment sp dp ul ck payload) 2 = dp"
  "read_u16 (udp_segment sp dp ul ck payload) 4 = ul"
  "get_range (udp_segment sp dp ul ck payload) 8 (8 + length payload) = Some payload"
  using read_u16_at [of "[]" 0 sp] read_u16_at [of "u16_bytes sp" 2 dp]
    read_u16_at [of "u16_bytes sp @ u16_bytes dp" 4 ul]
  by (simp_all add: udp_segment_def get_range_def)

lemma unwrap_wrap:
  assumes "length payload \<le> 65507"
  shows "unwrap_ipv4_udp (wrap_ipv4_udp payload src dst sp dp) = Ok (payload, sp, dp)"
proof -
  have n: "unat (u16_clamped (28 + length payload)) = 28 + length payload"
      "unat (u16_clamped (8 + length payload)) = 8 + length payload"
    using assms by (simp_all add: unat_u16_clamped u16_max_def)
  show ?thesis
    using wrap_reads [OF refl, of payload src dst sp dp]
    by (simp add: unwrap_ipv4_udp_def 
        Let_def n udp_segment_reads)
qed

section \<open>Checksums of the frame\<close>

definition pseudo_sum :: "ipv4 \<Rightarrow> ipv4 \<Rightarrow> nat \<Rightarrow> nat" where
  "pseudo_sum src dst n = word_sum (octets src) + word_sum (octets dst) + 17 + n"

lemma word_sum_octets: "word_sum (octets ip) \<le> 131070"
  using word_sum_bound [of "octets ip"] by simp

lemma word_sum_octets_nth:
  "word_sum (octets ip) = unat (u16_of (octets ip ! 0) (octets ip ! 1))
     + unat (u16_of (octets ip ! 2) (octets ip ! 3))"
  by (cases ip) (simp add: unat_u16_of)

lemma udp_checksum_eq:
  assumes "length segment \<le> 65535"
  shows "udp_checksum src dst segment = finish_checksum (pseudo_sum src dst (length segment) + word_sum segment)"
proof -
  have "word_sum segment \<le> 65535 * 32768" using assms by (intro word_sum_le) simp
  then show ?thesis
    using word_sum_octets [of src] word_sum_octets [of dst] assms
    by (simp add: udp_checksum_def Let_def pseudo_sum_def saturating_add_def u32_max_def
        word_sum_octets_nth [of src] word_sum_octets_nth [of dst] checksum_words_eq min_def add.assoc)
qed

lemma word_sum_udp_segment:
  "word_sum (udp_segment sp dp ul ck payload) = unat ck + word_sum (udp_segment sp dp ul 0 payload)"
  by (simp add: udp_segment_def word_sum_append)

lemma sealed_header_verifies: "checksum_ones_complement (sealed_header t src dst) = 0"
proof -
  let ?h = "ip_header_of t src dst"
  have len: "length ?h = 20" by (simp add: ip_header_of_eq)
  have sum: "word_sum (sealed_header t src dst) = word_sum ?h + unat (checksum_ones_complement ?h)"
    by (simp add: sealed_header_def ip_header_of_eq word_sum_append)
  have le: "word_sum ?h \<le> 655350" using word_sum_bound [of ?h] len by simp
  have "word_sum [IPV4_VERSION_IHL, 0] \<le> word_sum ?h"
    by (simp add: ip_header_of_eq ip_prefix_def word_sum_append)
  then have pos: "0 < word_sum ?h" by simp
  have "unat (checksum_ones_complement ?h) \<le> 65535" by (rule unat_u16_bound)
  then show ?thesis
    using finish_checksum_verifies(1) [of "word_sum ?h"] le pos sum
    by (simp add: checksum_ones_complement_def checksum_words_eq u32_max_def)
qed

lemma sealed_udp_verifies:
  assumes "length payload \<le> 65507"
  shows "udp_checksum src dst (udp_segment sp dp ul
           (sealed_udp_checksum src dst (udp_segment sp dp ul 0 payload)) payload) = 0"
proof -
  let ?s0 = "udp_segment sp dp ul 0 payload"
  let ?n = "pseudo_sum src dst (length ?s0) + word_sum ?s0"
  have "word_sum ?s0 \<le> 65535 * 32768" using assms by (intro word_sum_le) simp
  then have le: "?n + 65535 \<le> u32_max" and pos: "0 < ?n"
    using word_sum_octets [of src] word_sum_octets [of dst] assms
    by (simp_all add: pseudo_sum_def u32_max_def)
  have eq: "udp_checksum src dst (udp_segment sp dp ul ck payload) = finish_checksum (?n + unat ck)" for ck
    using assms by (simp add: udp_checksum_eq) (simp add: word_sum_udp_segment [of sp dp ul ck] add_ac)
  have z: "udp_checksum src dst ?s0 = finish_checksum ?n" using eq [of 0] by simp
  show ?thesis
  proof (cases "finish_checksum ?n = 0")
    case True
    then have "sealed_udp_checksum src dst ?s0 = 0xFFFF" by (simp only: sealed_udp_checksum_def z Let_def) simp
    then show ?thesis using finish_checksum_verifies(2) [OF pos le True] by (simp only: eq) simp
  next
    case False
    then have "sealed_udp_checksum src dst ?s0 = finish_checksum ?n"
      by (simp only: sealed_udp_checksum_def z Let_def) simp
    then show ?thesis using finish_checksum_verifies(1) [OF pos le] by (simp only: eq)
  qed
qed

end
