(* ===== verification/Dhcp_Codec.thy ===== *)
theory Dhcp_Codec
  imports Dhcp_Framing
begin

text \<open>
  DHCP messages: \<open>services/networkd/src/dhcp/packet/\<close> (header construction and field reads) and
  \<open>codec.rs\<close> (option parsing, response validation, leases).  The option parser keeps the cursor of
  the source; offsets stay below the length of the buffer, so the saturating additions on \<open>usize\<close>
  never saturate.  Times are seconds; \<open>SystemTime::now()\<close> is an argument.
\<close>

section \<open>Fields and codes\<close>

abbreviation (input) F_OP :: nat where "F_OP \<equiv> 0"
abbreviation (input) F_HTYPE :: nat where "F_HTYPE \<equiv> 1"
abbreviation (input) F_HLEN :: nat where "F_HLEN \<equiv> 2"
abbreviation (input) F_HOPS :: nat where "F_HOPS \<equiv> 3"
abbreviation (input) F_XID :: nat where "F_XID \<equiv> 4"
abbreviation (input) F_FLAGS :: nat where "F_FLAGS \<equiv> 10"
abbreviation (input) F_YIADDR :: nat where "F_YIADDR \<equiv> 16"
abbreviation (input) F_CHADDR :: nat where "F_CHADDR \<equiv> 28"
abbreviation (input) F_HEADER_LEN :: nat where "F_HEADER_LEN \<equiv> 236"

abbreviation (input) MT_DISCOVER :: byte where "MT_DISCOVER \<equiv> 1"
abbreviation (input) MT_OFFER :: byte where "MT_OFFER \<equiv> 2"
abbreviation (input) MT_REQUEST :: byte where "MT_REQUEST \<equiv> 3"
abbreviation (input) MT_ACK :: byte where "MT_ACK \<equiv> 5"
abbreviation (input) MT_NAK :: byte where "MT_NAK \<equiv> 6"

abbreviation (input) OPT_SUBNET_MASK :: byte where "OPT_SUBNET_MASK \<equiv> 1"
abbreviation (input) OPT_ROUTER :: byte where "OPT_ROUTER \<equiv> 3"
abbreviation (input) OPT_DNS_SERVER :: byte where "OPT_DNS_SERVER \<equiv> 6"
abbreviation (input) OPT_REQUESTED_IP :: byte where "OPT_REQUESTED_IP \<equiv> 50"
abbreviation (input) OPT_LEASE_TIME :: byte where "OPT_LEASE_TIME \<equiv> 51"
abbreviation (input) OPT_MESSAGE_TYPE :: byte where "OPT_MESSAGE_TYPE \<equiv> 53"
abbreviation (input) OPT_SERVER_ID :: byte where "OPT_SERVER_ID \<equiv> 54"
abbreviation (input) OPT_PARAM_REQUEST_LIST :: byte where "OPT_PARAM_REQUEST_LIST \<equiv> 55"
abbreviation (input) OPT_END :: byte where "OPT_END \<equiv> 255"

definition MAGIC_COOKIE :: bytes where "MAGIC_COOKIE = [99, 130, 83, 99]"
abbreviation (input) BOOTREQUEST :: byte where "BOOTREQUEST \<equiv> 1"
abbreviation (input) HTYPE_ETHERNET :: byte where "HTYPE_ETHERNET \<equiv> 1"
abbreviation (input) HLEN_ETHERNET :: byte where "HLEN_ETHERNET \<equiv> 6"
abbreviation (input) FLAG_BROADCAST :: u16 where "FLAG_BROADCAST \<equiv> 0x8000"
abbreviation (input) DHCP_CLIENT_PORT :: u16 where "DHCP_CLIENT_PORT \<equiv> 68"
abbreviation (input) DHCP_SERVER_PORT :: u16 where "DHCP_SERVER_PORT \<equiv> 67"
abbreviation (input) DHCP_TIMEOUT_SECS :: nat where "DHCP_TIMEOUT_SECS \<equiv> 10"
abbreviation (input) DEFAULT_LEASE_SECS :: nat where "DEFAULT_LEASE_SECS \<equiv> 3600"
abbreviation (input) DEFAULT_PREFIX_LEN :: nat where "DEFAULT_PREFIX_LEN \<equiv> 24"
abbreviation (input) DHCP_HEADER_LEN :: nat where "DHCP_HEADER_LEN \<equiv> F_HEADER_LEN + length MAGIC_COOKIE"

section \<open>Building messages\<close>

type_synonym u32 = "32 word"

definition build_header :: "u32 \<Rightarrow> bytes \<Rightarrow> bytes" where
  "build_header xid mac =
     (let buf = zeros DHCP_HEADER_LEN;
          buf = buf[F_OP := BOOTREQUEST];
          buf = buf[F_HTYPE := HTYPE_ETHERNET];
          buf = buf[F_HLEN := HLEN_ETHERNET];
          buf = buf[F_HOPS := 0];
          buf = put_range buf F_XID (F_XID + 4) (to_be 4 (unat xid));
          buf = put_range buf F_FLAGS (F_FLAGS + 2) (u16_bytes FLAG_BROADCAST);
          buf = put_range buf F_CHADDR (F_CHADDR + 6) mac
      in put_range buf F_HEADER_LEN (F_HEADER_LEN + 4) MAGIC_COOKIE)"

definition build_unicast_header :: "u32 \<Rightarrow> bytes \<Rightarrow> bytes" where
  "build_unicast_header xid mac = put_range (build_header xid mac) F_FLAGS (F_FLAGS + 2) (u16_bytes 0)"

definition REQUESTED_PARAMS :: bytes where
  "REQUESTED_PARAMS = [OPT_SUBNET_MASK, OPT_ROUTER, OPT_DNS_SERVER, OPT_LEASE_TIME]"

definition append_param_request_list :: "bytes \<Rightarrow> bytes" where
  "append_param_request_list msg =
     msg @ [OPT_PARAM_REQUEST_LIST,
            if length REQUESTED_PARAMS \<le> u8_max then word_of_nat (length REQUESTED_PARAMS) else 0]
         @ REQUESTED_PARAMS"

definition build_request_message :: "u32 \<Rightarrow> bytes \<Rightarrow> ipv4 \<Rightarrow> bool \<Rightarrow> bytes" where
  "build_request_message xid mac assigned_ip unicast =
     (let msg = (if unicast then build_unicast_header xid mac else build_header xid mac);
          msg = msg @ [OPT_MESSAGE_TYPE, 1, MT_REQUEST];
          msg = msg @ [OPT_REQUESTED_IP, 4];
          msg = msg @ octets assigned_ip;
          msg = append_param_request_list msg
      in msg @ [OPT_END])"

section \<open>Reading messages\<close>

definition yiaddr :: "bytes \<Rightarrow> ipv4" where
  "yiaddr buf = Ipv4 (byte_or_zero buf F_YIADDR) (byte_or_zero buf (F_YIADDR + 1))
                     (byte_or_zero buf (F_YIADDR + 2)) (byte_or_zero buf (F_YIADDR + 3))"

definition xid_of :: "bytes \<Rightarrow> u32" where
  "xid_of buf = word_of_nat (from_be [byte_or_zero buf F_XID, byte_or_zero buf (F_XID + 1),
                                      byte_or_zero buf (F_XID + 2), byte_or_zero buf (F_XID + 3)])"

record parsed_options =
  message_type :: "byte option"
  server_id :: "ipv4 option"
  subnet_mask :: "ipv4 option"
  router :: "ipv4 option"
  dns_servers :: "ipv4 list"
  lease_time :: "nat option"

definition no_options :: parsed_options where
  "no_options = \<lparr>message_type = None, server_id = None, subnet_mask = None, router = None,
                 dns_servers = [], lease_time = None\<rparr>"

definition ipv4_from_chunk :: "bytes \<Rightarrow> ipv4 option" where
  "ipv4_from_chunk chunk =
     (case chunk of a # b # c # d # _ \<Rightarrow> Some (Ipv4 a b c d) | _ \<Rightarrow> None)"

text \<open>One option of the list: the match on its code, each arm with the guard on its length.\<close>

definition apply_option :: "byte \<Rightarrow> bytes \<Rightarrow> parsed_options \<Rightarrow> parsed_options" where
  "apply_option code data p =
     (let n = length data in
      if code = OPT_MESSAGE_TYPE \<and> n = 1 then p\<lparr>message_type := Some (hd data)\<rparr>
      else if code = OPT_SUBNET_MASK \<and> n = 4 then p\<lparr>subnet_mask := ipv4_from_chunk data\<rparr>
      else if code = OPT_ROUTER \<and> n \<ge> 4 then p\<lparr>router := ipv4_from_chunk data\<rparr>
      else if code = OPT_DNS_SERVER \<and> n \<ge> 4 \<and> n mod 4 = 0
      then p\<lparr>dns_servers := dns_servers p @ List.map_filter ipv4_from_chunk (chunks_exact 4 data)\<rparr>
      else if code = OPT_LEASE_TIME \<and> n = 4 then p\<lparr>lease_time := Some (from_be data)\<rparr>
      else if code = OPT_SERVER_ID \<and> n = 4 then p\<lparr>server_id := ipv4_from_chunk data\<rparr>
      else p)"

function parse_from :: "bytes \<Rightarrow> nat \<Rightarrow> parsed_options \<Rightarrow> parsed_options" where
  "parse_from bs cursor p =
     (if cursor < length bs then
        let code = bs ! cursor in
        if code = OPT_END then p
        else if code = 0 then parse_from bs (cursor + 1) p
        else if cursor + 1 < length bs then
          (case get_range bs (cursor + 2) (cursor + 2 + unat (bs ! (cursor + 1))) of
             None \<Rightarrow> p
           | Some data \<Rightarrow>
               parse_from bs (cursor + 2 + unat (bs ! (cursor + 1))) (apply_option code data p))
        else p
      else p)"
  by pat_completeness auto
termination
  by (relation "measure (\<lambda>(bs, cursor, _). length bs - cursor)") auto

declare parse_from.simps [simp del]

definition parse_options :: "bytes \<Rightarrow> parsed_options" where
  "parse_options bs = parse_from bs 0 no_options"

text \<open>
  The errors of the client: those of \<open>validate_response\<close>, and those of the exchange around it
  (a receive or send that fails, a timeout, an offer without a server identifier).
\<close>

datatype dhcp_error =
    ResponseTooShort nat
  | XidMismatch
  | ResponseTruncated
  | DhcpNak
  | UnexpectedMessageType byte byte
  | MissingMessageType
  | NoServerIdentifier
  | RandomFailed
  | TimedOut
  | SocketError
  | NoAttempt

definition validate_response :: "bytes \<Rightarrow> nat \<Rightarrow> u32 \<Rightarrow> byte \<Rightarrow> dhcp_error + parsed_options" where
  "validate_response buf len expected_xid expected_type =
     (if len < F_HEADER_LEN + length MAGIC_COOKIE then Err (ResponseTooShort len)
      else if xid_of buf \<noteq> expected_xid then Err XidMismatch
      else case get_range buf (F_HEADER_LEN + length MAGIC_COOKIE) len of
        None \<Rightarrow> Err ResponseTruncated
      | Some opts_bytes \<Rightarrow>
          let opts = parse_options opts_bytes in
          case message_type opts of
            None \<Rightarrow> Err MissingMessageType
          | Some msg_type \<Rightarrow>
              if msg_type = MT_NAK then Err DhcpNak
              else if msg_type = expected_type then Ok opts
              else Err (UnexpectedMessageType expected_type msg_type))"

section \<open>Leases\<close>

record lease =
  obtained_at :: nat
  lease_secs :: nat
  renewal_secs :: nat
  rebind_secs :: nat
  server_ip :: ipv4
  assigned_ip :: ipv4
  prefix_len :: nat
  gateway :: "ipv4 option"
  lease_dns :: "ipv4 list"

definition count_ones :: "byte \<Rightarrow> nat" where
  "count_ones b = length (filter (bit b) [0..<8])"

definition prefix_of_mask :: "ipv4 \<Rightarrow> nat" where
  "prefix_of_mask m =
     (let ones = sum_list (map count_ones (octets m))
      in if ones \<le> u8_max then ones else DEFAULT_PREFIX_LEN)"

definition build_lease_from_ack :: "nat \<Rightarrow> ipv4 \<Rightarrow> ipv4 \<Rightarrow> parsed_options \<Rightarrow> lease" where
  "build_lease_from_ack now ip server opts =
     (let secs = (case lease_time opts of Some t \<Rightarrow> t | None \<Rightarrow> DEFAULT_LEASE_SECS);
          plen = (case subnet_mask opts of Some m \<Rightarrow> prefix_of_mask m | None \<Rightarrow> DEFAULT_PREFIX_LEN);
          renewal = secs div 2;
          rebind = saturating_mul u32_max secs 7 div 8
      in \<lparr>obtained_at = now, lease_secs = secs, renewal_secs = renewal, rebind_secs = rebind,
          server_ip = server, assigned_ip = ip, prefix_len = plen, gateway = router opts,
          lease_dns = dns_servers opts\<rparr>)"

text \<open>
  \<open>Lease::expiry\<close>: \<open>SystemTime::checked_add\<close> answers \<open>None\<close> past the largest time of the platform,
  which is the bound \<open>time_max\<close> (signed 64-bit seconds).
\<close>

definition time_max :: nat where "time_max = 9223372036854775807"

definition lease_expiry :: "lease \<Rightarrow> nat" where
  "lease_expiry l =
     (case checked_add time_max (obtained_at l) (lease_secs l) of Some t \<Rightarrow> t | None \<Rightarrow> obtained_at l)"

section \<open>The option list as a sequence of options\<close>

text \<open>
  The reference reading of RFC 2132: padding bytes and tag-length-value triples, up to the end
  marker or to the first option that does not fit in the buffer.
\<close>

datatype dhcp_option = Pad | Opt byte bytes

primrec encode_option :: "dhcp_option \<Rightarrow> bytes" where
  "encode_option Pad = [0]"
| "encode_option (Opt code data) = code # word_of_nat (length data) # data"

primrec option_ok :: "dhcp_option \<Rightarrow> bool" where
  "option_ok Pad = True"
| "option_ok (Opt code data) = (code \<noteq> 0 \<and> code \<noteq> OPT_END \<and> length data \<le> 255)"

primrec apply_tlv :: "dhcp_option \<Rightarrow> parsed_options \<Rightarrow> parsed_options" where
  "apply_tlv Pad p = p"
| "apply_tlv (Opt code data) p = apply_option code data p"

definition encode_options :: "dhcp_option list \<Rightarrow> bytes" where
  "encode_options opts = concat (map encode_option opts)"

definition list_ends :: "bytes \<Rightarrow> bool" where
  "list_ends rest \<longleftrightarrow>
     (case rest of
        [] \<Rightarrow> True
      | code # tail \<Rightarrow> code = OPT_END \<or>
          (code \<noteq> 0 \<and> (case tail of [] \<Rightarrow> True | n # data \<Rightarrow> length data < unat n)))"

lemma encode_options_simps [simp]:
  "encode_options [] = []"
  "encode_options (opt # opts) = encode_option opt @ encode_options opts"
  by (simp_all add: encode_options_def)

lemma unat_byte_of_nat: "n \<le> 255 \<Longrightarrow> unat (word_of_nat n :: byte) = n"
  by (simp add: unat_of_nat)

lemma parse_from_end:
  assumes "list_ends rest"
  shows "parse_from (a @ rest) (length a) p = p"
  using assms
  by (auto simp: parse_from.simps [of "a @ rest" "length a" p] list_ends_def nth_append get_range_def Let_def
      split: list.splits)

lemma parse_from_pad: "parse_from (a @ 0 # rest) (length a) p = parse_from (a @ 0 # rest) (length a + 1) p"
  by (subst parse_from.simps) simp

lemma parse_from_opt:
  assumes "code \<noteq> 0" "code \<noteq> OPT_END" "length data = unat n"
  shows "parse_from (a @ code # n # data @ rest) (length a) p =
    parse_from (a @ code # n # data @ rest) (length a + 2 + unat n) (apply_option code data p)"
  using assms by (subst parse_from.simps) (simp add: nth_append get_range_def)

lemma parse_from_encode:
  "list_all option_ok opts \<Longrightarrow> list_ends rest \<Longrightarrow>
   parse_from (a @ encode_options opts @ rest) (length a) p = fold apply_tlv opts p"
proof (induction opts arbitrary: a p)
  case Nil
  then show ?case by (simp add: parse_from_end)
next
  case (Cons opt opts)
  show ?case
  proof (cases opt)
    case Pad
    then show ?thesis
      using Cons.IH [of "a @ [0]" p] Cons.prems parse_from_pad [of a "encode_options opts @ rest" p] by simp
  next
    case (Opt code data)
    let ?n = "word_of_nat (length data) :: byte"
    have ok: "code \<noteq> 0" "code \<noteq> OPT_END" "length data = unat ?n"
      using Cons.prems Opt by (simp_all add: unat_byte_of_nat)
    show ?thesis
      using Cons.IH [of "a @ code # ?n # data" "apply_option code data p"] Cons.prems Opt ok(3)
        parse_from_opt [OF ok, of a "encode_options opts @ rest" p]
      by (simp add: add.assoc)
  qed
qed

lemma split_options:
  obtains opts rest where "bs = encode_options opts @ rest" "list_all option_ok opts" "list_ends rest"
proof (induction bs arbitrary: thesis rule: length_induct)
  case (1 bs)
  show ?case
  proof (cases "list_ends bs")
    case True
    then show ?thesis using 1(2) [of "[]" bs] by simp
  next
    case False
    then obtain code tail where bs: "bs = code # tail" "code \<noteq> OPT_END"
      by (auto simp: list_ends_def split: list.splits)
    show ?thesis
    proof (cases "code = 0")
      case True
      obtain opts rest where "tail = encode_options opts @ rest" "list_all option_ok opts" "list_ends rest"
        using 1(1) bs by (metis length_Cons lessI)
      then show ?thesis using 1(2) [of "Pad # opts" rest] bs True by simp
    next
      case nz: False
      then obtain n data where tail: "tail = n # data" "unat n \<le> length data"
        using False bs by (auto simp: list_ends_def split: list.splits)
      obtain opts rest where o: "drop (unat n) data = encode_options opts @ rest"
          "list_all option_ok opts" "list_ends rest"
        using 1(1) bs tail by (metis le_imp_less_Suc length_Cons length_drop diff_le_self less_SucI)
      have "bs = encode_options (Opt code (take (unat n) data) # opts) @ rest"
        using bs tail o(1) by (simp add: min_absorb2) (metis append_take_drop_id)
      then show ?thesis
        using 1(2) [of "Opt code (take (unat n) data) # opts" rest] o bs nz tail unat_byte_less [of n]
        by simp
    qed
  qed
qed

section \<open>Messages\<close>

lemma bytes_at4:
  assumes "get_range buf i (i + 4) = Some d"
  shows "[byte_or_zero buf i, byte_or_zero buf (i + 1), byte_or_zero buf (i + 2), byte_or_zero buf (i + 3)] = d"
proof -
  have le: "i + 4 \<le> length buf" and d: "d = take 4 (drop i buf)"
    using assms by (auto simp: get_range_def split: if_splits)
  have "drop i buf = buf ! i # buf ! (i + 1) # buf ! (i + 2) # buf ! (i + 3) # drop (i + 4) buf"
    using le by (simp add: Cons_nth_drop_Suc eval_nat_numeral)
  then show ?thesis using le d by (simp add: byte_or_zero_def)
qed

lemma xid_of_get: "get_range buf 4 8 = Some (to_be 4 (unat (x :: u32))) \<Longrightarrow> xid_of buf = x"
proof -
  assume "get_range buf 4 8 = Some (to_be 4 (unat x))"
  then have "[byte_or_zero buf 4, byte_or_zero buf (4 + 1), byte_or_zero buf (4 + 2), byte_or_zero buf (4 + 3)] = to_be 4 (unat x)"
    by (intro bytes_at4) simp
  moreover have "from_be (to_be 4 (unat x)) = unat x"
    using unsigned_less [of x, where 'a = nat] by simp
  ultimately show ?thesis by (simp add: xid_of_def)
qed

lemma length_build_header [simp]: "length mac = 6 \<Longrightarrow> length (build_header x mac) = 240"
  by (simp add: build_header_def Let_def MAGIC_COOKIE_def)

lemma length_build_unicast_header [simp]: "length mac = 6 \<Longrightarrow> length (build_unicast_header x mac) = 240"
  by (simp add: build_unicast_header_def)

lemma build_header_xid: "length mac = 6 \<Longrightarrow> get_range (build_header x mac) 4 8 = Some (to_be 4 (unat x))"
  by (simp add: build_header_def Let_def MAGIC_COOKIE_def)

lemma build_unicast_header_xid:
  "length mac = 6 \<Longrightarrow> get_range (build_unicast_header x mac) 4 8 = Some (to_be 4 (unat x))"
  by (simp add: build_unicast_header_def build_header_xid)

text \<open>The client address field stays zero in every message, renewals included.\<close>

lemma build_header_ciaddr:
  "length mac = 6 \<Longrightarrow> get_range (build_header x mac) 12 16 = Some (zeros 4)"
  by (simp add: build_header_def Let_def MAGIC_COOKIE_def get_range_def
      put_range_def zeros_def)

lemma request_options:
  "append_param_request_list msg = msg @ encode_options [Opt OPT_PARAM_REQUEST_LIST REQUESTED_PARAMS]"
  by (simp add: append_param_request_list_def REQUESTED_PARAMS_def u8_max_def)

section \<open>Lease timing\<close>

lemma build_lease_simps [simp]:
  "obtained_at (build_lease_from_ack t ip srv opts) = t"
  "assigned_ip (build_lease_from_ack t ip srv opts) = ip"
  "server_ip (build_lease_from_ack t ip srv opts) = srv"
  "gateway (build_lease_from_ack t ip srv opts) = router opts"
  "lease_dns (build_lease_from_ack t ip srv opts) = dns_servers opts"
  by (simp_all add: build_lease_from_ack_def Let_def)

lemma count_ones_le: "count_ones b \<le> 8"
  using length_filter_le [of "bit b" "[0..<8]"] by (simp add: count_ones_def)

lemma prefix_of_mask_le: "prefix_of_mask m \<le> 32"
proof (cases m)
  case (Ipv4 a b c d)
  then show ?thesis
    using count_ones_le [of a] count_ones_le [of b] count_ones_le [of c] count_ones_le [of d]
    by (simp add: prefix_of_mask_def u8_max_def)
qed

end
