(* ===== verification/Dhcp_Client.thy ===== *)
theory Dhcp_Client
  imports Dhcp_Codec
begin

text \<open>
  The DHCP exchanges: \<open>services/networkd/src/dhcp/client.rs\<close> and the retry loop of \<open>manager.rs\<close>.
  A socket is the list of what its receive calls will return, the frames sent so far, and whether
  the next send succeeds.  A receive loop that has consumed the whole list is still waiting, which
  is the value \<^const>\<open>None\<close>; the code waits at most ten seconds per receive, so an idle network
  shows up as the entry \<open>RecvTimeout\<close>.
\<close>

section \<open>Sockets\<close>

datatype recv = RecvFrame bytes | RecvTimeout | RecvError

record raw_socket =
  inbox :: "recv list"
  sent :: "bytes list"
  send_ok :: "nat \<Rightarrow> bool"

text \<open>\<open>socket.send_to(..).await?\<close>: the outcome may depend on how many frames went out before.\<close>

definition send_frame :: "bytes \<Rightarrow> raw_socket \<Rightarrow> (dhcp_error + unit) \<times> raw_socket" where
  "send_frame frame sock =
     (if send_ok sock (length (sent sock)) then (Ok (), sock\<lparr>sent := sent sock @ [frame]\<rparr>)
      else (Err SocketError, sock))"

definition send_raw :: "bytes \<Rightarrow> ipv4 \<Rightarrow> ipv4 \<Rightarrow> raw_socket \<Rightarrow> (dhcp_error + unit) \<times> raw_socket" where
  "send_raw payload src_ip dst_ip sock =
     send_frame (wrap_ipv4_udp payload src_ip dst_ip DHCP_CLIENT_PORT DHCP_SERVER_PORT) sock"

fun recv_raw_validated ::
    "u32 \<Rightarrow> byte \<Rightarrow> recv list \<Rightarrow> ((dhcp_error + bytes \<times> parsed_options \<times> nat) \<times> recv list) option" where
  "recv_raw_validated x expected_type [] = None"
| "recv_raw_validated x expected_type (RecvTimeout # rest) = Some (Err TimedOut, rest)"
| "recv_raw_validated x expected_type (RecvError # rest) = Some (Err SocketError, rest)"
| "recv_raw_validated x expected_type (RecvFrame buf # rest) =
     (if length buf < L3L4_HEADER_LEN then recv_raw_validated x expected_type rest
      else case unwrap_ipv4_udp buf of
        Inl _ \<Rightarrow> recv_raw_validated x expected_type rest
      | Inr (payload, _, dst_port) \<Rightarrow>
          if dst_port \<noteq> DHCP_CLIENT_PORT then recv_raw_validated x expected_type rest
          else case validate_response payload (length payload) x expected_type of
            Inr opts \<Rightarrow> Some (Ok (payload, opts, length payload), rest)
          | Inl DhcpNak \<Rightarrow> Some (Err DhcpNak, rest)
          | Inl _ \<Rightarrow> recv_raw_validated x expected_type rest)"

definition recv_validated ::
    "u32 \<Rightarrow> byte \<Rightarrow> raw_socket \<Rightarrow> ((dhcp_error + bytes \<times> parsed_options \<times> nat) \<times> raw_socket) option" where
  "recv_validated x expected_type sock =
     map_option (\<lambda>(r, rest). (r, sock\<lparr>inbox := rest\<rparr>)) (recv_raw_validated x expected_type (inbox sock))"

section \<open>Exchanges\<close>

definition discover_message :: "u32 \<Rightarrow> bytes \<Rightarrow> bytes" where
  "discover_message x mac =
     append_param_request_list (build_header x mac @ [OPT_MESSAGE_TYPE, 1, MT_DISCOVER]) @ [OPT_END]"

definition request_message :: "u32 \<Rightarrow> bytes \<Rightarrow> ipv4 \<Rightarrow> ipv4 \<Rightarrow> bytes" where
  "request_message x mac offered_ip server =
     append_param_request_list
       (build_header x mac @ [OPT_MESSAGE_TYPE, 1, MT_REQUEST]
        @ [OPT_REQUESTED_IP, 4] @ octets offered_ip @ [OPT_SERVER_ID, 4] @ octets server) @ [OPT_END]"

text \<open>
  \<open>run\<close>: discover, offer, request, acknowledge; the second half is \<open>request_lease\<close>.  The transaction
  identifier is the answer of the random source; the outer \<^const>\<open>None\<close> is an exchange that still
  waits for a frame.
\<close>

definition request_lease ::
    "u32 \<Rightarrow> nat \<Rightarrow> bytes \<Rightarrow> ipv4 \<Rightarrow> ipv4 \<Rightarrow> raw_socket \<Rightarrow> (dhcp_error + lease) option \<times> raw_socket" where
  "request_lease x now mac offered_ip server sock =
     (case send_raw (request_message x mac offered_ip server) ipv4_unspecified ipv4_broadcast sock of
        (Inl e, sock) \<Rightarrow> (Some (Err e), sock)
      | (Inr _, sock) \<Rightarrow>
      case recv_validated x MT_ACK sock of
        None \<Rightarrow> (None, sock)
      | Some (Inl e, sock) \<Rightarrow> (Some (Err e), sock)
      | Some (Inr (ack_buf, ack_opts, _), sock) \<Rightarrow>
          (Some (Ok (build_lease_from_ack now (yiaddr ack_buf) server ack_opts)), sock))"

definition run :: "dhcp_error + u32 \<Rightarrow> nat \<Rightarrow> bytes \<Rightarrow> raw_socket \<Rightarrow> (dhcp_error + lease) option \<times> raw_socket" where
  "run xid_src now mac sock =
     (case xid_src of Inl e \<Rightarrow> (Some (Err e), sock) | Inr x \<Rightarrow>
      case send_raw (discover_message x mac) ipv4_unspecified ipv4_broadcast sock of
        (Inl e, sock) \<Rightarrow> (Some (Err e), sock)
      | (Inr _, sock) \<Rightarrow>
      case recv_validated x MT_OFFER sock of
        None \<Rightarrow> (None, sock)
      | Some (Inl e, sock) \<Rightarrow> (Some (Err e), sock)
      | Some (Inr (offer_buf, offer_opts, _), sock) \<Rightarrow>
      case server_id offer_opts of
        None \<Rightarrow> (Some (Err NoServerIdentifier), sock)
      | Some server \<Rightarrow> request_lease x now mac (yiaddr offer_buf) server sock)"

text \<open>
  \<open>receive_ack_unicast\<close>: one datagram, copied to the start of a zeroed buffer of 1500 bytes; what
  does not fit is cut off by the socket.
\<close>

fun receive_ack_unicast :: "u32 \<Rightarrow> nat \<Rightarrow> ipv4 \<Rightarrow> recv list \<Rightarrow> ((dhcp_error + lease) \<times> recv list) option" where
  "receive_ack_unicast x now server [] = None"
| "receive_ack_unicast x now server (RecvTimeout # rest) = Some (Err TimedOut, rest)"
| "receive_ack_unicast x now server (RecvError # rest) = Some (Err SocketError, rest)"
| "receive_ack_unicast x now server (RecvFrame data # rest) =
     (let data = take 1500 data; buf = data @ zeros (1500 - length data) in
      Some (and_then (validate_response buf (length data) x MT_ACK)
              (\<lambda>opts. Ok (build_lease_from_ack now (yiaddr buf) server opts)), rest))"

definition renew ::
    "dhcp_error + u32 \<Rightarrow> nat \<Rightarrow> bytes \<Rightarrow> ipv4 \<Rightarrow> ipv4 \<Rightarrow> raw_socket \<Rightarrow> (dhcp_error + lease) option \<times> raw_socket" where
  "renew xid_src now mac server assigned sock =
     (case xid_src of Inl e \<Rightarrow> (Some (Err e), sock) | Inr x \<Rightarrow>
      case send_frame (build_request_message x mac assigned True) sock of
        (Inl e, sock) \<Rightarrow> (Some (Err e), sock)
      | (Inr _, sock) \<Rightarrow>
      case receive_ack_unicast x now server (inbox sock) of
        None \<Rightarrow> (None, sock)
      | Some (r, rest) \<Rightarrow> (Some r, sock\<lparr>inbox := rest\<rparr>))"

definition rebind ::
    "dhcp_error + u32 \<Rightarrow> nat \<Rightarrow> bytes \<Rightarrow> ipv4 \<Rightarrow> ipv4 \<Rightarrow> raw_socket \<Rightarrow> (dhcp_error + lease) option \<times> raw_socket" where
  "rebind xid_src now mac server assigned sock =
     (case xid_src of Inl e \<Rightarrow> (Some (Err e), sock) | Inr x \<Rightarrow>
      case send_raw (build_request_message x mac assigned False) assigned ipv4_broadcast sock of
        (Inl e, sock) \<Rightarrow> (Some (Err e), sock)
      | (Inr _, sock) \<Rightarrow>
      case recv_validated x MT_ACK sock of
        None \<Rightarrow> (None, sock)
      | Some (Inl e, sock) \<Rightarrow> (Some (Err e), sock)
      | Some (Inr (ack_buf, ack_opts, _), sock) \<Rightarrow>
          (Some (Ok (build_lease_from_ack now (yiaddr ack_buf) server ack_opts)), sock))"

section \<open>Acquisition with retries\<close>

abbreviation (input) RETRY_BASE :: nat where "RETRY_BASE \<equiv> 2"
abbreviation (input) RETRY_MAX :: nat where "RETRY_MAX \<equiv> 120"
abbreviation (input) ACQUIRE_MAX_ATTEMPTS :: nat where "ACQUIRE_MAX_ATTEMPTS \<equiv> 3"

text \<open>
  \<open>acquire_attempts\<close>: \<open>attempt n\<close> is the outcome of the \<open>n\<close>-th attempt, counted from one.  The
  result comes with the seconds slept between the attempts.
\<close>

fun acquire_from :: "(nat \<Rightarrow> 'e + 'l) \<Rightarrow> nat \<Rightarrow> nat \<Rightarrow> nat \<Rightarrow> 'e \<Rightarrow> nat list \<Rightarrow> ('e + 'l) \<times> nat list" where
  "acquire_from attempt 0 done delay last_error slept = (Err last_error, slept)"
| "acquire_from attempt (Suc left) done delay last_error slept =
     (case attempt done of
        Inr l \<Rightarrow> (Ok l, slept)
      | Inl e \<Rightarrow>
          if done = ACQUIRE_MAX_ATTEMPTS then (Err e, slept)
          else acquire_from attempt left (done + 1) (min (delay * 2) RETRY_MAX) e (slept @ [delay]))"

definition acquire_attempts :: "(nat \<Rightarrow> dhcp_error + lease) \<Rightarrow> (dhcp_error + lease) \<times> nat list" where
  "acquire_attempts attempt = acquire_from attempt ACQUIRE_MAX_ATTEMPTS 1 RETRY_BASE NoAttempt []"

section \<open>What reaches the caller\<close>

text \<open>
  The answers that a receive loop accepts: a frame for the client port that carries a valid message
  of the expected type under the transaction identifier.
\<close>

definition answer_of :: "u32 \<Rightarrow> byte \<Rightarrow> recv \<Rightarrow> dhcp_error + bytes \<times> parsed_options" where
  "answer_of x expected_type r =
     (case r of
        RecvTimeout \<Rightarrow> Err TimedOut
      | RecvError \<Rightarrow> Err SocketError
      | RecvFrame buf \<Rightarrow>
          (case unwrap_ipv4_udp buf of
             Inl _ \<Rightarrow> Err MissingMessageType
           | Inr (payload, _, dst_port) \<Rightarrow>
               if dst_port \<noteq> DHCP_CLIENT_PORT then Err MissingMessageType
               else and_then (validate_response payload (length payload) x expected_type)
                      (\<lambda>opts. Ok (payload, opts))))"

definition with_length ::
    "dhcp_error + bytes \<times> parsed_options \<Rightarrow> dhcp_error + bytes \<times> parsed_options \<times> nat" where
  "with_length a = and_then a (\<lambda>(payload, opts). Ok (payload, opts, length payload))"

text \<open>The events that end the loop; every other frame is skipped.\<close>

definition decisive :: "u32 \<Rightarrow> byte \<Rightarrow> recv \<Rightarrow> bool" where
  "decisive x expected_type r \<longleftrightarrow>
     (case answer_of x expected_type r of
        Inr _ \<Rightarrow> True
      | Inl e \<Rightarrow> e \<in> {TimedOut, SocketError, DhcpNak})"

lemma validate_response_errors:
  "validate_response buf n x ty = Err e \<Longrightarrow> e \<noteq> TimedOut \<and> e \<noteq> SocketError"
  by (auto simp: validate_response_def Let_def split: if_splits option.splits)

lemma short_frame_not_decisive: "length buf < L3L4_HEADER_LEN \<Longrightarrow> \<not> decisive x ty (RecvFrame buf)"
  by (simp add: decisive_def answer_of_def unwrap_ipv4_udp_def)

lemma recv_raw_validated_step:
  "recv_raw_validated x ty (r # rest) =
     (if decisive x ty r
      then Some (with_length (answer_of x ty r), rest)
      else recv_raw_validated x ty rest)"
proof (cases r)
  case (RecvFrame buf)
  show ?thesis
  proof (cases "length buf < L3L4_HEADER_LEN")
    case True
    then show ?thesis using short_frame_not_decisive RecvFrame by simp
  next
    case long: False
    show ?thesis
    proof (cases "unwrap_ipv4_udp buf")
      case (Inl e)
      then show ?thesis using RecvFrame long by (simp add: decisive_def answer_of_def with_length_def)
    next
      case (Inr p)
      obtain payload sp dp where p: "p = (payload, sp, dp)" by (cases p)
      show ?thesis
      proof (cases "validate_response payload (length payload) x ty")
        case err: (Inl e)
        show ?thesis
          using Inr p err RecvFrame long validate_response_errors [OF err]
          by (cases e) (simp_all add: decisive_def answer_of_def with_length_def)
      next
        case (Inr opts)
        then show ?thesis using \<open>unwrap_ipv4_udp buf = Inr p\<close> p RecvFrame long
          by (simp add: decisive_def answer_of_def with_length_def)
      qed
    qed
  qed
qed (simp_all add: decisive_def answer_of_def with_length_def)

lemma recv_raw_validated_None: "recv_raw_validated x ty rs = None \<longleftrightarrow> (\<forall>r \<in> set rs. \<not> decisive x ty r)"
  by (induction rs) (simp_all add: recv_raw_validated_step)

lemma recv_raw_validated_Some:
  "recv_raw_validated x ty rs = Some (res, rest) \<Longrightarrow>
   \<exists>skipped r. rs = skipped @ r # rest \<and> (\<forall>s \<in> set skipped. \<not> decisive x ty s) \<and> decisive x ty r \<and>
     res = with_length (answer_of x ty r)"
proof (induction rs)
  case (Cons r rs)
  show ?case
  proof (cases "decisive x ty r")
    case True
    then show ?thesis using Cons.prems by (intro exI [of _ "[]"] exI [of _ r]) (auto simp: recv_raw_validated_step)
  next
    case False
    then have "recv_raw_validated x ty rs = Some (res, rest)" using Cons.prems by (simp add: recv_raw_validated_step)
    then obtain skipped r' where "rs = skipped @ r' # rest" "\<forall>s \<in> set skipped. \<not> decisive x ty s"
        "decisive x ty r'" "res = with_length (answer_of x ty r')"
      using Cons.IH by blast
    then show ?thesis using False by (intro exI [of _ "r # skipped"] exI [of _ r']) auto
  qed
qed simp

lemma recv_raw_validated_skip:
  "filter (decisive x ty) skipped = [] \<Longrightarrow>
   recv_raw_validated x ty (skipped @ rest) = recv_raw_validated x ty rest"
  by (induction skipped) (auto simp: recv_raw_validated_step split: if_splits)

lemma answer_ok_decisive: "answer_of x ty r = Ok a \<Longrightarrow> decisive x ty r"
  by (simp add: decisive_def)

lemma recv_validated_Ok_iff:
  "recv_validated x ty sock = Some (Ok (p, opts, n), sock') \<longleftrightarrow>
     (\<exists>skipped r rest. inbox sock = skipped @ r # rest \<and> filter (decisive x ty) skipped = [] \<and>
        answer_of x ty r = Ok (p, opts) \<and> n = length p \<and> sock' = sock\<lparr>inbox := rest\<rparr>)"
  (is "?l \<longleftrightarrow> ?r")
proof
  assume ?l
  then obtain rest where raw: "recv_raw_validated x ty (inbox sock) = Some (Ok (p, opts, n), rest)"
      and sock': "sock' = sock\<lparr>inbox := rest\<rparr>"
    by (auto simp: recv_validated_def)
  obtain skipped r where split: "inbox sock = skipped @ r # rest" "\<forall>s \<in> set skipped. \<not> decisive x ty s"
      and res: "Ok (p, opts, n) = with_length (answer_of x ty r)"
    using recv_raw_validated_Some [OF raw] by blast
  from res have "answer_of x ty r = Ok (p, opts) \<and> n = length p"
    by (cases "answer_of x ty r") (auto simp: with_length_def)
  then show ?r using split sock' by (auto simp: filter_empty_conv)
next
  assume ?r
  then show ?l
    by (auto simp: recv_validated_def recv_raw_validated_skip recv_raw_validated_step answer_ok_decisive
        with_length_def)
qed

text \<open>The frame of a message that the client broadcasts before it has an address.\<close>

definition broadcast_frame :: "bytes \<Rightarrow> bytes" where
  "broadcast_frame m = wrap_ipv4_udp m ipv4_unspecified ipv4_broadcast DHCP_CLIENT_PORT DHCP_SERVER_PORT"

lemma send_broadcast:
  "send_raw m ipv4_unspecified ipv4_broadcast sock =
     (if send_ok sock (length (sent sock)) then (Ok (), sock\<lparr>sent := sent sock @ [broadcast_frame m]\<rparr>)
      else (Err SocketError, sock))"
  by (simp add: send_raw_def send_frame_def broadcast_frame_def)

lemma request_lease_Ok_iff:
  "request_lease x now mac ip server sock = (Some (Ok l), sock') \<longleftrightarrow>
     send_ok sock (length (sent sock)) \<and>
     (\<exists>junk ack rest ack_buf ack_opts.
        inbox sock = junk @ ack # rest \<and> filter (decisive x MT_ACK) junk = [] \<and>
        answer_of x MT_ACK ack = Ok (ack_buf, ack_opts) \<and>
        l = build_lease_from_ack now (yiaddr ack_buf) server ack_opts \<and>
        sock' = sock\<lparr>sent := sent sock @ [broadcast_frame (request_message x mac ip server)], inbox := rest\<rparr>)"
  (is "?l \<longleftrightarrow> ?s \<and> ?r")
proof (cases ?s)
  case True
  let ?sock1 = "sock\<lparr>sent := sent sock @ [broadcast_frame (request_message x mac ip server)]\<rparr>"
  have "?l \<longleftrightarrow> (\<exists>p opts n. recv_validated x MT_ACK ?sock1 = Some (Ok (p, opts, n), sock') \<and>
      l = build_lease_from_ack now (yiaddr p) server opts)"
    using True by (auto simp: request_lease_def send_broadcast split: option.splits sum.splits prod.splits)
  also have "\<dots> \<longleftrightarrow> ?r"
    unfolding recv_validated_Ok_iff by (simp add: ex_simps [symmetric] del: ex_simps) blast
  finally show ?thesis using True by simp
qed (simp add: request_lease_def send_broadcast)

lemma run_Ok_iff:
  "run (Ok x) now mac sock = (Some (Ok l), sock') \<longleftrightarrow>
     send_ok sock (length (sent sock)) \<and>
     (\<exists>junk offer rest offer_buf offer_opts server.
        inbox sock = junk @ offer # rest \<and> filter (decisive x MT_OFFER) junk = [] \<and>
        answer_of x MT_OFFER offer = Ok (offer_buf, offer_opts) \<and> server_id offer_opts = Some server \<and>
        request_lease x now mac (yiaddr offer_buf) server
          (sock\<lparr>sent := sent sock @ [broadcast_frame (discover_message x mac)], inbox := rest\<rparr>)
        = (Some (Ok l), sock'))"
  (is "?l \<longleftrightarrow> ?s \<and> ?r")
proof (cases ?s)
  case True
  let ?sock1 = "sock\<lparr>sent := sent sock @ [broadcast_frame (discover_message x mac)]\<rparr>"
  have "?l \<longleftrightarrow> (\<exists>p opts n sock2 server. recv_validated x MT_OFFER ?sock1 = Some (Ok (p, opts, n), sock2) \<and>
      server_id opts = Some server \<and> request_lease x now mac (yiaddr p) server sock2 = (Some (Ok l), sock'))"
    using True by (auto simp: run_def send_broadcast split: option.splits sum.splits prod.splits)
  also have "\<dots> \<longleftrightarrow> ?r"
    unfolding recv_validated_Ok_iff by (simp add: ex_simps [symmetric] del: ex_simps) blast
  finally show ?thesis using True by simp
qed (simp add: run_def send_broadcast)

section \<open>Acquisition\<close>

lemma acquire_attempts_eq:
  "acquire_attempts attempt =
     (case attempt 1 of Inr l \<Rightarrow> (Ok l, [])
      | Inl _ \<Rightarrow> (case attempt 2 of Inr l \<Rightarrow> (Ok l, [2])
        | Inl _ \<Rightarrow> (attempt 3, [2, 4])))"
  by (auto simp: acquire_attempts_def numeral_3_eq_3
      numeral_2_eq_2 split: sum.split)

end
