(* ===== verification/Icmpv6.thy ===== *)
theory Icmpv6
  imports Dhcp_Framing
begin

text \<open>
  Router solicitations and advertisements (\<open>libs/netlib/src/slaac/icmpv6.rs\<close>) and the address that
  autoconfiguration derives from a prefix and a hardware address (\<open>slaac/address.rs\<close>).  An IPv6
  address is a 128-bit word, its octets are the big-endian bytes; lifetimes are natural numbers of
  the width they are read with.  The lemmas give the parser on the encoding of a list of options.
\<close>

section \<open>Addresses\<close>

type_synonym ipv6 = "128 word"

definition ipv6_of :: "bytes \<Rightarrow> ipv6" where
  "ipv6_of bs = word_of_nat (from_be bs)"

definition ipv6_octets :: "ipv6 \<Rightarrow> bytes" where
  "ipv6_octets a = to_be 16 (unat a)"

text \<open>The hardware address \<open>[u8; 6]\<close> is a list of six bytes.\<close>

definition mac_to_eui64 :: "bytes \<Rightarrow> bytes" where
  "mac_to_eui64 mac = [(mac ! 0) XOR 0x02, mac ! 1, mac ! 2, 0xff, 0xfe, mac ! 3, mac ! 4, mac ! 5]"

definition slaac_generate :: "ipv6 \<Rightarrow> nat \<Rightarrow> bytes \<Rightarrow> ipv6 option" where
  "slaac_generate prefix prefix_len mac =
     (if 64 < prefix_len \<or> prefix_len mod 8 \<noteq> 0 then None
      else let count = prefix_len div 8;
               addr = put_range (zeros 16) 0 count (take count (ipv6_octets prefix))
           in Some (ipv6_of (put_range addr 8 16 (mac_to_eui64 mac))))"

section \<open>Messages\<close>

abbreviation (input) ICMPV6_ROUTER_SOLICITATION :: byte where "ICMPV6_ROUTER_SOLICITATION \<equiv> 133"
abbreviation (input) ICMPV6_ROUTER_ADVERTISEMENT :: byte where "ICMPV6_ROUTER_ADVERTISEMENT \<equiv> 134"
abbreviation (input) ND_OPT_SOURCE_LL_ADDR :: byte where "ND_OPT_SOURCE_LL_ADDR \<equiv> 1"
abbreviation (input) ND_OPT_PREFIX_INFO :: byte where "ND_OPT_PREFIX_INFO \<equiv> 3"
abbreviation (input) ND_OPT_RDNSS :: byte where "ND_OPT_RDNSS \<equiv> 25"
abbreviation (input) RA_HEADER_LEN :: nat where "RA_HEADER_LEN \<equiv> 16"
abbreviation (input) PREFIX_OPTION_LEN :: nat where "PREFIX_OPTION_LEN \<equiv> 32"
abbreviation (input) RDNSS_OPTION_MIN_LEN :: nat where "RDNSS_OPTION_MIN_LEN \<equiv> 24"

record prefix_info =
  pi_prefix :: ipv6
  pi_len :: nat
  pi_autonomous :: bool
  pi_valid :: nat
  pi_preferred :: nat

record router_advertisement =
  ra_hop_limit :: nat
  ra_managed :: bool
  ra_other :: bool
  ra_lifetime :: nat
  ra_source :: ipv6
  ra_prefixes :: "prefix_info list"
  ra_dns :: "ipv6 list"
  ra_dns_lifetime :: nat

datatype icmpv6_failure = RaTooShort nat | RaWrongType byte

definition build_router_solicitation :: "bytes \<Rightarrow> bytes" where
  "build_router_solicitation mac =
     [ICMPV6_ROUTER_SOLICITATION, 0] @ [0, 0] @ [0, 0, 0, 0] @ [ND_OPT_SOURCE_LL_ADDR, 1] @ mac"

text \<open>\<open>read_u8\<close>, \<open>read_u16\<close>, \<open>read_u32\<close> are the reads of 1, 2 and 4 bytes.\<close>

definition read_be :: "nat \<Rightarrow> bytes \<Rightarrow> nat \<Rightarrow> nat option" where
  "read_be n data offset = map_option from_be (get_range data offset (offset + n))"

definition split_option :: "bytes \<Rightarrow> (byte \<times> bytes \<times> bytes) option" where
  "split_option data =
     Option.bind (get_range data 0 2) (\<lambda>header.
       let opt_len = unat (header ! 1) * 8 in
       if unat (header ! 1) = 0 then None
       else Option.bind (get_range data 0 opt_len) (\<lambda>opt.
         Option.bind (get_range data opt_len (length data)) (\<lambda>remaining.
           Some (header ! 0, opt, remaining))))"

definition parse_prefix_option :: "bytes \<Rightarrow> prefix_info option" where
  "parse_prefix_option opt =
     (if length opt < PREFIX_OPTION_LEN then None
      else Option.bind (read_be 1 opt 2) (\<lambda>plen.
           Option.bind (get_range opt 3 4) (\<lambda>flags.
           Option.bind (get_range opt 16 32) (\<lambda>prefix.
           Option.bind (read_be 4 opt 4) (\<lambda>valid.
           Option.bind (read_be 4 opt 8) (\<lambda>preferred.
             Some \<lparr>pi_prefix = ipv6_of prefix, pi_len = plen,
                   pi_autonomous = ((flags ! 0) AND 0x40 \<noteq> 0),
                   pi_valid = valid, pi_preferred = preferred\<rparr>))))))"

definition push_prefix_option :: "bytes \<Rightarrow> router_advertisement \<Rightarrow> router_advertisement" where
  "push_prefix_option opt ra =
     (case parse_prefix_option opt of
        None \<Rightarrow> ra
      | Some p \<Rightarrow> ra\<lparr>ra_prefixes := ra_prefixes ra @ [p]\<rparr>)"

definition parse_rdnss_option :: "bytes \<Rightarrow> router_advertisement \<Rightarrow> router_advertisement" where
  "parse_rdnss_option opt ra =
     (if length opt < RDNSS_OPTION_MIN_LEN then ra
      else case read_be 4 opt 4 of
        None \<Rightarrow> ra
      | Some lifetime \<Rightarrow>
          (case get_range opt 8 (length opt) of
             None \<Rightarrow> ra
           | Some addresses \<Rightarrow>
               ra\<lparr>ra_dns_lifetime := lifetime,
                  ra_dns := ra_dns ra @ map ipv6_of (chunks_exact 16 addresses)\<rparr>))"

definition ra_option :: "byte \<Rightarrow> bytes \<Rightarrow> router_advertisement \<Rightarrow> router_advertisement" where
  "ra_option opt_type opt ra =
     (if opt_type = ND_OPT_PREFIX_INFO then push_prefix_option opt ra
      else if opt_type = ND_OPT_RDNSS then parse_rdnss_option opt ra
      else ra)"

function ra_options :: "bytes \<Rightarrow> router_advertisement \<Rightarrow> router_advertisement" where
  "ra_options data ra =
     (case split_option data of
        None \<Rightarrow> ra
      | Some (opt_type, opt, remaining) \<Rightarrow> ra_options remaining (ra_option opt_type opt ra))"
  by pat_completeness auto
termination
  by (relation "measure (length \<circ> fst)")
    (auto simp: split_option_def get_range_def Let_def bind_eq_Some_conv split: if_splits)

declare ra_options.simps [simp del]

definition parse_router_advertisement :: "bytes \<Rightarrow> ipv6 \<Rightarrow> icmpv6_failure + router_advertisement" where
  "parse_router_advertisement data source =
     (if length data < RA_HEADER_LEN then Err (RaTooShort (length data))
      else if data ! 0 \<noteq> ICMPV6_ROUTER_ADVERTISEMENT then Err (RaWrongType (data ! 0))
      else let flags = data ! 5
           in Ok (ra_options (drop RA_HEADER_LEN data)
                \<lparr>ra_hop_limit = unat (data ! 4), ra_managed = (flags AND 0x80 \<noteq> 0),
                 ra_other = (flags AND 0x40 \<noteq> 0),
                 ra_lifetime = from_be [data ! 6, data ! 7], ra_source = source,
                 ra_prefixes = [], ra_dns = [], ra_dns_lifetime = 0\<rparr>))"

section \<open>Options on the wire\<close>

text \<open>The encoding of RFC 4861 and RFC 8106: a type, a length in units of eight bytes, the body.\<close>

datatype nd_option =
    NdPrefix prefix_info
  | NdRdnss nat "ipv6 list"
  | NdOther byte bytes

fun encode_nd :: "nd_option \<Rightarrow> bytes" where
  "encode_nd (NdPrefix p) =
     [ND_OPT_PREFIX_INFO, 4, word_of_nat (pi_len p), if pi_autonomous p then 0xC0 else 0x80]
     @ to_be 4 (pi_valid p) @ to_be 4 (pi_preferred p) @ zeros 4 @ ipv6_octets (pi_prefix p)"
| "encode_nd (NdRdnss lifetime servers) =
     [ND_OPT_RDNSS, word_of_nat (1 + 2 * length servers), 0, 0] @ to_be 4 lifetime
     @ concat (map ipv6_octets servers)"
| "encode_nd (NdOther ty body) = [ty, word_of_nat ((length body + 2) div 8)] @ body"

fun nd_ok :: "nd_option \<Rightarrow> bool" where
  "nd_ok (NdPrefix p) \<longleftrightarrow> pi_len p < 2 ^ 8 \<and> pi_valid p < 2 ^ 32 \<and> pi_preferred p < 2 ^ 32"
| "nd_ok (NdRdnss lifetime servers) \<longleftrightarrow> servers \<noteq> [] \<and> length servers \<le> 127 \<and> lifetime < 2 ^ 32"
| "nd_ok (NdOther ty body) \<longleftrightarrow> ty \<notin> {ND_OPT_PREFIX_INFO, ND_OPT_RDNSS} \<and>
     (length body + 2) mod 8 = 0 \<and> length body + 2 < 8 * 256"

fun apply_nd :: "nd_option \<Rightarrow> router_advertisement \<Rightarrow> router_advertisement" where
  "apply_nd (NdPrefix p) ra = ra\<lparr>ra_prefixes := ra_prefixes ra @ [p]\<rparr>"
| "apply_nd (NdRdnss lifetime servers) ra = ra\<lparr>ra_dns_lifetime := lifetime, ra_dns := ra_dns ra @ servers\<rparr>"
| "apply_nd (NdOther ty body) ra = ra"

lemma length_ipv6_octets [simp]: "length (ipv6_octets a) = 16"
  by (simp add: ipv6_octets_def)

lemma ipv6_of_octets [simp]: "ipv6_of (ipv6_octets a) = a"
proof -
  have "unat a < 256 ^ 16" using unsigned_less [of a, where 'a = nat] by simp
  then show ?thesis by (simp add: ipv6_of_def ipv6_octets_def)
qed

lemma octets_of_ipv6 [simp]: "length bs = 16 \<Longrightarrow> ipv6_octets (ipv6_of bs) = bs"
proof -
  assume len: "length bs = 16"
  then have "from_be bs < 2 ^ 128" using from_be_bound [of bs] by simp
  then have "unat (word_of_nat (from_be bs) :: ipv6) = from_be bs" by (simp add: unat_of_nat)
  then show ?thesis using to_be_from_be [of bs] len by (simp add: ipv6_octets_def ipv6_of_def)
qed

lemma length_encode_nd:
  "nd_ok opt \<Longrightarrow> length (encode_nd opt) = 8 * unat (encode_nd opt ! 1) \<and> 0 < unat (encode_nd opt ! 1)"
proof (cases opt)
  case (NdRdnss lifetime servers)
  assume "nd_ok opt"
  then have "unat (word_of_nat (1 + 2 * length servers) :: byte) = 1 + 2 * length servers"
    using NdRdnss by (simp only: unat_of_nat) simp
  moreover have "length (concat (map ipv6_octets servers)) = 16 * length servers"
    by (induction servers) simp_all
  ultimately show ?thesis using NdRdnss by simp
next
  case (NdOther ty body)
  assume "nd_ok opt"
  then have "(length body + 2) div 8 < 256" "8 * ((length body + 2) div 8) = length body + 2"
    using NdOther by auto
  then show ?thesis using NdOther by (simp add: unat_of_nat)
qed (simp add: zeros_def)

lemma split_option_encode:
  assumes "nd_ok opt"
  shows "split_option (encode_nd opt @ rest) = Some (encode_nd opt ! 0, encode_nd opt, rest)"
proof -
  note len = length_encode_nd [OF assms]
  then have "2 \<le> length (encode_nd opt)" by linarith
  then obtain a b c where e: "encode_nd opt = a # b # c"
    by (metis One_nat_def Suc_le_length_iff numeral_2_eq_2)
  then have n: "length (a # b # c) = unat b * 8" "unat b \<noteq> 0" using len by simp_all
  have "get_range ((a # b # c) @ rest) 0 (unat b * 8) = Some (a # b # c)"
    "get_range ((a # b # c) @ rest) (unat b * 8) (length ((a # b # c) @ rest)) = Some rest"
    unfolding n(1) [symmetric] by (simp_all add: get_range_def)
  then show ?thesis using n(2) by (simp add: split_option_def e Let_def get_range_def [of _ 0 2])
qed

lemma from_be_byte: "from_be [b] = unat b"
  by (simp add: from_be_def)

lemma ra_option_encode:
  assumes "nd_ok opt"
  shows "ra_option (encode_nd opt ! 0) (encode_nd opt) ra = apply_nd opt ra"
proof (cases opt)
  case (NdPrefix p)
  then have "parse_prefix_option (encode_nd opt) = Some p"
    using assms by (simp add: parse_prefix_option_def read_be_def get_range_def zeros_def from_be_byte unat_of_nat)
  then show ?thesis using NdPrefix by (simp add: ra_option_def push_prefix_option_def)
next
  case (NdRdnss lifetime servers)
  have "length (concat (map ipv6_octets servers)) = 16 * length servers"
    by (induction servers) simp_all
  moreover have "chunks_exact 16 (concat (map ipv6_octets servers)) = map ipv6_octets servers"
    by (rule chunks_exact_concat) auto
  moreover have "1 \<le> length servers" using assms NdRdnss by (cases servers) simp_all
  ultimately show ?thesis
    using assms NdRdnss by (simp add: ra_option_def parse_rdnss_option_def read_be_def get_range_def comp_def)
next
  case (NdOther ty body)
  then show ?thesis using assms by (simp add: ra_option_def)
qed

text \<open>
  Bytes after the options that do not start a whole option end the loop: fewer than two bytes, a
  zero length, or a length beyond the end.
\<close>

definition nd_ends :: "bytes \<Rightarrow> bool" where
  "nd_ends bs \<longleftrightarrow> length bs < 2 \<or> bs ! 1 = 0 \<or> length bs < 8 * unat (bs ! 1)"

lemma split_option_ends: "nd_ends bs \<Longrightarrow> split_option bs = None"
  by (cases bs rule: list.exhaust; cases "tl bs" rule: list.exhaust)
    (auto simp: nd_ends_def split_option_def get_range_def Let_def)

lemma ra_options_encode:
  assumes "list_all nd_ok opts" "nd_ends rest"
  shows "ra_options (concat (map encode_nd opts) @ rest) ra = fold apply_nd opts ra"
  using assms(1)
proof (induction opts arbitrary: ra)
  case Nil
  then show ?case using split_option_ends [OF assms(2)] by (subst ra_options.simps) simp
next
  case (Cons opt opts)
  then have "nd_ok opt" by simp
  with split_option_encode [OF this] ra_option_encode [OF this] Cons show ?case
    by (subst ra_options.simps) simp
qed

fun nd_prefixes :: "nd_option list \<Rightarrow> prefix_info list" where
  "nd_prefixes [] = []"
| "nd_prefixes (NdPrefix p # opts) = p # nd_prefixes opts"
| "nd_prefixes (_ # opts) = nd_prefixes opts"

fun nd_servers :: "nd_option list \<Rightarrow> ipv6 list" where
  "nd_servers [] = []"
| "nd_servers (NdRdnss _ ss # opts) = ss @ nd_servers opts"
| "nd_servers (_ # opts) = nd_servers opts"

text \<open>Every RDNSS option overwrites the one lifetime of the advertisement.\<close>

fun nd_lifetime :: "nat \<Rightarrow> nd_option list \<Rightarrow> nat" where
  "nd_lifetime t [] = t"
| "nd_lifetime t (NdRdnss u _ # opts) = nd_lifetime u opts"
| "nd_lifetime t (_ # opts) = nd_lifetime t opts"

lemma fold_apply_nd:
  "fold apply_nd opts ra =
     ra\<lparr>ra_prefixes := ra_prefixes ra @ nd_prefixes opts, ra_dns := ra_dns ra @ nd_servers opts,
        ra_dns_lifetime := nd_lifetime (ra_dns_lifetime ra) opts\<rparr>"
proof (induction opts arbitrary: ra)
  case (Cons opt opts)
  then show ?case by (cases opt) simp_all
qed simp

end
