(* ===== verification/Net_Interface.thy ===== *)
theory Net_Interface
  imports Statemachine Dhcp_Client Icmpv6
begin

text \<open>
  The per-interface actor of networkd: \<open>services/networkd/src/interface/\<close>.  The actor owns a
  snapshot, publishes copies of it, and reacts to commands, DHCP results, SLAAC events and timers.
  What the kernel and the sockets answer during one event is an environment record; the requests
  the kernel accepted are recorded in order.  A handler that waits for a frame which never comes
  has no result (\<^const>\<open>None\<close>).  Names are strings, an IPv6 address is a 128-bit word.
\<close>

section \<open>Snapshots\<close>

datatype link_state = LinkUp | LinkNoCarrier | LinkDown

record ip_config =
  c4_address :: ipv4
  c4_prefix :: nat
  c4_gateway :: "ipv4 option"
  c4_dns :: "ipv4 list"

record ipv6_config =
  c6_address :: ipv6
  c6_prefix :: nat
  c6_gateway :: "ipv6 option"
  c6_dns :: "ipv6 list"

record snapshot =
  s_name :: string
  s_state :: lifecycle
  s_index :: nat
  s_mac :: bytes
  s_link :: link_state
  s_ip :: "ip_config option"
  s_lease :: "lease option"
  s_dhcp_state :: "dhcp_state option"
  s_ipv6 :: "ipv6_config option"
  s_l3_owner :: string

definition snapshot_transition :: "lifecycle \<Rightarrow> snapshot \<Rightarrow> (lifecycle invalid_transition + unit) \<times> snapshot" where
  "snapshot_transition to s =
     (case transition lifecycle_next_states (s_state s) to of (st, r) \<Rightarrow> (r, s\<lparr>s_state := st\<rparr>))"

text \<open>\<open>Name::new\<close> of \<open>libs/netlib/src/interface.rs\<close>.\<close>

abbreviation (input) MAX_NAME_LEN :: nat where "MAX_NAME_LEN \<equiv> 15"

definition name_new :: "string \<Rightarrow> string option" where
  "name_new name =
     (if name = [] \<or> MAX_NAME_LEN < length name \<or> CHR 0x00 \<in> set name then None else Some name)"

section \<open>Environment and actor\<close>

datatype iface_error =
    DhcpFailure dhcp_error
  | OpsFailure string
  | NoLease string
  | InvalidName string
  | EmptyAddresses

text \<open>The requests to the kernel that succeeded.\<close>

datatype kernel_op =
    AddAddr4 nat ipv4 nat
  | AddRoute4 ipv4
  | AddAddr6 nat ipv6 nat
  | AddRoute6 ipv6
  | DelAddr6 nat ipv6
  | DelRoute6 ipv6
  | MakeBridge string string "ipv4 option" bool

record iface_env =
  env_now :: nat
  env_xid :: "dhcp_error + u32"
  create_raw :: "string \<Rightarrow> iface_error + raw_socket"
  create_unicast :: "string \<Rightarrow> ipv4 \<Rightarrow> iface_error + raw_socket"
  accepts :: "kernel_op \<Rightarrow> iface_error + unit"
  link_index :: "string \<Rightarrow> iface_error + nat"
  slaac_new :: "iface_error + unit"

record lease_timers =
  t_renew :: "nat option"
  t_rebind :: "nat option"
  t_expire :: "nat option"

record actor =
  snap :: snapshot
  published :: snapshot
  manager :: "raw_socket option"
  timers :: lease_timers
  slaac :: bool
  closed :: bool
  kernel :: "kernel_op list"

text \<open>
  The network section of the system configuration (\<open>libs/config/src/system/network.rs\<close>).
\<close>

datatype ip_addr = V4 ipv4 | V6 ipv6

datatype iface_kind = BridgeKind | EthernetKind

record ipv4_iface_config =
  i4_dhcp :: bool
  i4_addresses :: "(ipv4 \<times> nat) list"
  i4_gateway :: "ipv4 option"

record ipv6_iface_config =
  i6_autoconf :: bool
  i6_addresses :: "(ipv6 \<times> nat) list"
  i6_gateway :: "ipv6 option"

record bridge_config =
  br_port :: "string list"
  br_stp :: bool

record iface_config =
  if_name :: string
  if_kind :: iface_kind
  if_ipv4 :: "ipv4_iface_config option"
  if_ipv6 :: "ipv6_iface_config option"
  if_bridge :: "bridge_config option"

record net_config =
  cfg_ipv6 :: bool
  cfg_dns :: "ip_addr list"
  cfg_interfaces :: "iface_config list"

definition ipv4_dns :: "net_config \<Rightarrow> ipv4 list" where
  "ipv4_dns cfg = List.map_filter (\<lambda>a. case a of V4 ip \<Rightarrow> Some ip | V6 _ \<Rightarrow> None) (cfg_dns cfg)"

definition ipv6_dns :: "net_config \<Rightarrow> ipv6 list" where
  "ipv6_dns cfg = List.map_filter (\<lambda>a. case a of V6 ip \<Rightarrow> Some ip | V4 _ \<Rightarrow> None) (cfg_dns cfg)"

section \<open>Timers\<close>

definition timers_off :: lease_timers where
  "timers_off = \<lparr>t_renew = None, t_rebind = None, t_expire = None\<rparr>"

text \<open>
  \<open>deadline_to_sleep\<close>: a timer is armed when its deadline has not passed; it is kept as the time it
  fires at.
\<close>

definition deadline_to_sleep :: "nat \<Rightarrow> nat \<Rightarrow> nat option" where
  "deadline_to_sleep now deadline = (if now \<le> deadline then Some deadline else None)"

definition time_plus :: "nat \<Rightarrow> nat \<Rightarrow> nat \<Rightarrow> nat" where
  "time_plus now t d = (case checked_add time_max t d of Some u \<Rightarrow> u | None \<Rightarrow> now)"

definition arm :: "nat \<Rightarrow> lease \<Rightarrow> lease_timers" where
  "arm now l =
     \<lparr>t_renew = deadline_to_sleep now (time_plus now (obtained_at l) (renewal_secs l)),
      t_rebind = deadline_to_sleep now (time_plus now (obtained_at l) (rebind_secs l)),
      t_expire = deadline_to_sleep now (lease_expiry l)\<rparr>"

section \<open>Shared operations of the actor\<close>

definition publish_snapshot :: "actor \<Rightarrow> actor" where
  "publish_snapshot a = a\<lparr>published := snap a\<rparr>"

definition set_state :: "lifecycle \<Rightarrow> actor \<Rightarrow> actor" where
  "set_state st a =
     (case snapshot_transition st (snap a) of
        (Inl _, _) \<Rightarrow> a
      | (Inr _, s) \<Rightarrow> publish_snapshot (a\<lparr>snap := s\<rparr>))"

definition ensure_configured_state :: "actor \<Rightarrow> bool \<times> actor" where
  "ensure_configured_state a =
     (case s_state (snap a) of
        Configured \<Rightarrow> (False, a)
      | Deconfiguring \<Rightarrow> (False, a)
      | Configuring \<Rightarrow> (True, set_state Configured a)
      | Degraded \<Rightarrow> (True, set_state Configured a)
      | Discovered \<Rightarrow> (True, set_state Configured (set_state Configuring a))
      | Failed \<Rightarrow> (True, set_state Configured (set_state Configuring a)))"

text \<open>One netlink request: what the kernel accepts is recorded.\<close>

definition ops :: "iface_env \<Rightarrow> kernel_op \<Rightarrow> actor \<Rightarrow> (iface_error + unit) \<times> actor" where
  "ops env k a =
     (case accepts env k of Inl e \<Rightarrow> (Err e, a) | Inr _ \<Rightarrow> (Ok (), a\<lparr>kernel := kernel a @ [k]\<rparr>))"

text \<open>A sequence of requests stops at the first one that fails.\<close>

primrec ops_all :: "iface_env \<Rightarrow> kernel_op list \<Rightarrow> actor \<Rightarrow> (iface_error + unit) \<times> actor" where
  "ops_all env [] a = (Ok (), a)"
| "ops_all env (k # ks) a =
     (case ops env k a of (Inl e, a) \<Rightarrow> (Err e, a) | (Inr _, a) \<Rightarrow> ops_all env ks a)"

section \<open>DHCP\<close>

definition apply_lease :: "iface_env \<Rightarrow> nat \<Rightarrow> lease \<Rightarrow> actor \<Rightarrow> (iface_error + unit) \<times> actor" where
  "apply_lease env index l a =
     ops_all env (AddAddr4 index (assigned_ip l) (prefix_len l)
                  # (case gateway l of Some gw \<Rightarrow> [AddRoute4 gw] | None \<Rightarrow> [])) a"

definition store_lease :: "lease \<Rightarrow> actor \<Rightarrow> actor" where
  "store_lease l a =
     publish_snapshot (a\<lparr>snap := (snap a)
       \<lparr>s_ip := Some \<lparr>c4_address = assigned_ip l, c4_prefix = prefix_len l, c4_gateway = gateway l,
                      c4_dns = lease_dns l\<rparr>,
        s_lease := Some l\<rparr>\<rparr>)"

definition dhcp_transition :: "dhcp_state \<Rightarrow> actor \<Rightarrow> actor" where
  "dhcp_transition next a =
     a\<lparr>snap := (snap a)\<lparr>s_dhcp_state :=
       (case s_dhcp_state (snap a) of
          None \<Rightarrow> Some next
        | Some current \<Rightarrow> Some (fst (transition dhcp_next_states current next)))\<rparr>\<rparr>"

definition commit_lease :: "iface_env \<Rightarrow> nat \<Rightarrow> lease \<Rightarrow> actor \<Rightarrow> (iface_error + unit) \<times> actor" where
  "commit_lease env index l a =
     (case apply_lease env index l a of
        (Inl e, a) \<Rightarrow> (Err e, a)
      | (Inr _, a) \<Rightarrow>
          (Ok (), (dhcp_transition DhcpBound (store_lease l a))\<lparr>timers := arm (env_now env) l\<rparr>))"

definition dhcp_start :: "iface_env \<Rightarrow> actor \<Rightarrow> actor" where
  "dhcp_start env a =
     (let a = set_state Configuring a in
      case create_raw env (s_name (snap a)) of
        Inr sock \<Rightarrow> a\<lparr>manager := Some sock\<rparr>
      | Inl _ \<Rightarrow> set_state Failed a)"

definition dhcp_reconcile :: "iface_env \<Rightarrow> actor \<Rightarrow> actor" where
  "dhcp_reconcile env a =
     (case s_lease (snap a) of
        Some l \<Rightarrow>
          (case apply_lease env (s_index (snap a)) l a of
             (Inl _, a) \<Rightarrow> a
           | (Inr _, a) \<Rightarrow>
               let a = store_lease l a;
                   a = dhcp_transition DhcpBound a;
                   a = a\<lparr>timers := arm (env_now env) l\<rparr>
               in snd (ensure_configured_state a))
      | None \<Rightarrow> if Option.is_none (manager a) then dhcp_start env a else a)"

definition acquisition_failed :: "actor \<Rightarrow> actor" where
  "acquisition_failed a = set_state Failed (a\<lparr>manager := None\<rparr>)"

definition acquired :: "iface_env \<Rightarrow> lease \<Rightarrow> actor \<Rightarrow> actor" where
  "acquired env l a =
     (case commit_lease env (s_index (snap a)) l (a\<lparr>manager := None\<rparr>) of
        (Inl _, a) \<Rightarrow> set_state Failed a
      | (Inr _, a) \<Rightarrow> set_state Configured a)"

definition recover_with_lease :: "iface_env \<Rightarrow> lease \<Rightarrow> actor \<Rightarrow> actor" where
  "recover_with_lease env l a =
     (case apply_lease env (s_index (snap a)) l a of
        (Inl _, a) \<Rightarrow> set_state Failed a
      | (Inr _, a) \<Rightarrow> set_state Configured (a\<lparr>timers := arm (env_now env) l\<rparr>))"

text \<open>\<open>do_full_dora\<close>: a failed exchange marks the interface failed, a failed socket does not.\<close>

definition dora_begin :: "actor \<Rightarrow> actor" where
  "dora_begin a = (set_state Configuring (dhcp_transition DhcpInit a))\<lparr>timers := timers_off\<rparr>"

definition do_full_dora :: "iface_env \<Rightarrow> actor \<Rightarrow> ((iface_error + unit) \<times> actor) option" where
  "do_full_dora env a =
     (let a = dora_begin a in
      case create_raw env (s_name (snap a)) of
        Inl e \<Rightarrow> Some (Err e, a)
      | Inr sock \<Rightarrow>
          (case run (env_xid env) (env_now env) (s_mac (snap a)) sock of
             (None, _) \<Rightarrow> None
           | (Some (Inl e), _) \<Rightarrow> Some (Err (DhcpFailure e), set_state Failed a)
           | (Some (Inr l), _) \<Rightarrow>
               (case commit_lease env (s_index (snap a)) l a of
                  (Inl e, a) \<Rightarrow> Some (Err e, a)
                | (Inr _, a) \<Rightarrow> Some (Ok (), set_state Configured a))))"

definition lease_params :: "actor \<Rightarrow> iface_error + bytes \<times> ipv4 \<times> ipv4" where
  "lease_params a =
     (case s_lease (snap a) of
        None \<Rightarrow> Err (NoLease (s_name (snap a)))
      | Some l \<Rightarrow> Ok (s_mac (snap a), server_ip l, assigned_ip l))"

text \<open>The common end of \<open>do_renew\<close> and \<open>do_rebind\<close>: the match on the result of the exchange.\<close>

definition after_exchange ::
    "iface_env \<Rightarrow> (dhcp_error + lease) option \<Rightarrow> actor \<Rightarrow> ((iface_error + unit) \<times> actor) option" where
  "after_exchange env result a =
     (case result of
        None \<Rightarrow> None
      | Some (Inr l) \<Rightarrow> Some (commit_lease env (s_index (snap a)) l a)
      | Some (Inl e) \<Rightarrow> if e = DhcpNak then do_full_dora env a else Some (Err (DhcpFailure e), a))"

definition do_renew :: "iface_env \<Rightarrow> actor \<Rightarrow> ((iface_error + unit) \<times> actor) option" where
  "do_renew env a =
     (case lease_params a of
        Inl e \<Rightarrow> Some (Err e, a)
      | Inr (mac, server, assigned) \<Rightarrow>
          (case create_unicast env (s_name (snap a)) assigned of
             Inl e \<Rightarrow> Some (Err e, a)
           | Inr sock \<Rightarrow>
               after_exchange env (fst (renew (env_xid env) (env_now env) mac server assigned sock)) a))"

definition do_rebind :: "iface_env \<Rightarrow> actor \<Rightarrow> ((iface_error + unit) \<times> actor) option" where
  "do_rebind env a =
     (case lease_params a of
        Inl e \<Rightarrow> Some (Err e, a)
      | Inr (mac, server, assigned) \<Rightarrow>
          (case create_raw env (s_name (snap a)) of
             Inl e \<Rightarrow> Some (Err e, a)
           | Inr sock \<Rightarrow>
               after_exchange env (fst (rebind (env_xid env) (env_now env) mac server assigned sock)) a))"

definition renew_lease :: "iface_env \<Rightarrow> actor \<Rightarrow> actor option" where
  "renew_lease env a = map_option snd (do_renew env (dhcp_transition DhcpRenewing a))"

definition rebind_lease :: "iface_env \<Rightarrow> actor \<Rightarrow> actor option" where
  "rebind_lease env a = map_option snd (do_rebind env (dhcp_transition DhcpRebinding a))"

definition on_expire :: "iface_env \<Rightarrow> actor \<Rightarrow> actor option" where
  "on_expire env a = map_option snd (do_full_dora env a)"

section \<open>Link events\<close>

definition link_up :: "iface_env \<Rightarrow> actor \<Rightarrow> actor option" where
  "link_up env a =
     (let a = a\<lparr>snap := (snap a)\<lparr>s_link := LinkUp\<rparr>\<rparr> in
      if s_state (snap a) \<noteq> Degraded \<and> s_state (snap a) \<noteq> Failed then Some a
      else case s_lease (snap a) of
        Some l \<Rightarrow> Some (publish_snapshot (recover_with_lease env l a))
      | None \<Rightarrow> map_option (\<lambda>(_, a). publish_snapshot a) (do_full_dora env a))"

definition link_down :: "actor \<Rightarrow> actor" where
  "link_down a =
     (let a = a\<lparr>snap := (snap a)\<lparr>s_link := LinkDown\<rparr>, manager := None, timers := timers_off\<rparr>;
          next = (case s_state (snap a) of
                    Configured \<Rightarrow> Some Degraded
                  | Configuring \<Rightarrow> Some Failed
                  | _ \<Rightarrow> None);
          a = (case next of
                 None \<Rightarrow> a
               | Some st \<Rightarrow> a\<lparr>snap := snd (snapshot_transition st (snap a))\<rparr>)
      in publish_snapshot a)"

section \<open>Bridges\<close>

definition bridge_configure :: "iface_env \<Rightarrow> string \<Rightarrow> bool \<Rightarrow> actor \<Rightarrow> (iface_error + snapshot) \<times> actor" where
  "bridge_configure env bridge stp a =
     (case s_lease (snap a) of
        None \<Rightarrow> (Err (NoLease (s_name (snap a))), a)
      | Some l \<Rightarrow>
          (case ops env (MakeBridge bridge (s_name (snap a)) (Option.bind (s_ip (snap a)) c4_gateway) stp) a of
             (Inl e, a) \<Rightarrow> (Err e, a)
           | (Inr _, a) \<Rightarrow>
               let a = a\<lparr>timers := timers_off\<rparr> in
               case link_index env bridge of
                 Inl e \<Rightarrow> (Err e, a)
               | Inr index \<Rightarrow>
                   (case name_new bridge of
                      None \<Rightarrow> (Err (InvalidName bridge), a)
                    | Some name \<Rightarrow>
                        let b = \<lparr>s_name = name, s_state = Configured, s_index = index, s_mac = s_mac (snap a),
                                 s_link = LinkUp, s_ip = s_ip (snap a), s_lease = Some l,
                                 s_dhcp_state = Some DhcpBound, s_ipv6 = None, s_l3_owner = name\<rparr>;
                            a = a\<lparr>snap := (snap a)\<lparr>s_ip := None, s_lease := None, s_dhcp_state := None,
                                                     s_l3_owner := name\<rparr>\<rparr>;
                            a = set_state Deconfiguring a;
                            a = set_state Discovered a
                        in (Ok b, publish_snapshot a))))"

section \<open>Static addresses\<close>

datatype apply_mode = Provision | Reconcile

datatype static_request =
    StaticIpv4 "(ipv4 \<times> nat) list" "ipv4 option"
  | StaticIpv6 "(ipv6 \<times> nat) list" "ipv6 option"

fun static_ops :: "nat \<Rightarrow> static_request \<Rightarrow> kernel_op list" where
  "static_ops index (StaticIpv4 addrs gw) =
     map (\<lambda>(ip, p). AddAddr4 index ip p) addrs @ (case gw of Some g \<Rightarrow> [AddRoute4 g] | None \<Rightarrow> [])"
| "static_ops index (StaticIpv6 addrs gw) =
     map (\<lambda>(ip, p). AddAddr6 index ip p) addrs @ (case gw of Some g \<Rightarrow> [AddRoute6 g] | None \<Rightarrow> [])"

fun static_store :: "net_config \<Rightarrow> static_request \<Rightarrow> actor \<Rightarrow> (iface_error + unit) \<times> actor" where
  "static_store cfg (StaticIpv4 [] gw) a = (Err EmptyAddresses, a)"
| "static_store cfg (StaticIpv4 ((ip, p) # _) gw) a =
     (Ok (), a\<lparr>snap := (snap a)\<lparr>s_ip := Some \<lparr>c4_address = ip, c4_prefix = p, c4_gateway = gw,
                                               c4_dns = ipv4_dns cfg\<rparr>\<rparr>\<rparr>)"
| "static_store cfg (StaticIpv6 [] gw) a = (Err EmptyAddresses, a)"
| "static_store cfg (StaticIpv6 ((ip, p) # _) gw) a =
     (Ok (), a\<lparr>snap := (snap a)\<lparr>s_ipv6 := Some \<lparr>c6_address = ip, c6_prefix = p, c6_gateway = gw,
                                                 c6_dns = ipv6_dns cfg\<rparr>\<rparr>\<rparr>)"

definition static_set ::
    "net_config \<Rightarrow> iface_env \<Rightarrow> nat \<Rightarrow> static_request \<Rightarrow> apply_mode \<Rightarrow> actor \<Rightarrow> (iface_error + unit) \<times> actor" where
  "static_set cfg env index req mode a =
     (let a = (if mode = Provision then set_state Configuring a else a) in
      case ops_all env (static_ops index req) a of
        (Inl e, a) \<Rightarrow> (Err e, a)
      | (Inr _, a) \<Rightarrow>
          (case static_store cfg req a of
             (Inl e, a) \<Rightarrow> (Err e, a)
           | (Inr _, a) \<Rightarrow>
               if mode = Provision then (Ok (), set_state Configured a)
               else case ensure_configured_state a of
                      (True, a) \<Rightarrow> (Ok (), a)
                    | (False, a) \<Rightarrow> (Ok (), publish_snapshot a)))"

section \<open>SLAAC events\<close>

datatype slaac_event =
    SlaacConfigured ipv6 nat ipv6 "ipv6 list"
  | SlaacAddressDeprecated ipv6
  | SlaacAddressExpired ipv6
  | SlaacRouterExpired ipv6
  | SlaacDnsUpdated "ipv6 list"
  | SlaacFailed string

definition slaac_start :: "iface_env \<Rightarrow> actor \<Rightarrow> actor" where
  "slaac_start env a = (case slaac_new env of Inr _ \<Rightarrow> a\<lparr>slaac := True\<rparr> | Inl _ \<Rightarrow> a)"

definition apply_ipv6_configuration ::
    "iface_env \<Rightarrow> nat \<Rightarrow> ipv6_config \<Rightarrow> actor \<Rightarrow> (iface_error + unit) \<times> actor" where
  "apply_ipv6_configuration env index c a =
     ops_all env (AddAddr6 index (c6_address c) (c6_prefix c)
                  # (case c6_gateway c of Some g \<Rightarrow> [AddRoute6 g] | None \<Rightarrow> [])) a"

text \<open>\<open>if !actor.ensure_configured_state() { actor.publish_snapshot(); }\<close>\<close>

definition settle :: "actor \<Rightarrow> actor" where
  "settle a = (case ensure_configured_state a of (True, a) \<Rightarrow> a | (False, a) \<Rightarrow> publish_snapshot a)"

definition slaac_reconcile :: "iface_env \<Rightarrow> actor \<Rightarrow> actor" where
  "slaac_reconcile env a =
     (let a = (case s_ipv6 (snap a) of
                 None \<Rightarrow> a
               | Some c \<Rightarrow>
                   (case apply_ipv6_configuration env (s_index (snap a)) c a of
                      (Inl _, a) \<Rightarrow> a
                    | (Inr _, a) \<Rightarrow> settle a))
      in if \<not> slaac a then slaac_start env a else a)"

fun slaac_handle_event :: "iface_env \<Rightarrow> slaac_event \<Rightarrow> actor \<Rightarrow> actor" where
  "slaac_handle_event env (SlaacConfigured addr plen gw dns) a =
     (let c = \<lparr>c6_address = addr, c6_prefix = plen, c6_gateway = Some gw, c6_dns = dns\<rparr> in
      case apply_ipv6_configuration env (s_index (snap a)) c a of
        (Inl _, a) \<Rightarrow> a
      | (Inr _, a) \<Rightarrow> settle (a\<lparr>snap := (snap a)\<lparr>s_ipv6 := Some c\<rparr>\<rparr>))"
| "slaac_handle_event env (SlaacAddressDeprecated addr) a = a"
| "slaac_handle_event env (SlaacAddressExpired addr) a =
     (let a = snd (ops env (DelAddr6 (s_index (snap a)) addr) a)
      in publish_snapshot (a\<lparr>snap := (snap a)\<lparr>s_ipv6 := None\<rparr>\<rparr>))"
| "slaac_handle_event env (SlaacRouterExpired gone) a = snd (ops env (DelRoute6 gone) a)"
| "slaac_handle_event env (SlaacDnsUpdated servers) a =
     (case s_ipv6 (snap a) of
        None \<Rightarrow> a
      | Some c \<Rightarrow>
          if c6_dns c = servers then a
          else publish_snapshot (a\<lparr>snap := (snap a)\<lparr>s_ipv6 := Some (c\<lparr>c6_dns := servers\<rparr>)\<rparr>\<rparr>))"
| "slaac_handle_event env (SlaacFailed reason) a = a\<lparr>slaac := False\<rparr>"

section \<open>Commands and events\<close>

datatype command =
    ConfigureDhcp apply_mode
  | ConfigureStaticIpv4 apply_mode nat "(ipv4 \<times> nat) list" "ipv4 option"
  | ConfigureStaticIpv6 apply_mode nat "(ipv6 \<times> nat) list" "ipv6 option"
  | ConfigureBridge string bool
  | ConfigureSlaac apply_mode
  | CmdLinkUp
  | CmdLinkDown
  | Shutdown

definition iface_dispatch :: "net_config \<Rightarrow> iface_env \<Rightarrow> command \<Rightarrow> actor \<Rightarrow> actor option" where
  "iface_dispatch cfg env cmd a =
     (case cmd of
        ConfigureDhcp mode \<Rightarrow> Some (case mode of Provision \<Rightarrow> dhcp_start env a | Reconcile \<Rightarrow> dhcp_reconcile env a)
      | ConfigureStaticIpv4 mode index addrs gw \<Rightarrow> Some (snd (static_set cfg env index (StaticIpv4 addrs gw) mode a))
      | ConfigureStaticIpv6 mode index addrs gw \<Rightarrow> Some (snd (static_set cfg env index (StaticIpv6 addrs gw) mode a))
      | ConfigureBridge bridge stp \<Rightarrow> Some (snd (bridge_configure env bridge stp a))
      | ConfigureSlaac mode \<Rightarrow> Some (case mode of Provision \<Rightarrow> slaac_start env a | Reconcile \<Rightarrow> slaac_reconcile env a)
      | CmdLinkUp \<Rightarrow> link_up env a
      | CmdLinkDown \<Rightarrow> Some (link_down a)
      | Shutdown \<Rightarrow> Some (a\<lparr>manager := None, closed := True\<rparr>))"

datatype actor_event =
    EvCommand command
  | EvDhcpLease lease
  | EvDhcpFailed
  | EvSlaac slaac_event
  | EvRenew
  | EvRebind
  | EvExpire

text \<open>
  When \<open>actor_select\<close> can deliver an event: a manager is present for the DHCP results, a SLAAC
  manager for its events, and a timer that is armed and due for the timer events.
\<close>

definition due :: "nat \<Rightarrow> nat option \<Rightarrow> bool" where
  "due now t = (case t of None \<Rightarrow> False | Some u \<Rightarrow> u \<le> now)"

fun enabled :: "iface_env \<Rightarrow> actor \<Rightarrow> actor_event \<Rightarrow> bool" where
  "enabled env a (EvCommand cmd) = (\<not> closed a)"
| "enabled env a (EvDhcpLease l) = (manager a \<noteq> None)"
| "enabled env a EvDhcpFailed = (manager a \<noteq> None)"
| "enabled env a (EvSlaac ev) = slaac a"
| "enabled env a EvRenew = due (env_now env) (t_renew (timers a))"
| "enabled env a EvRebind = due (env_now env) (t_rebind (timers a))"
| "enabled env a EvExpire = due (env_now env) (t_expire (timers a))"

text \<open>One turn of \<open>actor_loop\<close>; a timer that fired is taken out (\<open>poll_opt\<close>) before its handler runs.\<close>

fun handle_event :: "net_config \<Rightarrow> iface_env \<Rightarrow> actor_event \<Rightarrow> actor \<Rightarrow> actor option" where
  "handle_event cfg env (EvCommand cmd) a = iface_dispatch cfg env cmd a"
| "handle_event cfg env (EvDhcpLease l) a = Some (acquired env l a)"
| "handle_event cfg env EvDhcpFailed a = Some (acquisition_failed a)"
| "handle_event cfg env (EvSlaac ev) a = Some (slaac_handle_event env ev a)"
| "handle_event cfg env EvRenew a = renew_lease env (a\<lparr>timers := (timers a)\<lparr>t_renew := None\<rparr>\<rparr>)"
| "handle_event cfg env EvRebind a = rebind_lease env (a\<lparr>timers := (timers a)\<lparr>t_rebind := None\<rparr>\<rparr>)"
| "handle_event cfg env EvExpire a = on_expire env (a\<lparr>timers := (timers a)\<lparr>t_expire := None\<rparr>\<rparr>)"

text \<open>\<open>spawn_with\<close>: the timers are armed from the lease of the snapshot, if it has one.\<close>

definition actor_spawn :: "nat \<Rightarrow> snapshot \<Rightarrow> actor" where
  "actor_spawn now s =
     \<lparr>snap = s, published = s, manager = None,
      timers = (case s_lease s of Some l \<Rightarrow> arm now l | None \<Rightarrow> timers_off),
      slaac = False, closed = False, kernel = []\<rparr>"

text \<open>
  The leases that \<open>EvDhcpLease\<close> carries are results of the acquisition loop of the manager, whose
  attempts are exchanges over its socket.
\<close>

definition acquirable :: "bytes \<Rightarrow> lease \<Rightarrow> bool" where
  "acquirable mac l \<longleftrightarrow>
     (\<exists>attempt slept. acquire_attempts attempt = (Ok l, slept) \<and>
        (\<forall>n. \<exists>xid_src now sock sock'. run xid_src now mac sock = (Some (attempt n), sock')))"

inductive actor_reach :: "net_config \<Rightarrow> snapshot \<Rightarrow> actor \<Rightarrow> bool" for cfg s where
  spawn: "actor_reach cfg s (actor_spawn now s)"
| event: "actor_reach cfg s a \<Longrightarrow> enabled env a ev
    \<Longrightarrow> (case ev of EvDhcpLease l \<Rightarrow> acquirable (s_mac (snap a)) l | _ \<Rightarrow> True)
    \<Longrightarrow> handle_event cfg env ev a = Some a' \<Longrightarrow> actor_reach cfg s a'"

section \<open>How long an acquisition takes\<close>

text \<open>
  On a network where nothing answers, every attempt ends with the timeout of its receive, and the
  acquisition gives up after the last attempt.  \<open>actor_select\<close> polls the acquisition together with
  the other sources and drops it when one of them is ready, so it starts again from the first
  attempt; a command that is ready at the same time comes first.  \<open>gives_up\<close> is the time at which
  \<open>EvDhcpFailed\<close> is delivered to an actor that began to wait at time \<open>t\<close>, when commands arrive at the
  given times and nothing else happens.
\<close>

definition silent_acquire_secs :: nat where
  "silent_acquire_secs =
     (let slept = snd (acquire_attempts (\<lambda>_. Err TimedOut))
      in (length slept + 1) * DHCP_TIMEOUT_SECS + sum_list slept)"

fun gives_up :: "nat \<Rightarrow> nat \<Rightarrow> nat list \<Rightarrow> nat" where
  "gives_up need t [] = t + need"
| "gives_up need t (c # cs) = (if t + need < c then t + need else gives_up need c cs)"

end
