(* ===== verification/Net_Interface_Safety.thy ===== *)
theory Net_Interface_Safety
  imports Net_Interface
begin

text \<open>
  Lemmas on the interface actor: leases that come out of an exchange are well formed, every handler
  keeps the invariant of the actor, and the life cycle moves along its allowed edges only.
\<close>

section \<open>Leases of an exchange\<close>

definition lease_wf :: "lease \<Rightarrow> bool" where
  "lease_wf l \<longleftrightarrow> lease_secs l \<le> u32_max \<and> renewal_secs l \<le> lease_secs l \<and> rebind_secs l \<le> lease_secs l
     \<and> prefix_len l \<le> 32"

definition options_wf :: "parsed_options \<Rightarrow> bool" where
  "options_wf p \<longleftrightarrow> (\<forall>t. lease_time p = Some t \<longrightarrow> t \<le> u32_max)"

lemma options_wf_apply: "options_wf p \<Longrightarrow> options_wf (apply_option code data p)"
  using from_be_bound [of data] by (auto simp: options_wf_def apply_option_def Let_def u32_max_def)

lemma options_wf_fold: "options_wf p \<Longrightarrow> options_wf (fold apply_tlv opts p)"
proof (induction opts arbitrary: p)
  case (Cons opt opts)
  then show ?case by (cases opt) (simp_all add: options_wf_apply)
qed simp

lemma options_wf_parse: "options_wf (parse_options bs)"
proof -
  obtain opts rest where bs: "bs = encode_options opts @ rest" "list_all option_ok opts" "list_ends rest"
    by (rule split_options)
  have "parse_options bs = fold apply_tlv opts no_options"
    using parse_from_encode [OF bs(2,3), of "[]"] by (simp add: parse_options_def bs(1))
  moreover have "options_wf no_options" by (simp add: options_wf_def no_options_def)
  ultimately show ?thesis by (simp add: options_wf_fold)
qed

lemma validate_response_wf: "validate_response buf n x ty = Ok opts \<Longrightarrow> options_wf opts"
  by (auto simp: validate_response_def Let_def options_wf_parse split: if_splits option.splits)

lemma answer_of_wf: "answer_of x ty r = Ok (p, opts) \<Longrightarrow> options_wf opts"
  by (auto simp: answer_of_def and_then_eq_Ok intro: validate_response_wf
      split: recv.splits sum.splits if_splits)

lemma build_lease_wf: "options_wf opts \<Longrightarrow> lease_wf (build_lease_from_ack now ip srv opts)"
  using prefix_of_mask_le
  by (auto simp: lease_wf_def build_lease_from_ack_def Let_def options_wf_def 
      u32_max_def saturating_mul_def split: option.splits)

lemma run_lease_wf: "run xid_src now mac sock = (Some (Ok l), sock') \<Longrightarrow> lease_wf l"
proof -
  assume run: "run xid_src now mac sock = (Some (Ok l), sock')"
  then obtain x where "xid_src = Ok x" by (cases xid_src) (simp_all add: run_def)
  with run obtain server ip sock2 where "request_lease x now mac ip server sock2 = (Some (Ok l), sock')"
    by (auto simp: run_Ok_iff)
  then show ?thesis by (auto simp: request_lease_Ok_iff intro: build_lease_wf answer_of_wf)
qed

lemma renew_lease_wf: "fst (renew xid_src now mac srv ip sock) = Some (Ok l) \<Longrightarrow> lease_wf l"
proof -
  assume renew: "fst (renew xid_src now mac srv ip sock) = Some (Ok l)"
  then obtain x sock2 rest where "receive_ack_unicast x now srv sock2 = Some (Ok l, rest)"
    by (auto simp: renew_def split: sum.splits prod.splits option.splits)
  then show ?thesis
    by (cases "(x, now, srv, sock2)" rule: receive_ack_unicast.cases)
      (auto simp: Let_def and_then_eq_Ok intro: build_lease_wf validate_response_wf)
qed

lemma rebind_lease_wf: "fst (rebind xid_src now mac srv ip sock) = Some (Ok l) \<Longrightarrow> lease_wf l"
proof -
  assume rebind: "fst (rebind xid_src now mac srv ip sock) = Some (Ok l)"
  then obtain x sock2 sock3 p opts n where "recv_validated x MT_ACK sock2 = Some (Ok (p, opts, n), sock3)"
      and l: "l = build_lease_from_ack now (yiaddr p) srv opts"
    by (auto simp: rebind_def split: sum.splits prod.splits option.splits)
  then show ?thesis by (auto simp: recv_validated_Ok_iff l intro: build_lease_wf answer_of_wf)
qed

lemma acquire_attempts_result: "fst (acquire_attempts attempt) \<in> range attempt"
  by (auto simp: acquire_attempts_eq split: sum.split) (metis rangeI)+

lemma acquirable_wf: "acquirable mac l \<Longrightarrow> lease_wf l"
proof -
  assume "acquirable mac l"
  then obtain attempt slept where a: "acquire_attempts attempt = (Ok l, slept)"
      and run: "\<forall>n. \<exists>xid_src now sock sock'. run xid_src now mac sock = (Some (attempt n), sock')"
    by (auto simp: acquirable_def)
  obtain n where "attempt n = Ok l" using acquire_attempts_result [of attempt] a by auto
  then show ?thesis using run run_lease_wf by metis
qed

section \<open>What the handlers touch\<close>

text \<open>The part of the actor that the invariant is about, and the part every handler leaves alone.\<close>

definition dhcp_core :: "actor \<Rightarrow> lease option \<times> dhcp_state option \<times> lease_timers" where
  "dhcp_core a = (s_lease (snap a), s_dhcp_state (snap a), timers a)"

definition iface_inv :: "actor \<Rightarrow> bool" where
  "iface_inv a \<longleftrightarrow>
     (\<forall>l. s_lease (snap a) = Some l \<longrightarrow> lease_wf l \<and> s_dhcp_state (snap a) \<noteq> None) \<and>
     (timers a \<noteq> timers_off \<longrightarrow> s_lease (snap a) \<noteq> None)"

lemma iface_inv_core: "dhcp_core a = dhcp_core b \<Longrightarrow> iface_inv a = iface_inv b"
  by (simp add: dhcp_core_def iface_inv_def)

abbreviation lifecycle_path :: "lifecycle \<Rightarrow> lifecycle \<Rightarrow> bool" where
  "lifecycle_path \<equiv> (\<lambda>s t. t \<in> set (lifecycle_next_states s))\<^sup>*\<^sup>*"

definition moves :: "actor \<Rightarrow> actor \<Rightarrow> bool" where
  "moves a b \<longleftrightarrow> lifecycle_path (s_state (snap a)) (s_state (snap b)) \<and>
     s_name (snap b) = s_name (snap a) \<and> s_mac (snap b) = s_mac (snap a) \<and> s_index (snap b) = s_index (snap a)"

lemma moves_refl [simp]: "moves a a"
  by (simp add: moves_def)

lemma moves_trans [trans]: "moves a b \<Longrightarrow> moves b c \<Longrightarrow> moves a c"
  by (auto simp: moves_def)

text \<open>A handler that changes neither the core nor the identity and moves along the life cycle.\<close>

definition quiet :: "actor \<Rightarrow> actor \<Rightarrow> bool" where
  "quiet a b \<longleftrightarrow> dhcp_core b = dhcp_core a \<and> moves a b"

lemma quiet_refl [simp]: "quiet a a"
  by (simp add: quiet_def)

lemma quiet_trans [trans]: "quiet a b \<Longrightarrow> quiet b c \<Longrightarrow> quiet a c"
  by (metis moves_trans quiet_def)

lemma quiet_inv: "quiet a b \<Longrightarrow> iface_inv b = iface_inv a"
  by (metis iface_inv_core quiet_def)

lemma quiet_moves: "quiet a b \<Longrightarrow> moves a b"
  by (simp add: quiet_def)

lemma quiet_update [simp]:
  "quiet a (publish_snapshot b) = quiet a b"
  "quiet a (b\<lparr>manager := m\<rparr>) = quiet a b"
  "quiet a (b\<lparr>slaac := f\<rparr>) = quiet a b"
  "quiet a (b\<lparr>closed := f\<rparr>) = quiet a b"
  "quiet a (b\<lparr>kernel := ks\<rparr>) = quiet a b"
  "quiet a (b\<lparr>snap := (snap b)\<lparr>s_ipv6 := c\<rparr>\<rparr>) = quiet a b"
  "quiet a (b\<lparr>snap := (snap b)\<lparr>s_ip := i\<rparr>\<rparr>) = quiet a b"
  "quiet a (b\<lparr>snap := (snap b)\<lparr>s_link := k\<rparr>\<rparr>) = quiet a b"
  by (simp_all add: quiet_def dhcp_core_def moves_def publish_snapshot_def)

lemma quiet_set_state: "quiet a (set_state st a)"
  by (cases "st \<in> set (lifecycle_next_states (s_state (snap a)))")
    (auto simp: quiet_def dhcp_core_def moves_def set_state_def snapshot_transition_def transition_def
      publish_snapshot_def)

lemma quiet_ops: "quiet a (snd (ops env k a))"
  by (simp add: ops_def quiet_def dhcp_core_def moves_def split: sum.split)

lemma quiet_ops_all: "quiet a (snd (ops_all env ks a))"
proof (induction ks arbitrary: a)
  case (Cons k ks)
  obtain r b where op: "ops env k a = (r, b)" by (cases "ops env k a")
  have "quiet a b" using quiet_ops [of a env k] op by simp
  also have "quiet b (snd (ops_all env ks b))" by (rule Cons.IH)
  finally show ?case using op \<open>quiet a b\<close> by (cases r) simp_all
qed simp

lemma quiet_ensure_configured: "quiet a (snd (ensure_configured_state a))"
  using quiet_trans [OF quiet_set_state quiet_set_state]
  by (simp add: ensure_configured_state_def quiet_set_state split: lifecycle.split)

lemma quiet_settle: "quiet a (settle a)"
  using quiet_ensure_configured [of a]
  by (cases "ensure_configured_state a"; cases "fst (ensure_configured_state a)") (simp_all add: settle_def)

lemma quiet_apply_lease: "quiet a (snd (apply_lease env i l a))"
  by (simp add: apply_lease_def quiet_ops_all del: ops_all.simps)

lemma quiet_dhcp_start: "quiet a (dhcp_start env a)"
  using quiet_trans [OF quiet_set_state quiet_set_state]
  by (simp add: dhcp_start_def Let_def quiet_set_state split: sum.split)

lemma quiet_static_store: "quiet a (snd (static_store cfg req a))"
  by (cases "(cfg, req, a)" rule: static_store.cases) simp_all

lemma quiet_static_set: "quiet a (snd (static_set cfg env i req mode a))"
proof -
  define b where "b = (if mode = Provision then set_state Configuring a else a)"
  obtain r c where c: "ops_all env (static_ops i req) b = (r, c)" by (cases "ops_all env (static_ops i req) b")
  obtain r' d where d: "static_store cfg req c = (r', d)" by (cases "static_store cfg req c")
  have ab: "quiet a b" by (simp add: b_def quiet_set_state)
  have ac: "quiet a c" using quiet_trans [OF ab] quiet_ops_all [of b env "static_ops i req"] c by simp
  have ad: "quiet a d" using quiet_trans [OF ac] quiet_static_store [of c cfg req] d by simp
  show ?thesis
    using ac ad quiet_trans [OF ad quiet_set_state] quiet_trans [OF ad quiet_ensure_configured]
    by (auto simp: static_set_def Let_def b_def [symmetric] c d split: sum.split prod.split bool.split)
qed

lemma quiet_slaac_apply: "quiet a (snd (apply_ipv6_configuration env i c a))"
  by (simp add: apply_ipv6_configuration_def quiet_ops_all del: ops_all.simps)

lemma quiet_slaac_start: "quiet a (slaac_start env a)"
  by (simp add: slaac_start_def split: sum.split)

lemma quiet_slaac_reconcile: "quiet a (slaac_reconcile env a)"
proof -
  define b where "b = (case s_ipv6 (snap a) of None \<Rightarrow> a | Some c \<Rightarrow>
      (case apply_ipv6_configuration env (s_index (snap a)) c a of (Inl _, a) \<Rightarrow> a | (Inr _, a) \<Rightarrow> settle a))"
  have ab: "quiet a b"
  proof (cases "s_ipv6 (snap a)")
    case (Some c)
    obtain r d where d: "apply_ipv6_configuration env (s_index (snap a)) c a = (r, d)"
      by (cases "apply_ipv6_configuration env (s_index (snap a)) c a")
    have "quiet a d" using quiet_slaac_apply [of a env "s_index (snap a)" c] d by simp
    then show ?thesis using quiet_trans [OF _ quiet_settle] by (cases r) (simp_all add: b_def Some d)
  qed (simp add: b_def)
  then show ?thesis
    using quiet_trans [OF ab quiet_slaac_start] by (simp add: slaac_reconcile_def b_def [symmetric] Let_def)
qed

lemma quiet_slaac_event: "quiet a (slaac_handle_event env ev a)"
proof (cases ev)
  case (SlaacConfigured addr plen gw dns)
  let ?c = "\<lparr>c6_address = addr, c6_prefix = plen, c6_gateway = Some gw, c6_dns = dns\<rparr>"
  obtain r d where d: "apply_ipv6_configuration env (s_index (snap a)) ?c a = (r, d)"
    by (cases "apply_ipv6_configuration env (s_index (snap a)) ?c a")
  have "quiet a d" using quiet_slaac_apply [of a env "s_index (snap a)" ?c] d by simp
  then show ?thesis
    using quiet_trans [OF _ quiet_settle] SlaacConfigured d by (cases r) simp_all
qed (simp_all add: Let_def quiet_ops split: option.split)

section \<open>Handlers that change the lease\<close>

lemma dhcp_transition_simps [simp]:
  "s_lease (snap (dhcp_transition st a)) = s_lease (snap a)"
  "timers (dhcp_transition st a) = timers a"
  "s_state (snap (dhcp_transition st a)) = s_state (snap a)"
  "manager (dhcp_transition st a) = manager a"
  "published (dhcp_transition st a) = published a"
  "kernel (dhcp_transition st a) = kernel a"
  "s_dhcp_state (snap (dhcp_transition st a)) \<noteq> None"
  by (simp_all add: dhcp_transition_def split: option.split)

lemma moves_dhcp_transition [simp]: "moves a (dhcp_transition st b) = moves a b"
  by (simp add: moves_def dhcp_transition_def)

lemma iface_inv_dhcp_transition: "iface_inv a \<Longrightarrow> iface_inv (dhcp_transition st a)"
  by (auto simp: iface_inv_def)

text \<open>The DHCP state after a transition to Bound is Bound, from whatever state.\<close>

lemma dhcp_transition_bound: "s_dhcp_state (snap (dhcp_transition DhcpBound a)) = Some DhcpBound"
proof (cases "s_dhcp_state (snap a)")
  case (Some st)
  then show ?thesis by (cases st) (simp_all add: dhcp_transition_def transition_def)
qed (simp add: dhcp_transition_def)

lemma commit_lease_ok:
  assumes "commit_lease env i l a = (Ok (), b)"
  shows "s_lease (snap b) = Some l \<and> s_dhcp_state (snap b) = Some DhcpBound
    \<and> timers b = arm (env_now env) l \<and> moves a b \<and> s_state (snap b) = s_state (snap a)
    \<and> s_ip (snap b) = Some \<lparr>c4_address = assigned_ip l, c4_prefix = prefix_len l, c4_gateway = gateway l,
                            c4_dns = lease_dns l\<rparr>"
proof -
  obtain r c where c: "apply_lease env i l a = (r, c)" by (cases "apply_lease env i l a")
  have ops: "snap (snd (ops_all env ks a)) = snap a" for ks a
    by (induction ks arbitrary: a) (auto simp: ops_def split: sum.splits prod.splits)
  have s: "snap c = snap a" using ops [of _ a] c unfolding apply_lease_def by (metis snd_conv)
  have b: "b = (dhcp_transition DhcpBound (store_lease l c))\<lparr>timers := arm (env_now env) l\<rparr>"
    using assms c by (cases r) (auto simp: commit_lease_def)
  have "s_dhcp_state (snap b) = Some DhcpBound" using dhcp_transition_bound by (simp add: b)
  then show ?thesis
    by (simp add: b moves_def s store_lease_def publish_snapshot_def dhcp_transition_def)
qed

lemma commit_lease_err: "commit_lease env i l a = (Err e, b) \<Longrightarrow> quiet a b"
proof -
  assume com: "commit_lease env i l a = (Err e, b)"
  obtain r c where c: "apply_lease env i l a = (r, c)" by (cases "apply_lease env i l a")
  have "quiet a c" using quiet_apply_lease [of a env i l] c by simp
  then show ?thesis using com c by (cases r) (auto simp: commit_lease_def)
qed

lemma commit_lease_inv:
  assumes "iface_inv a" "lease_wf l" "commit_lease env i l a = (r, b)"
  shows "iface_inv b \<and> moves a b"
proof (cases r)
  case (Inl e)
  then show ?thesis using commit_lease_err assms quiet_inv quiet_moves by blast
next
  case (Inr u)
  then show ?thesis using commit_lease_ok [of env i l a b] assms by (auto simp: iface_inv_def)
qed

lemma iface_inv_timers_off: "iface_inv a \<Longrightarrow> iface_inv (a\<lparr>timers := timers_off\<rparr>)"
  by (simp add: iface_inv_def)

lemma moves_timers [simp]: "moves a (b\<lparr>timers := t\<rparr>) = moves a b"
  by (simp add: moves_def)

lemma publish_snapshot_inv [simp]:
  "iface_inv (publish_snapshot a) = iface_inv a" "moves a (publish_snapshot b) = moves a b"
  by (simp_all add: iface_inv_def moves_def publish_snapshot_def)

lemma moves_set_state: "moves a b \<Longrightarrow> moves a (set_state st b)"
  using moves_trans quiet_moves [OF quiet_set_state] by blast

lemma iface_inv_set_state [simp]: "iface_inv (set_state st a) = iface_inv a"
  using quiet_inv [OF quiet_set_state] .

lemma do_full_dora_inv:
  assumes inv: "iface_inv a" and dora: "do_full_dora env a = Some (r, b)"
  shows "iface_inv b \<and> moves a b"
proof -
  define c where "c = dora_begin a"
  have c: "iface_inv c \<and> moves a c"
    using inv moves_set_state [of a "dhcp_transition DhcpInit a"]
    by (simp add: c_def dora_begin_def iface_inv_timers_off iface_inv_dhcp_transition)
  show ?thesis
  proof (cases "create_raw env (s_name (snap c))")
    case (Inl e)
    then show ?thesis using dora c by (simp add: do_full_dora_def Let_def c_def [symmetric])
  next
    case (Inr sock)
    obtain res sock' where run: "run (env_xid env) (env_now env) (s_mac (snap c)) sock = (res, sock')"
      by (cases "run (env_xid env) (env_now env) (s_mac (snap c)) sock")
    show ?thesis
    proof (cases res)
      case None
      then show ?thesis using dora Inr run by (simp add: do_full_dora_def Let_def c_def [symmetric])
    next
      case (Some x)
      show ?thesis
      proof (cases x)
        case err: (Inl e)
        then show ?thesis using dora Inr run Some c moves_set_state
          by (auto simp: do_full_dora_def Let_def c_def [symmetric])
      next
        case ok: (Inr l)
        obtain r' d where d: "commit_lease env (s_index (snap c)) l c = (r', d)"
          by (cases "commit_lease env (s_index (snap c)) l c")
        have "lease_wf l" using run_lease_wf run Some ok by blast
        then have "iface_inv d \<and> moves c d" using commit_lease_inv [OF _ _ d] c by blast
        then have d': "iface_inv d \<and> moves a d" using c moves_trans by blast
        show ?thesis
          using dora Inr run Some ok d d' moves_set_state
          by (cases r') (auto simp: do_full_dora_def Let_def c_def [symmetric])
      qed
    qed
  qed
qed

lemma after_exchange_inv:
  assumes "iface_inv a" "after_exchange env res a = Some (r, b)" "\<And>l. res = Some (Ok l) \<Longrightarrow> lease_wf l"
  shows "iface_inv b \<and> moves a b"
proof (cases res)
  case None
  then show ?thesis using assms by (simp add: after_exchange_def)
next
  case (Some x)
  show ?thesis
  proof (cases x)
    case (Inl e)
    then show ?thesis
      using assms Some do_full_dora_inv by (auto simp: after_exchange_def split: if_splits)
  next
    case (Inr l)
    then have "commit_lease env (s_index (snap a)) l a = (r, b)"
      using assms(2) Some by (simp add: after_exchange_def)
    then show ?thesis using commit_lease_inv [OF assms(1)] assms(3) Some Inr by blast
  qed
qed

lemma do_renew_inv: "iface_inv a \<Longrightarrow> do_renew env a = Some (r, b) \<Longrightarrow> iface_inv b \<and> moves a b"
  by (auto simp: do_renew_def dest: after_exchange_inv [OF _ _ renew_lease_wf] split: sum.splits prod.splits)

lemma do_rebind_inv: "iface_inv a \<Longrightarrow> do_rebind env a = Some (r, b) \<Longrightarrow> iface_inv b \<and> moves a b"
  by (auto simp: do_rebind_def dest: after_exchange_inv [OF _ _ rebind_lease_wf] split: sum.splits prod.splits)

lemma recover_with_lease_inv:
  assumes "iface_inv a" "s_lease (snap a) = Some l"
  shows "iface_inv (recover_with_lease env l a) \<and> moves a (recover_with_lease env l a)"
proof -
  obtain r b where b: "apply_lease env (s_index (snap a)) l a = (r, b)"
    by (cases "apply_lease env (s_index (snap a)) l a")
  have q: "quiet a b" using quiet_apply_lease [of a env "s_index (snap a)" l] b by simp
  have "iface_inv b" "moves a b" using assms quiet_inv [OF q] quiet_moves [OF q] by simp_all
  moreover have "s_lease (snap b) = Some l" using q assms by (simp add: quiet_def dhcp_core_def)
  ultimately have "iface_inv (b\<lparr>timers := arm (env_now env) l\<rparr>)" by (simp add: iface_inv_def)
  then show ?thesis
    using b \<open>iface_inv b\<close> \<open>moves a b\<close>
    by (cases r) (simp_all add: recover_with_lease_def moves_set_state)
qed

lemma dhcp_reconcile_inv:
  assumes "iface_inv a"
  shows "iface_inv (dhcp_reconcile env a) \<and> moves a (dhcp_reconcile env a)"
proof (cases "s_lease (snap a)")
  case None
  then show ?thesis
    using assms quiet_dhcp_start [of a env] quiet_inv quiet_moves by (auto simp: dhcp_reconcile_def)
next
  case (Some l)
  obtain r b where b: "apply_lease env (s_index (snap a)) l a = (r, b)"
    by (cases "apply_lease env (s_index (snap a)) l a")
  have q: "quiet a b" using quiet_apply_lease [of a env "s_index (snap a)" l] b by simp
  let ?c = "(dhcp_transition DhcpBound (store_lease l b))\<lparr>timers := arm (env_now env) l\<rparr>"
  show ?thesis
  proof (cases r)
    case (Inl e)
    then show ?thesis using Some b q assms quiet_inv quiet_moves by (simp add: dhcp_reconcile_def)
  next
    case (Inr u)
    have com: "commit_lease env (s_index (snap a)) l a = (Ok (), ?c)"
      using b Inr by (simp add: commit_lease_def)
    have "lease_wf l" using assms Some by (simp add: iface_inv_def)
    then have "iface_inv ?c \<and> moves a ?c" using commit_lease_inv [OF assms _ com] by blast
    moreover have "iface_inv (snd (ensure_configured_state ?c)) = iface_inv ?c"
        "moves ?c (snd (ensure_configured_state ?c))"
      using quiet_inv quiet_moves quiet_ensure_configured by blast+
    moreover have "dhcp_reconcile env a = snd (ensure_configured_state ?c)"
      using Some b Inr by (simp add: dhcp_reconcile_def Let_def)
    ultimately show ?thesis by (metis moves_trans)
  qed
qed

lemma link_down_inv: "iface_inv a \<Longrightarrow> iface_inv (link_down a) \<and> moves a (link_down a)"
  by (cases "s_state (snap a)")
    (auto simp: link_down_def Let_def iface_inv_def moves_def publish_snapshot_def snapshot_transition_def
      transition_def intro: r_into_rtranclp)

lemma iface_inv_quiet_update: "quiet a b \<Longrightarrow> iface_inv a \<Longrightarrow> iface_inv b \<and> moves a b"
  using quiet_inv quiet_moves by blast

lemma link_up_inv:
  assumes "iface_inv a" "link_up env a = Some b"
  shows "iface_inv b \<and> moves a b"
proof -
  define c where "c = a\<lparr>snap := (snap a)\<lparr>s_link := LinkUp\<rparr>\<rparr>"
  have "quiet a c" by (simp add: c_def)
  then have c: "iface_inv c" "moves a c" using assms(1) iface_inv_quiet_update by blast+
  have up: "link_up env a =
      (if s_state (snap c) \<noteq> Degraded \<and> s_state (snap c) \<noteq> Failed then Some c
       else case s_lease (snap c) of
         Some l \<Rightarrow> Some (publish_snapshot (recover_with_lease env l c))
       | None \<Rightarrow> map_option (\<lambda>(_, a). publish_snapshot a) (do_full_dora env c))"
    by (simp only: link_up_def Let_def c_def)
  show ?thesis
  proof (cases "s_state (snap c) \<noteq> Degraded \<and> s_state (snap c) \<noteq> Failed")
    case True
    then show ?thesis using assms(2) c by (simp add: up)
  next
    case False
    show ?thesis
    proof (cases "s_lease (snap c)")
      case None
      then show ?thesis
        using assms(2) c False do_full_dora_inv [of c env] moves_trans
        by (auto simp: up)
    next
      case (Some l)
      then show ?thesis
        using assms(2) c False recover_with_lease_inv [of c l env] moves_trans
        by (auto simp: up)
    qed
  qed
qed

lemma bridge_configure_inv:
  assumes "iface_inv a"
  shows "iface_inv (snd (bridge_configure env br stp a)) \<and> moves a (snd (bridge_configure env br stp a))"
proof (cases "s_lease (snap a)")
  case None
  then show ?thesis using assms by (simp add: bridge_configure_def)
next
  case (Some l)
  obtain r b where b: "ops env (MakeBridge br (s_name (snap a)) (Option.bind (s_ip (snap a)) c4_gateway) stp) a = (r, b)"
    by (cases "ops env (MakeBridge br (s_name (snap a)) (Option.bind (s_ip (snap a)) c4_gateway) stp) a")
  have q: "iface_inv b \<and> moves a b"
    using quiet_ops [of a env] b iface_inv_quiet_update [OF _ assms] by (metis snd_conv)
  define c where "c = b\<lparr>timers := timers_off\<rparr>"
  have c: "iface_inv c" "moves a c" using q by (simp_all add: c_def iface_inv_timers_off)
  define d where "d = (\<lambda>n. c\<lparr>snap := (snap c)\<lparr>s_ip := None, s_lease := None, s_dhcp_state := None, s_l3_owner := n\<rparr>\<rparr>)"
  have d: "iface_inv (d n)" "moves a (d n)" for n
    using c by (simp_all add: d_def c_def iface_inv_def moves_def)
  have e: "iface_inv (set_state Discovered (set_state Deconfiguring (d n)))"
      "moves a (set_state Discovered (set_state Deconfiguring (d n)))" for n
    using d [of n] by (simp_all add: moves_set_state)
  show ?thesis
    using q c d [unfolded d_def] e [unfolded d_def] b Some
    by (auto simp: bridge_configure_def Let_def c_def [symmetric] split: sum.split option.split)
qed

section \<open>Every event\<close>

lemma iface_dispatch_inv:
  assumes "iface_inv a" "iface_dispatch cfg env cmd a = Some b"
  shows "iface_inv b \<and> moves a b"
proof (cases cmd)
  case (ConfigureDhcp mode)
  then show ?thesis
    using assms dhcp_reconcile_inv iface_inv_quiet_update [OF quiet_dhcp_start]
    by (cases mode) (auto simp: iface_dispatch_def)
next
  case (ConfigureSlaac mode)
  then show ?thesis
    using assms iface_inv_quiet_update [OF quiet_slaac_reconcile] iface_inv_quiet_update [OF quiet_slaac_start]
    by (cases mode) (auto simp: iface_dispatch_def)
next
  case (ConfigureBridge br stp)
  then show ?thesis using assms bridge_configure_inv by (auto simp: iface_dispatch_def)
next
  case CmdLinkUp
  then show ?thesis using assms link_up_inv by (simp add: iface_dispatch_def)
next
  case CmdLinkDown
  then show ?thesis using assms link_down_inv by (auto simp: iface_dispatch_def)
next
  case Shutdown
  then show ?thesis
    using assms iface_inv_quiet_update [of a "a\<lparr>manager := None, closed := True\<rparr>"]
    by (auto simp: iface_dispatch_def)
qed (use assms iface_inv_quiet_update [OF quiet_static_set] in \<open>auto simp: iface_dispatch_def\<close>)

lemma iface_inv_manager [simp]: "iface_inv (a\<lparr>manager := m\<rparr>) = iface_inv a" "moves a (b\<lparr>manager := m\<rparr>) = moves a b"
    "moves (a\<lparr>manager := m\<rparr>) b = moves a b"
  by (simp_all add: iface_inv_def moves_def)

lemma acquired_inv:
  assumes "iface_inv a" "lease_wf l"
  shows "iface_inv (acquired env l a) \<and> moves a (acquired env l a)"
proof -
  obtain r b where b: "commit_lease env (s_index (snap a)) l (a\<lparr>manager := None\<rparr>) = (r, b)"
    by (cases "commit_lease env (s_index (snap a)) l (a\<lparr>manager := None\<rparr>)")
  have "iface_inv b \<and> moves a b" using commit_lease_inv [OF _ assms(2) b] assms(1) by simp
  then show ?thesis using b by (cases r) (simp_all add: acquired_def moves_set_state)
qed

text \<open>Taking a timer out keeps the invariant.\<close>

lemma iface_inv_take_timer:
  assumes "iface_inv a" "due now (t_renew (timers a)) \<or> due now (t_rebind (timers a)) \<or> due now (t_expire (timers a))"
  shows "iface_inv (a\<lparr>timers := t\<rparr>)" 
proof -
  have "timers a \<noteq> timers_off" using assms(2) by (auto simp: due_def timers_off_def)
  then show ?thesis using assms(1) by (auto simp: iface_inv_def)
qed

lemma moves_from_timers [simp]: "moves (a\<lparr>timers := t\<rparr>) b = moves a b"
  by (simp add: moves_def)

lemma handle_event_inv:
  assumes inv: "iface_inv a" and en: "enabled env a ev"
    and lease: "\<And>l. ev = EvDhcpLease l \<Longrightarrow> acquirable (s_mac (snap a)) l"
    and ev: "handle_event cfg env ev a = Some b"
  shows "iface_inv b \<and> moves a b"
proof (cases ev)
  case (EvCommand cmd)
  then show ?thesis using iface_dispatch_inv [OF inv] ev by simp
next
  case (EvDhcpLease l)
  then show ?thesis using acquired_inv [OF inv acquirable_wf] lease ev by auto
next
  case EvDhcpFailed
  then show ?thesis using inv ev by (auto simp: acquisition_failed_def moves_set_state)
next
  case (EvSlaac e)
  then show ?thesis using ev iface_inv_quiet_update [OF quiet_slaac_event inv] by auto
next
  case EvRenew
  let ?a = "a\<lparr>timers := (timers a)\<lparr>t_renew := None\<rparr>\<rparr>"
  have "iface_inv (dhcp_transition DhcpRenewing ?a)"
    using iface_inv_take_timer [OF inv, of "env_now env"] en EvRenew by (simp add: iface_inv_dhcp_transition)
  moreover obtain r where "do_renew env (dhcp_transition DhcpRenewing ?a) = Some (r, b)"
    using ev EvRenew by (auto simp: renew_lease_def)
  ultimately have "iface_inv b \<and> moves (dhcp_transition DhcpRenewing ?a) b" by (rule do_renew_inv)
  moreover have "moves a (dhcp_transition DhcpRenewing ?a)" by simp
  ultimately show ?thesis using moves_trans by blast
next
  case EvRebind
  let ?a = "a\<lparr>timers := (timers a)\<lparr>t_rebind := None\<rparr>\<rparr>"
  have "iface_inv (dhcp_transition DhcpRebinding ?a)"
    using iface_inv_take_timer [OF inv, of "env_now env"] en EvRebind by (simp add: iface_inv_dhcp_transition)
  moreover obtain r where "do_rebind env (dhcp_transition DhcpRebinding ?a) = Some (r, b)"
    using ev EvRebind by (auto simp: rebind_lease_def)
  ultimately have "iface_inv b \<and> moves (dhcp_transition DhcpRebinding ?a) b" by (rule do_rebind_inv)
  moreover have "moves a (dhcp_transition DhcpRebinding ?a)" by simp
  ultimately show ?thesis using moves_trans by blast
next
  case EvExpire
  let ?a = "a\<lparr>timers := (timers a)\<lparr>t_expire := None\<rparr>\<rparr>"
  have "iface_inv ?a" using iface_inv_take_timer [OF inv, of "env_now env"] en EvExpire by simp
  moreover obtain r where "do_full_dora env ?a = Some (r, b)"
    using ev EvExpire by (auto simp: on_expire_def)
  ultimately have "iface_inv b \<and> moves ?a b" by (rule do_full_dora_inv)
  then show ?thesis by simp
qed

lemma actor_reach_inv:
  assumes "actor_reach cfg s a"
    and start: "\<forall>l. s_lease s = Some l \<longrightarrow> lease_wf l \<and> s_dhcp_state s \<noteq> None"
  shows "iface_inv a \<and> lifecycle_path (s_state s) (s_state (snap a)) \<and> s_name (snap a) = s_name s
    \<and> s_mac (snap a) = s_mac s \<and> s_index (snap a) = s_index s"
  using assms(1)
proof induction
  case (spawn now)
  then show ?case using start by (auto simp: actor_spawn_def iface_inv_def split: option.splits)
next
  case (event a env ev b)
  have "iface_inv b \<and> moves a b"
    by (rule handle_event_inv [OF _ event.hyps(2) _ event.hyps(4)]) (use event in auto)
  then show ?case using event.IH by (auto simp: moves_def)
qed

end
