(* ===== verification/Rust_Order.thy ===== *)
theory Rust_Order
  imports Prelude "HOL-Library.Multiset"
begin

text \<open>
  Comparison, sorting and searching as the Rust standard library has them: \<open>Ordering\<close>,
  \<open>Iterator::max_by\<close>, \<open>slice::sort_by\<close> and \<open>slice::binary_search_by\<close>.
\<close>

section \<open>Definitions\<close>

datatype ordering = Less | Equal | Greater

definition cmp :: "'a :: linorder \<Rightarrow> 'a \<Rightarrow> ordering" where
  "cmp a b = (if a < b then Less else if a = b then Equal else Greater)"

text \<open>\<open>Iterator::max_by\<close>: of several largest elements the last one.\<close>

fun max_by :: "('a \<Rightarrow> 'a \<Rightarrow> ordering) \<Rightarrow> 'a list \<Rightarrow> 'a option" where
  "max_by c [] = None"
| "max_by c (x # xs) = Some (fold (\<lambda>y best. if c best y = Greater then best else y) xs x)"

text \<open>\<open>slice::sort_by\<close> is a stable sort; insertion keeps equal elements in their order.\<close>

fun insert_by :: "('a \<Rightarrow> 'a \<Rightarrow> ordering) \<Rightarrow> 'a \<Rightarrow> 'a list \<Rightarrow> 'a list" where
  "insert_by c x [] = [x]"
| "insert_by c x (y # ys) = (if c x y = Greater then y # insert_by c x ys else x # y # ys)"

definition sort_by :: "('a \<Rightarrow> 'a \<Rightarrow> ordering) \<Rightarrow> 'a list \<Rightarrow> 'a list" where
  "sort_by c xs = foldr (insert_by c) xs []"

text \<open>
  \<open>slice::binary_search_by\<close> halves a window that starts at \<open>base\<close>; the answer is \<open>None\<close>
  where the library returns \<open>Err\<close>.
\<close>

fun search_base :: "('a \<Rightarrow> ordering) \<Rightarrow> 'a list \<Rightarrow> nat \<Rightarrow> nat \<Rightarrow> nat" where
  "search_base f xs base window =
     (if window \<le> 1 then base
      else let half = window div 2; mid = base + half
           in search_base f xs (if f (xs ! mid) = Greater then base else mid) (window - half))"

declare search_base.simps [simp del]

definition binary_search_by :: "('a \<Rightarrow> ordering) \<Rightarrow> 'a list \<Rightarrow> nat option" where
  "binary_search_by f xs =
     (if xs = [] then None
      else let i = search_base f xs 0 (length xs) in if f (xs ! i) = Equal then Some i else None)"

section \<open>Comparing and sorting\<close>

lemma cmp_Greater: "cmp a b = Greater \<longleftrightarrow> b < a"
  by (auto simp: cmp_def)

lemma cmp_Equal: "cmp a b = Equal \<longleftrightarrow> a = b"
  by (auto simp: cmp_def)

lemma mset_insert_by: "mset (insert_by c x xs) = add_mset x (mset xs)"
  by (induction xs) simp_all

lemma mset_sort_by: "mset (sort_by c xs) = mset xs"
  by (induction xs) (simp_all add: sort_by_def mset_insert_by)

lemma set_sort_by [simp]: "set (sort_by c xs) = set xs"
  by (metis mset_sort_by set_mset_mset)

lemma sort_by_key: "sort_by (\<lambda>a b. cmp (k a) (k b)) xs = sort_key k xs"
proof -
  have "insert_by (\<lambda>a b. cmp (k a) (k b)) x ys = insort_key k x ys" for x ys
    by (induction ys) (auto simp: cmp_Greater)
  then show ?thesis by (induction xs) (simp_all add: sort_by_def)
qed

lemma map_sort_key: "map h (sort_key (\<lambda>x. k (h x)) xs) = sort_key k (map h xs)"
proof -
  have "map h (insort_key (\<lambda>x. k (h x)) x ys) = insort_key k (h x) (map h ys)" for x ys
    by (induction ys) auto
  then show ?thesis by (induction xs) simp_all
qed

section \<open>Searching\<close>

lemma search_base_window:
  assumes "sorted (map k xs)" "0 < window" "base + window \<le> length xs"
    "\<forall>i. base + window \<le> i \<and> i < length xs \<longrightarrow> t < k (xs ! i)"
    "base = 0 \<or> k (xs ! base) \<le> t"
  shows "search_base (\<lambda>x. cmp (k x) t) xs base window < length xs
    \<and> (\<forall>i < length xs. k (xs ! i) = t \<longrightarrow> k (xs ! search_base (\<lambda>x. cmp (k x) t) xs base window) = t)"
  using assms
proof (induction "\<lambda>x. cmp (k x) t" xs base window rule: search_base.induct)
  case (1 xs base window)
  show ?case
  proof (cases "window \<le> 1")
    case True
    then have w: "window = 1" using 1(3) by simp
    have "k (xs ! base) = t" if i: "i < length xs" "k (xs ! i) = t" for i
    proof -
      have "i \<le> base" using 1(5) i w by (metis Suc_eq_plus1 less_irrefl not_less_eq_eq)
      then have "k (xs ! i) \<le> k (xs ! base)"
        using 1(2) 1(4) w sorted_nth_mono [of "map k xs" i base] by simp
      then show ?thesis using i 1(6) \<open>i \<le> base\<close> by auto
    qed
    then show ?thesis using True 1(4) w by (simp add: search_base.simps)
  next
    case False
    let ?half = "window div 2"
    let ?mid = "base + ?half"
    let ?b = "if cmp (k (xs ! ?mid)) t = Greater then base else ?mid"
    have half: "0 < ?half" "?half < window" using False by auto
    have above: "t < k (xs ! i)" if "?b + (window - ?half) \<le> i" "i < length xs" for i
    proof (cases "cmp (k (xs ! ?mid)) t = Greater")
      case True
      have "?mid \<le> i" using that True half by simp
      then have "k (xs ! ?mid) \<le> k (xs ! i)"
        using 1(2) sorted_nth_mono [of "map k xs" ?mid i] that by simp
      then show ?thesis using True by (simp add: cmp_Greater)
    next
      case False
      then show ?thesis using 1(5) that half by simp
    qed
    have "?b = 0 \<or> k (xs ! ?b) \<le> t" using 1(6) by (auto simp: cmp_Greater)
    moreover have "?b + (window - ?half) \<le> length xs" "0 < window - ?half" using half 1(4) by auto
    moreover have "\<forall>i. ?b + (window - ?half) \<le> i \<and> i < length xs \<longrightarrow> t < k (xs ! i)"
      using above by blast
    ultimately have "search_base (\<lambda>x. cmp (k x) t) xs ?b (window - ?half) < length xs
      \<and> (\<forall>i < length xs. k (xs ! i) = t \<longrightarrow>
            k (xs ! search_base (\<lambda>x. cmp (k x) t) xs ?b (window - ?half)) = t)"
      using 1(1) [OF False refl refl 1(2)] by blast
    moreover have "search_base (\<lambda>x. cmp (k x) t) xs base window
      = search_base (\<lambda>x. cmp (k x) t) xs ?b (window - ?half)"
      using False by (simp add: search_base.simps [of _ xs base window] Let_def)
    ultimately show ?thesis by simp
  qed
qed

lemma search_base_bound:
  "0 < window \<Longrightarrow> base + window \<le> n \<Longrightarrow> search_base f xs base window < n"
proof (induction f xs base window rule: search_base.induct)
  case (1 f xs base window)
  let ?b = "if f (xs ! (base + window div 2)) = Greater then base else base + window div 2"
  show ?case
  proof (cases "window \<le> 1")
    case False
    then have "0 < window - window div 2" "?b + (window - window div 2) \<le> n" using 1(3) by auto
    then have "search_base f xs ?b (window - window div 2) < n" using 1(1) [OF False refl refl] by blast
    then show ?thesis using False by (simp add: search_base.simps [of f xs base window] Let_def)
  qed (use 1(2,3) in \<open>simp add: search_base.simps [of f xs base window]\<close>)
qed

lemma binary_search_bound: "binary_search_by f xs = Some i \<Longrightarrow> i < length xs"
  using search_base_bound [of "length xs" 0 "length xs" f xs]
  by (auto simp: binary_search_by_def Let_def split: if_splits)

text \<open>On a sorted slice the search finds the key whenever it is there, and nothing else.\<close>

lemma binary_search_key:
  assumes "sorted (map k xs)"
  shows "binary_search_by (\<lambda>x. cmp (k x) t) xs = Some i \<Longrightarrow> i < length xs \<and> k (xs ! i) = t"
    and "binary_search_by (\<lambda>x. cmp (k x) t) xs = None \<longleftrightarrow> t \<notin> k ` set xs"
proof -
  let ?s = "search_base (\<lambda>x. cmp (k x) t) xs 0 (length xs)"
  have s: "xs \<noteq> [] \<Longrightarrow> ?s < length xs \<and> (\<forall>i < length xs. k (xs ! i) = t \<longrightarrow> k (xs ! ?s) = t)"
    by (rule search_base_window [OF assms]) auto
  then show "binary_search_by (\<lambda>x. cmp (k x) t) xs = Some i \<Longrightarrow> i < length xs \<and> k (xs ! i) = t"
    by (auto simp: binary_search_by_def Let_def cmp_Equal split: if_splits)
  show "binary_search_by (\<lambda>x. cmp (k x) t) xs = None \<longleftrightarrow> t \<notin> k ` set xs"
    using s by (auto simp: binary_search_by_def Let_def cmp_Equal image_iff) (metis in_set_conv_nth)+
qed

end
