(* ===== verification/Net_Supervisor.thy ===== *)
theory Net_Supervisor
  imports Net_Interface Rust_Strings Rust_Order "HOL-Library.Product_Lexorder"
begin

text \<open>
  The network supervisor: \<open>services/networkd/src/supervisor/\<close> and the interface selection of
  \<open>libs/netlib/src/interface.rs\<close>.  The supervisor keeps a handle per interface actor: the
  snapshot the actor published last and the commands sent to it and not yet taken.  The commands
  are delivered in order; a send to an actor that is gone fails.
\<close>

section \<open>Selection of the primary interface\<close>

record ethernet =
  eth_name :: string
  eth_index :: nat
  eth_mac :: bytes
  eth_link :: link_state

definition has_carrier :: "ethernet \<Rightarrow> bool" where
  "has_carrier i = (eth_link i = LinkUp)"

definition score_naming :: "string \<Rightarrow> nat" where
  "score_naming name =
     (if strip_prefix ''eno'' name \<noteq> None then 500
      else if strip_prefix ''ens'' name \<noteq> None then 400
      else if strip_prefix ''enp'' name \<noteq> None then 300
      else if strip_prefix ''end'' name \<noteq> None then 200
      else if strip_prefix ''eth'' name \<noteq> None then 100
      else 50)"

definition score_interface :: "ethernet \<Rightarrow> nat" where
  "score_interface i =
     (let score = 0;
          score = (if has_carrier i then saturating_add u32_max score 2000 else score);
          score = (if eth_link i \<noteq> LinkDown then saturating_add u32_max score 1000 else score)
      in saturating_add u32_max score (score_naming (eth_name i)))"

text \<open>
  \<open>compare_interfaces\<close> orders by score and then by the smaller index; the key of an interface makes
  that order the one on pairs.
\<close>

definition compare_interfaces :: "ethernet \<Rightarrow> ethernet \<Rightarrow> ordering" where
  "compare_interfaces l r =
     (case cmp (score_interface l) (score_interface r) of
        Equal \<Rightarrow> cmp (eth_index r) (eth_index l)
      | c \<Rightarrow> c)"

definition select_primary :: "ethernet list \<Rightarrow> ethernet option" where
  "select_primary is = (if is = [] then None else max_by compare_interfaces is)"

definition select_backups :: "ethernet list \<Rightarrow> string \<Rightarrow> ethernet list" where
  "select_backups is primary =
     sort_by (\<lambda>l r. compare_interfaces r l) (filter (\<lambda>i. eth_name i \<noteq> primary) is)"

section \<open>State\<close>

abbreviation (input) RECONCILE_INTERVAL :: nat where "RECONCILE_INTERVAL \<equiv> 30"

record network_snapshot =
  n_state :: network_state
  n_primary :: "string option"
  n_backups :: "string list"
  n_interfaces :: "snapshot list"

definition network_empty :: network_snapshot where
  "network_empty = \<lparr>n_state = NetUninitialized, n_primary = None, n_backups = [], n_interfaces = []\<rparr>"

record iface_handle =
  state_rx :: snapshot
  cmd_queue :: "command list"
  actor_gone :: bool

text \<open>The resolver keeps the lists it wrote last; \<open>resolv_conf\<close> is the content of the file.\<close>

record resolver =
  r_v4 :: "ipv4 list"
  r_v6 :: "ipv6 list"
  resolv_conf :: "(ipv4 list \<times> ipv6 list) option"

record net_supervisor =
  net :: network_snapshot
  interfaces :: "(string \<times> iface_handle) list"
  net_published :: network_snapshot
  dns :: resolver

text \<open>What the kernel, the file system and the actors answer during one event.\<close>

record sup_env =
  discover_ethernet :: "iface_error + ethernet list"
  carriers :: "(nat \<times> bool) list"
  ensure_up :: "string \<Rightarrow> iface_error + nat"
  bridge_ok :: "kernel_op \<Rightarrow> iface_error + unit"
  index_of :: "string \<Rightarrow> iface_error + nat"
  dns_write :: "iface_error + unit"
  port_states :: "string \<Rightarrow> snapshot list"
  bridge_reply :: "string \<Rightarrow> iface_error + snapshot"

definition net_transition :: "network_state \<Rightarrow> net_supervisor \<Rightarrow> (network_state invalid_transition + unit) \<times> net_supervisor" where
  "net_transition to s =
     (case transition network_next_states (n_state (net s)) to of
        (st, r) \<Rightarrow> (r, s\<lparr>net := (net s)\<lparr>n_state := st\<rparr>\<rparr>))"

definition publish_state :: "net_supervisor \<Rightarrow> net_supervisor" where
  "publish_state s = s\<lparr>net_published := net s\<rparr>"

text \<open>The idiom \<open>if let Err(e) = transition(..) { warn } else { publish_state() }\<close>.\<close>

definition advance :: "network_state \<Rightarrow> net_supervisor \<Rightarrow> net_supervisor" where
  "advance to s = (case net_transition to s of (Inl _, s) \<Rightarrow> s | (Inr _, s) \<Rightarrow> publish_state s)"

definition collect_dns :: "net_config \<Rightarrow> snapshot \<Rightarrow> ipv4 list \<times> ipv6 list" where
  "collect_dns cfg s =
     (case s_ip s of Some ip \<Rightarrow> if c4_dns ip \<noteq> [] then c4_dns ip else ipv4_dns cfg | None \<Rightarrow> ipv4_dns cfg,
      case s_ipv6 s of Some ip \<Rightarrow> if c6_dns ip \<noteq> [] then c6_dns ip else ipv6_dns cfg | None \<Rightarrow> ipv6_dns cfg)"

text \<open>\<open>Resolver::update\<close> and \<open>write_resolv_conf\<close>: with no servers at all the file is left alone.\<close>

definition resolver_update :: "iface_error + unit \<Rightarrow> ipv4 list \<Rightarrow> ipv6 list \<Rightarrow> resolver \<Rightarrow> (iface_error + unit) \<times> resolver" where
  "resolver_update io v4 v6 r =
     (let r = r\<lparr>r_v4 := v4, r_v6 := v6\<rparr> in
      if v4 = [] \<and> v6 = [] then (Ok (), r)
      else case io of Inl e \<Rightarrow> (Err e, r) | Inr _ \<Rightarrow> (Ok (), r\<lparr>resolv_conf := Some (v4, v6)\<rparr>))"

definition is_unchanged :: "resolver \<Rightarrow> ipv4 list \<Rightarrow> ipv6 list \<Rightarrow> bool" where
  "is_unchanged r v4 v6 = (r_v4 r = v4 \<and> r_v6 r = v6)"

definition flush_dns :: "net_config \<Rightarrow> sup_env \<Rightarrow> net_supervisor \<Rightarrow> net_supervisor" where
  "flush_dns cfg env s =
     (case n_primary (net s) of
        None \<Rightarrow> s
      | Some primary \<Rightarrow>
          (case map_of (interfaces s) primary of
             None \<Rightarrow> s
           | Some h \<Rightarrow>
               let (v4, v6) = collect_dns cfg (state_rx h) in
               if is_unchanged (dns s) v4 v6 then s
               else s\<lparr>dns := snd (resolver_update (dns_write env) v4 v6 (dns s))\<rparr>))"

definition sync_and_publish :: "net_config \<Rightarrow> sup_env \<Rightarrow> net_supervisor \<Rightarrow> net_supervisor" where
  "sync_and_publish cfg env s =
     publish_state (flush_dns cfg env
       (s\<lparr>net := (net s)\<lparr>n_interfaces := map (state_rx \<circ> snd) (interfaces s)\<rparr>\<rparr>))"

definition spawn_interface_actor :: "snapshot \<Rightarrow> net_supervisor \<Rightarrow> net_supervisor" where
  "spawn_interface_actor sn s =
     s\<lparr>interfaces := AList.update (s_name sn) \<lparr>state_rx = sn, cmd_queue = [], actor_gone = False\<rparr> (interfaces s)\<rparr>"

definition enqueue_command :: "string \<Rightarrow> command \<Rightarrow> net_supervisor \<Rightarrow> net_supervisor" where
  "enqueue_command name cmd s =
     s\<lparr>interfaces := alter name (\<lambda>h. h\<lparr>cmd_queue := cmd_queue h @ [cmd]\<rparr>) (interfaces s)\<rparr>"

text \<open>\<open>send_to_interface\<close> ignores an actor that is unknown or gone; \<open>send_command\<close> reports it.\<close>

definition send_to_interface :: "string \<Rightarrow> command \<Rightarrow> net_supervisor \<Rightarrow> net_supervisor" where
  "send_to_interface name cmd s =
     (case map_of (interfaces s) name of
        Some h \<Rightarrow> if actor_gone h then s else enqueue_command name cmd s
      | None \<Rightarrow> s)"

definition send_command :: "string \<Rightarrow> command \<Rightarrow> net_supervisor \<Rightarrow> (iface_error + unit) \<times> net_supervisor" where
  "send_command name cmd s =
     (case map_of (interfaces s) name of
        Some h \<Rightarrow> if actor_gone h then (Err (OpsFailure name), s) else (Ok (), enqueue_command name cmd s)
      | None \<Rightarrow> (Err (OpsFailure name), s))"

section \<open>Failover\<close>

definition is_primary_interface :: "net_supervisor \<Rightarrow> string \<Rightarrow> bool" where
  "is_primary_interface s name = (n_primary (net s) = Some name)"

definition has_state :: "net_supervisor \<Rightarrow> string \<Rightarrow> lifecycle \<Rightarrow> bool" where
  "has_state s name st =
     (case map_of (interfaces s) name of None \<Rightarrow> False | Some h \<Rightarrow> s_state (state_rx h) = st)"

definition is_primary_failed :: "net_supervisor \<Rightarrow> bool" where
  "is_primary_failed s = (case n_primary (net s) of None \<Rightarrow> False | Some p \<Rightarrow> has_state s p Failed)"

definition is_interface_configured :: "net_supervisor \<Rightarrow> string \<Rightarrow> bool" where
  "is_interface_configured s name = has_state s name Configured"

definition handle_primary_recovery :: "net_supervisor \<Rightarrow> net_supervisor" where
  "handle_primary_recovery s = advance NetOperational s"

definition set_roles :: "string option \<Rightarrow> string list \<Rightarrow> net_supervisor \<Rightarrow> net_supervisor" where
  "set_roles p bs s = s\<lparr>net := (net s)\<lparr>n_primary := p, n_backups := bs\<rparr>\<rparr>"

definition handle_backup_recovery :: "string \<Rightarrow> net_supervisor \<Rightarrow> net_supervisor" where
  "handle_backup_recovery recovered s =
     (case n_primary (net s) of
        None \<Rightarrow> s
      | Some current \<Rightarrow>
          if is_interface_configured s current then s
          else advance NetOperational
                 (set_roles (Some recovered) (filter (\<lambda>n. n \<noteq> recovered) (n_backups (net s)) @ [current]) s))"

definition try_failover_to_backup :: "string \<Rightarrow> net_supervisor \<Rightarrow> net_supervisor" where
  "try_failover_to_backup failed s =
     (let backups = n_backups (net s);
          candidate = (case find (is_interface_configured s) backups of
                         Some b \<Rightarrow> Some b
                       | None \<Rightarrow> (case backups of [] \<Rightarrow> None | b # _ \<Rightarrow> Some b))
      in case candidate of
           None \<Rightarrow> s
         | Some new_primary \<Rightarrow>
             let s = set_roles (Some new_primary) (filter (\<lambda>n. n \<noteq> new_primary) backups @ [failed]) s;
                 s = (if is_interface_configured s new_primary then s
                      else send_to_interface new_primary (ConfigureDhcp Provision) s)
             in advance NetOperational s)"

definition handle_primary_failure :: "string \<Rightarrow> net_supervisor \<Rightarrow> net_supervisor" where
  "handle_primary_failure name s = try_failover_to_backup name (advance NetDegraded s)"

definition handle_primary_removed :: "net_supervisor \<Rightarrow> net_supervisor" where
  "handle_primary_removed s =
     (case n_backups (net s) of
        b # _ \<Rightarrow> set_roles (Some b) (filter (\<lambda>n. n \<noteq> b) (n_backups (net s))) s
      | [] \<Rightarrow> snd (net_transition NetDegraded (set_roles None [] s)))"

definition maybe_failover_primary :: "net_supervisor \<Rightarrow> net_supervisor" where
  "maybe_failover_primary s =
     (if \<not> is_primary_failed s then s
      else case n_primary (net s) of None \<Rightarrow> s | Some p \<Rightarrow> handle_primary_failure p s)"

section \<open>Netlink events\<close>

datatype link_event =
    EventUp string nat
  | EventDown string nat
  | EventAdded string nat bytes
  | EventDeleted string nat

definition on_link_up :: "string \<Rightarrow> net_supervisor \<Rightarrow> net_supervisor" where
  "on_link_up name s =
     (let s = send_to_interface name CmdLinkUp s in
      if is_primary_interface s name then handle_primary_recovery s
      else if name \<in> set (n_backups (net s)) then handle_backup_recovery name s
      else s)"

definition on_link_down :: "string \<Rightarrow> net_supervisor \<Rightarrow> net_supervisor" where
  "on_link_down name s =
     (let s = send_to_interface name CmdLinkDown s in
      if is_primary_interface s name then handle_primary_failure name s else s)"

text \<open>
  \<open>backups.partition_point(|existing| existing < &name)\<close>: the standard library specifies the result
  only for a list in which the predicate holds on a prefix, which the backups need not be; beyond
  that it is some position of the list.  The position is the argument \<open>pos\<close>, constrained by
  \<open>partition_point_result\<close>.
\<close>

definition partition_point_result :: "('a \<Rightarrow> bool) \<Rightarrow> 'a list \<Rightarrow> nat \<Rightarrow> bool" where
  "partition_point_result p xs pos \<longleftrightarrow>
     pos \<le> length xs \<and>
     ((\<forall>y \<in> set (dropWhile p xs). \<not> p y) \<longrightarrow> pos = length (takeWhile p xs))"

definition insert_at :: "nat \<Rightarrow> 'a \<Rightarrow> 'a list \<Rightarrow> 'a list" where
  "insert_at pos x xs = take pos xs @ x # drop pos xs"

definition fresh_snapshot :: "string \<Rightarrow> nat \<Rightarrow> bytes \<Rightarrow> link_state \<Rightarrow> snapshot" where
  "fresh_snapshot name index mac link =
     \<lparr>s_name = name, s_state = Discovered, s_index = index, s_mac = mac, s_link = link, s_ip = None,
      s_lease = None, s_dhcp_state = None, s_ipv6 = None, s_l3_owner = name\<rparr>"

definition on_link_added ::
    "net_config \<Rightarrow> sup_env \<Rightarrow> nat \<Rightarrow> string \<Rightarrow> nat \<Rightarrow> bytes \<Rightarrow> net_supervisor \<Rightarrow> net_supervisor" where
  "on_link_added cfg env pos name index mac s =
     (if map_of (interfaces s) name \<noteq> None then s
      else let s = spawn_interface_actor (fresh_snapshot name index mac LinkUp) s;
               s = (if n_primary (net s) = None then set_roles (Some name) (n_backups (net s)) s
                    else set_roles (n_primary (net s)) (insert_at pos name (n_backups (net s))) s)
           in sync_and_publish cfg env s)"

definition on_link_deleted :: "net_config \<Rightarrow> sup_env \<Rightarrow> string \<Rightarrow> net_supervisor \<Rightarrow> net_supervisor" where
  "on_link_deleted cfg env name s =
     (if map_of (interfaces s) name = None then s
      else let s = s\<lparr>interfaces := AList.delete name (interfaces s)\<rparr>;
               s = (if is_primary_interface s name then handle_primary_removed s
                    else set_roles (n_primary (net s)) (filter (\<lambda>n. n \<noteq> name) (n_backups (net s))) s)
           in sync_and_publish cfg env s)"

fun handle_link_event :: "net_config \<Rightarrow> sup_env \<Rightarrow> nat \<Rightarrow> link_event \<Rightarrow> net_supervisor \<Rightarrow> net_supervisor" where
  "handle_link_event cfg env pos (EventUp name index) s = on_link_up name s"
| "handle_link_event cfg env pos (EventDown name index) s = on_link_down name s"
| "handle_link_event cfg env pos (EventAdded name index mac) s = on_link_added cfg env pos name index mac s"
| "handle_link_event cfg env pos (EventDeleted name index) s = on_link_deleted cfg env name s"

section \<open>Discovery\<close>

definition carrier_link_state :: "bool option \<Rightarrow> link_state" where
  "carrier_link_state c = (if c = Some True then LinkUp else LinkNoCarrier)"

definition select_primary_interface :: "ethernet list \<Rightarrow> net_supervisor \<Rightarrow> (iface_error + unit) \<times> net_supervisor" where
  "select_primary_interface discovered s =
     (case select_primary discovered of
        None \<Rightarrow> (Err (OpsFailure ''select_primary_interface called with empty list''), s)
      | Some p \<Rightarrow>
          (Ok (), set_roles (Some (eth_name p))
                    (map eth_name (select_backups discovered (eth_name p))) s))"

definition invalid_state :: "network_state invalid_transition \<Rightarrow> iface_error" where
  "invalid_state e = OpsFailure ''invalid state transition''"

text \<open>The steps after the interfaces are known; every \<open>?\<close> of the source is a branch.\<close>

definition discovery_interfaces ::
    "net_config \<Rightarrow> sup_env \<Rightarrow> net_supervisor \<Rightarrow> (iface_error + unit) \<times> net_supervisor" where
  "discovery_interfaces cfg env s =
     (case net_transition NetInitializing s of
        (Inl e, s) \<Rightarrow> (Err (invalid_state e), s)
      | (Inr _, s) \<Rightarrow>
      let s = publish_state s in
      case discover_ethernet env of
        Inl e \<Rightarrow> (Err e, s)
      | Inr discovered \<Rightarrow>
      if discovered = [] then
        (case net_transition NetDegraded s of
           (Inl e, s) \<Rightarrow> (Err (invalid_state e), s)
         | (Inr _, s) \<Rightarrow> (Err (OpsFailure ''no ethernet interfaces found''), publish_state s))
      else if \<not> list_ex snd (carriers env) then
        (case net_transition NetDegraded s of
           (Inl e, s) \<Rightarrow> (Err (invalid_state e), s)
         | (Inr _, s) \<Rightarrow> (Err (OpsFailure ''no carrier detected on any interface''), publish_state s))
      else
        let discovered = map (\<lambda>i. i\<lparr>eth_link := carrier_link_state (map_of (carriers env) (eth_index i))\<rparr>) discovered;
            s = fold (\<lambda>i. spawn_interface_actor (fresh_snapshot (eth_name i) (eth_index i) (eth_mac i) (eth_link i)))
                  discovered s
        in case select_primary_interface discovered s of
             (Inl e, s) \<Rightarrow> (Err e, s)
           | (Inr _, s) \<Rightarrow>
               (case net_transition NetOperational s of
                  (Inl e, s) \<Rightarrow> (Err (invalid_state e), s)
                | (Inr _, s) \<Rightarrow> (Ok (), sync_and_publish cfg env s)))"

section \<open>Provisioning\<close>

definition get_primary_name :: "net_supervisor \<Rightarrow> iface_error + string" where
  "get_primary_name s = ok_or (n_primary (net s)) (OpsFailure ''no primary interface'')"

definition resolve_name :: "net_supervisor \<Rightarrow> string \<Rightarrow> iface_error + string" where
  "resolve_name s name =
     and_then (get_primary_name s) (\<lambda>primary.
       if name = ''auto'' then Ok primary else ok_or (name_new name) (InvalidName name))"

definition resolve_bridge_port :: "string list \<Rightarrow> string \<Rightarrow> string" where
  "resolve_bridge_port ports primary =
     (case ports of [] \<Rightarrow> primary | port # _ \<Rightarrow> if port = ''auto'' then primary else port)"

definition bridge_port_handle :: "net_supervisor \<Rightarrow> bridge_config \<Rightarrow> iface_error + string \<times> iface_handle" where
  "bridge_port_handle s cfg =
     and_then (get_primary_name s) (\<lambda>primary.
     let port = resolve_bridge_port (br_port cfg) primary in
     and_then (ok_or (name_new port) (InvalidName port)) (\<lambda>name.
     and_then (ok_or (map_of (interfaces s) name) (OpsFailure port)) (\<lambda>h. Ok (name, h))))"

text \<open>
  \<open>wait_for_configured\<close>: the published snapshots of the port, the present one first.  The wait ends
  at the first configured one; when there is none it does not end, since the actor stays alive.
\<close>

fun wait_for_configured :: "snapshot list \<Rightarrow> unit option" where
  "wait_for_configured [] = None"
| "wait_for_configured (s # later) = (if s_state s = Configured then Some () else wait_for_configured later)"

definition provision_bridge ::
    "sup_env \<Rightarrow> string \<Rightarrow> bridge_config \<Rightarrow> net_supervisor \<Rightarrow> ((iface_error + unit) \<times> net_supervisor) option" where
  "provision_bridge env bridge cfg s =
     (case bridge_port_handle s cfg of
        Inl e \<Rightarrow> Some (Err e, s)
      | Inr (port, h) \<Rightarrow>
          (case wait_for_configured (state_rx h # port_states env port) of
             None \<Rightarrow> None
           | Some _ \<Rightarrow>
               (case send_command port (ConfigureBridge bridge (br_stp cfg)) s of
                  (Inl e, s) \<Rightarrow> Some (Err e, s)
                | (Inr _, s) \<Rightarrow>
                    (case bridge_reply env bridge of
                       Inl e \<Rightarrow> Some (Err e, s)
                     | Inr sn \<Rightarrow> Some (Ok (), spawn_interface_actor sn s)))))"

definition provision_ipv6 ::
    "net_config \<Rightarrow> string \<Rightarrow> nat \<Rightarrow> ipv6_iface_config \<Rightarrow> apply_mode \<Rightarrow> net_supervisor \<Rightarrow> (iface_error + unit) \<times> net_supervisor" where
  "provision_ipv6 cfg name index i6 mode s =
     (if i6_addresses i6 \<noteq> [] then
        send_command name (ConfigureStaticIpv6 mode index (i6_addresses i6) (i6_gateway i6)) s
      else if i6_autoconf i6 \<and> cfg_ipv6 cfg then send_command name (ConfigureSlaac mode) s
      else (Ok (), s))"

definition provision_ipv4 ::
    "string \<Rightarrow> nat \<Rightarrow> ipv4_iface_config \<Rightarrow> apply_mode \<Rightarrow> net_supervisor \<Rightarrow> (iface_error + unit) \<times> net_supervisor" where
  "provision_ipv4 name index i4 mode s =
     (if i4_dhcp i4 then send_command name (ConfigureDhcp mode) s
      else if i4_addresses i4 \<noteq> [] then
        send_command name (ConfigureStaticIpv4 mode index (i4_addresses i4) (i4_gateway i4)) s
      else (Ok (), s))"

text \<open>IPv4 first, then IPv6; an error of the first skips the second.\<close>

definition configure_families ::
    "net_config \<Rightarrow> iface_config \<Rightarrow> string \<Rightarrow> nat \<Rightarrow> apply_mode \<Rightarrow> net_supervisor \<Rightarrow> (iface_error + unit) \<times> net_supervisor" where
  "configure_families cfg ic name index mode s =
     (case (case if_ipv4 ic of None \<Rightarrow> (Ok (), s) | Some i4 \<Rightarrow> provision_ipv4 name index i4 mode s) of
        (Inl e, s) \<Rightarrow> (Err e, s)
      | (Inr _, s) \<Rightarrow>
          (case if_ipv6 ic of None \<Rightarrow> (Ok (), s) | Some i6 \<Rightarrow> provision_ipv6 cfg name index i6 mode s))"

definition provision_ethernet ::
    "net_config \<Rightarrow> sup_env \<Rightarrow> iface_config \<Rightarrow> net_supervisor \<Rightarrow> (iface_error + unit) \<times> net_supervisor" where
  "provision_ethernet cfg env ic s =
     (case resolve_name s (if_name ic) of
        Inl e \<Rightarrow> (Err e, s)
      | Inr name \<Rightarrow>
          if map_of (interfaces s) name = None then (Err (OpsFailure name), s)
          else case ensure_up env name of
            Inl e \<Rightarrow> (Err e, s)
          | Inr index \<Rightarrow> configure_families cfg ic name index Provision s)"

definition default_bridge :: "bridge_config option \<Rightarrow> bridge_config" where
  "default_bridge b = (case b of Some c \<Rightarrow> c | None \<Rightarrow> \<lparr>br_port = [], br_stp = False\<rparr>)"

text \<open>The loop over the configured interfaces; an error of one is only logged.\<close>

fun provision_all :: "net_config \<Rightarrow> sup_env \<Rightarrow> iface_config list \<Rightarrow> net_supervisor \<Rightarrow> net_supervisor option" where
  "provision_all cfg env [] s = Some s"
| "provision_all cfg env (ic # ics) s =
     (case if_kind ic of
        BridgeKind \<Rightarrow>
          (case provision_bridge env (if_name ic) (default_bridge (if_bridge ic)) s of
             None \<Rightarrow> None
           | Some (_, s) \<Rightarrow> provision_all cfg env ics s)
      | EthernetKind \<Rightarrow> provision_all cfg env ics (snd (provision_ethernet cfg env ic s)))"

section \<open>Initialization\<close>

definition sup_reset :: "net_supervisor \<Rightarrow> net_supervisor" where
  "sup_reset s = s\<lparr>interfaces := [], net := network_empty\<rparr>"

definition initialize :: "net_config \<Rightarrow> sup_env \<Rightarrow> net_supervisor \<Rightarrow> ((iface_error + unit) \<times> net_supervisor) option" where
  "initialize cfg env s =
     (case discovery_interfaces cfg env (sup_reset s) of
        (Inl e, s) \<Rightarrow> Some (Err e, s)
      | (Inr _, s) \<Rightarrow>
          (case provision_all cfg env (cfg_interfaces cfg) s of
             None \<Rightarrow> None
           | Some s \<Rightarrow>
               (case net_transition NetReady s of
                  (Inl e, s) \<Rightarrow> Some (Err (invalid_state e), s)
                | (Inr _, s) \<Rightarrow> Some (Ok (), publish_state s))))"

section \<open>Reconciliation\<close>

definition is_bridge_owned :: "iface_handle \<Rightarrow> bool" where
  "is_bridge_owned h = (s_l3_owner (state_rx h) \<noteq> s_name (state_rx h))"

definition reconcile_ethernet ::
    "net_config \<Rightarrow> sup_env \<Rightarrow> iface_config \<Rightarrow> net_supervisor \<Rightarrow> (iface_error + unit) \<times> net_supervisor" where
  "reconcile_ethernet cfg env ic s =
     (case resolve_name s (if_name ic) of
        Inl e \<Rightarrow> (Err e, s)
      | Inr name \<Rightarrow>
          (case map_of (interfaces s) name of
             None \<Rightarrow> (Ok (), s)
           | Some h \<Rightarrow>
               if is_bridge_owned h then (Ok (), s)
               else case ensure_up env name of
                 Inl e \<Rightarrow> (Err e, s)
               | Inr index \<Rightarrow> configure_families cfg ic name index Reconcile s))"

definition bridge_snapshot ::
    "sup_env \<Rightarrow> string \<Rightarrow> bridge_config \<Rightarrow> net_supervisor \<Rightarrow> iface_error + snapshot" where
  "bridge_snapshot env bridge cfg s =
     and_then (ok_or (map_of (interfaces s) bridge) (OpsFailure bridge)) (\<lambda>h.
     let b = state_rx h in
     and_then (bridge_port_handle s cfg) (\<lambda>(port, _).
     and_then (bridge_ok env (MakeBridge bridge port (Option.bind (s_ip b) c4_gateway) (br_stp cfg))) (\<lambda>_.
     and_then (index_of env bridge) (\<lambda>index.
       Ok \<lparr>s_name = bridge, s_state = Configured, s_index = index, s_mac = s_mac b, s_link = LinkUp,
           s_ip = s_ip b, s_lease = s_lease b, s_dhcp_state = s_dhcp_state b, s_ipv6 = s_ipv6 b,
           s_l3_owner = bridge\<rparr>))))"

definition ready_bridge_port :: "net_supervisor \<Rightarrow> bridge_config \<Rightarrow> string option" where
  "ready_bridge_port s cfg =
     (case bridge_port_handle s cfg of
        Inl _ \<Rightarrow> None
      | Inr (port, h) \<Rightarrow>
          if s_state (state_rx h) = Configured \<and> s_lease (state_rx h) \<noteq> None then Some port else None)"

text \<open>\<open>respawn_actor\<close>: the old actor is told to stop and its handle replaced.\<close>

definition respawn_actor :: "snapshot \<Rightarrow> net_supervisor \<Rightarrow> net_supervisor" where
  "respawn_actor sn s = spawn_interface_actor sn (s\<lparr>interfaces := AList.delete (s_name sn) (interfaces s)\<rparr>)"

definition reconcile_bridge ::
    "sup_env \<Rightarrow> iface_config \<Rightarrow> net_supervisor \<Rightarrow> ((iface_error + unit) \<times> net_supervisor) option" where
  "reconcile_bridge env ic s =
     (case name_new (if_name ic) of
        None \<Rightarrow> Some (Err (InvalidName (if_name ic)), s)
      | Some bridge \<Rightarrow>
          let cfg = default_bridge (if_bridge ic) in
          if has_state s bridge Configured then Some (Ok (), s)
          else if map_of (interfaces s) bridge \<noteq> None then
            (case bridge_snapshot env bridge cfg s of
               Inl e \<Rightarrow> Some (Err e, s)
             | Inr sn \<Rightarrow> Some (Ok (), respawn_actor sn s))
          else if ready_bridge_port s cfg = None then Some (Ok (), s)
          else provision_bridge env bridge cfg s)"

fun reconcile_all :: "net_config \<Rightarrow> sup_env \<Rightarrow> iface_config list \<Rightarrow> net_supervisor \<Rightarrow> net_supervisor option" where
  "reconcile_all cfg env [] s = Some s"
| "reconcile_all cfg env (ic # ics) s =
     (case if_kind ic of
        BridgeKind \<Rightarrow>
          (case reconcile_bridge env ic s of
             None \<Rightarrow> None
           | Some (_, s) \<Rightarrow> reconcile_all cfg env ics s)
      | EthernetKind \<Rightarrow> reconcile_all cfg env ics (snd (reconcile_ethernet cfg env ic s)))"

definition reconcile_run :: "net_config \<Rightarrow> sup_env \<Rightarrow> net_supervisor \<Rightarrow> net_supervisor option" where
  "reconcile_run cfg env s =
     (if n_state (net s) \<noteq> NetOperational \<and> n_state (net s) \<noteq> NetReady then Some s
      else map_option (sync_and_publish cfg env) (reconcile_all cfg env (cfg_interfaces cfg) s))"

section \<open>The loop\<close>

datatype supervisor_event =
    SupInitialize
  | SupReconcile
  | SupNetlink link_event
  | SupPrimaryChanged

text \<open>
  One turn of \<open>supervisor_loop\<close>; the reconcile command and the tick run the same pass.  The position
  for a new backup is the answer of \<open>partition_point\<close>.
\<close>

definition sup_handle ::
    "net_config \<Rightarrow> sup_env \<Rightarrow> nat \<Rightarrow> supervisor_event \<Rightarrow> net_supervisor \<Rightarrow> net_supervisor option" where
  "sup_handle cfg env pos ev s =
     (case ev of
        SupInitialize \<Rightarrow> map_option snd (initialize cfg env s)
      | SupReconcile \<Rightarrow> reconcile_run cfg env s
      | SupNetlink e \<Rightarrow> Some (handle_link_event cfg env pos e s)
      | SupPrimaryChanged \<Rightarrow> Some (flush_dns cfg env (maybe_failover_primary s)))"

definition sup_new :: net_supervisor where
  "sup_new = \<lparr>net = network_empty, interfaces = [], net_published = network_empty,
              dns = \<lparr>r_v4 = [], r_v6 = [], resolv_conf = None\<rparr>\<rparr>"

text \<open>
  Between the turns the actors run: they take commands, publish new snapshots of the same
  interface, and may stop.
\<close>

definition actors_progress :: "net_supervisor \<Rightarrow> net_supervisor \<Rightarrow> bool" where
  "actors_progress s s' \<longleftrightarrow>
     s' = s\<lparr>interfaces := interfaces s'\<rparr> \<and> keys_of (interfaces s') = keys_of (interfaces s) \<and>
     (\<forall>name h'. map_of (interfaces s') name = Some h' \<longrightarrow>
        (\<exists>h. map_of (interfaces s) name = Some h \<and> s_name (state_rx h') = s_name (state_rx h)))"

definition distinct_names :: "iface_error + ethernet list \<Rightarrow> bool" where
  "distinct_names d = (case d of Inl _ \<Rightarrow> True | Inr is \<Rightarrow> distinct (map eth_name is))"

inductive sup_reach :: "net_config \<Rightarrow> net_supervisor \<Rightarrow> bool" for cfg where
  start: "sup_reach cfg sup_new"
| turn: "sup_reach cfg s \<Longrightarrow> distinct_names (discover_ethernet env)
    \<Longrightarrow> (\<And>name index mac. ev = SupNetlink (EventAdded name index mac) \<Longrightarrow>
           partition_point_result (\<lambda>b. b < name) (n_backups (net s)) pos)
    \<Longrightarrow> (\<And>b sn. bridge_reply env b = Ok sn \<Longrightarrow> s_name sn = b)
    \<Longrightarrow> sup_handle cfg env pos ev s = Some s' \<Longrightarrow> sup_reach cfg s'"
| actors: "sup_reach cfg s \<Longrightarrow> actors_progress s s' \<Longrightarrow> sup_reach cfg s'"

end
