(* ===== verification/Net_Supervisor_Safety.thy ===== *)
theory Net_Supervisor_Safety
  imports Net_Supervisor "HOL-Library.Multiset"
begin

text \<open>
  Lemmas on the network supervisor: the order in which interfaces are selected, and the invariant
  on the roles of the interfaces, which every event of the loop keeps.
\<close>

section \<open>Selection\<close>

definition iface_key :: "ethernet \<Rightarrow> nat \<times> int" where
  "iface_key i = (score_interface i, - int (eth_index i))"

lemma compare_interfaces_key: "compare_interfaces l r = cmp (iface_key l) (iface_key r)"
  by (auto simp: compare_interfaces_def iface_key_def cmp_def)

lemma fold_max_by:
  fixes k :: "'a \<Rightarrow> 'b :: linorder"
  defines "pick \<equiv> \<lambda>y best. if cmp (k best) (k y) = Greater then best else y"
  shows "fold pick xs x \<in> insert x (set xs) \<and> (\<forall>y \<in> insert x (set xs). k y \<le> k (fold pick xs x))"
proof (induction xs arbitrary: x)
  case (Cons y xs)
  have pick: "pick y x \<in> {x, y}" "k x \<le> k (pick y x)" "k y \<le> k (pick y x)"
    by (auto simp: pick_def cmp_Greater)
  then show ?case using Cons [of "pick y x"] by (auto intro: order_trans)
qed simp

lemma select_primary_max:
  assumes "select_primary is = Some p"
  shows "p \<in> set is \<and> (\<forall>i \<in> set is. iface_key i \<le> iface_key p)"
proof -
  obtain x xs where "is": "is = x # xs" using assms by (cases "is") (simp_all add: select_primary_def)
  have "p = fold (\<lambda>y best. if cmp (iface_key best) (iface_key y) = Greater then best else y) xs x"
    using assms "is" by (simp add: select_primary_def compare_interfaces_key)
  then show ?thesis using fold_max_by [of iface_key xs x] "is" by simp
qed

definition descending :: "ethernet list \<Rightarrow> bool" where
  "descending is = sorted_wrt (\<lambda>a b. iface_key b \<le> iface_key a) is"

lemma descending_insert_by:
  "descending xs \<Longrightarrow> descending (insert_by (\<lambda>l r. compare_interfaces r l) x xs)"
proof (induction xs)
  case (Cons y ys)
  have set: "set (insert_by (\<lambda>l r. compare_interfaces r l) x ys) = insert x (set ys)"
    by (metis mset_insert_by set_mset_add_mset_insert set_mset_mset)
  show ?case
  proof (cases "compare_interfaces y x = Greater")
    case True
    then have "iface_key x < iface_key y" by (simp add: compare_interfaces_key cmp_Greater)
    then show ?thesis using True Cons by (auto simp: descending_def set)
  next
    case False
    then have "iface_key y \<le> iface_key x" by (simp add: compare_interfaces_key cmp_Greater not_less)
    then show ?thesis using False Cons.prems by (auto simp: descending_def intro: order_trans)
  qed
qed (simp add: descending_def)

lemma descending_select_backups: "descending (select_backups is p)"
proof -
  have "descending (sort_by (\<lambda>l r. compare_interfaces r l) xs)" for xs
    by (induction xs) (simp_all add: sort_by_def descending_insert_by, simp add: descending_def)
  then show ?thesis by (simp add: select_backups_def)
qed

lemma set_select_backups: "set (select_backups is p) = {i \<in> set is. eth_name i \<noteq> p}"
  by (simp add: select_backups_def)

lemma distinct_select_backups: "distinct (map eth_name is) \<Longrightarrow> distinct (map eth_name (select_backups is p))"
proof -
  assume d: "distinct (map eth_name is)"
  have "mset (map eth_name (select_backups is p)) = mset (map eth_name (filter (\<lambda>i. eth_name i \<noteq> p) is))"
    by (simp add: select_backups_def mset_sort_by)
  moreover have "distinct (map eth_name (filter (\<lambda>i. eth_name i \<noteq> p) is))"
    using d by (rule distinct_map_filter)
  ultimately show ?thesis by (metis mset_eq_imp_distinct_iff)
qed

text \<open>A link with a carrier outranks every link without one.\<close>

lemma score_naming_bounds: "50 \<le> score_naming n" "score_naming n \<le> 500"
  by (simp_all add: score_naming_def)

lemma score_carrier:
  "has_carrier i \<Longrightarrow> 3050 \<le> score_interface i" "\<not> has_carrier i \<Longrightarrow> score_interface i \<le> 1500"
  using score_naming_bounds [of "eth_name i"]
  by (simp_all add: score_interface_def has_carrier_def saturating_add_def u32_max_def)

lemma iface_key_score: "iface_key a \<le> iface_key b \<Longrightarrow> score_interface a \<le> score_interface b"
  by (auto simp: iface_key_def)

section \<open>Roles\<close>

definition roles :: "net_supervisor \<Rightarrow> string list" where
  "roles s = (case n_primary (net s) of None \<Rightarrow> [] | Some p \<Rightarrow> [p]) @ n_backups (net s)"

definition net_inv :: "net_supervisor \<Rightarrow> bool" where
  "net_inv s \<longleftrightarrow>
     distinct (keys_of (interfaces s)) \<and> distinct (roles s) \<and> set (roles s) \<subseteq> set (keys_of (interfaces s)) \<and>
     (n_primary (net s) = None \<longrightarrow> n_backups (net s) = []) \<and>
     (n_state (net s) \<in> {NetOperational, NetReady} \<longrightarrow> n_primary (net s) \<noteq> None) \<and>
     (\<forall>name h. map_of (interfaces s) name = Some h \<longrightarrow> s_name (state_rx h) = name)"

text \<open>The operations that leave the roles and the interfaces alone.\<close>

definition same_shape :: "net_supervisor \<Rightarrow> net_supervisor \<Rightarrow> bool" where
  "same_shape s t \<longleftrightarrow> n_primary (net t) = n_primary (net s) \<and> n_backups (net t) = n_backups (net s) \<and>
     keys_of (interfaces t) = keys_of (interfaces s) \<and>
     (\<forall>name. map_option (s_name \<circ> state_rx) (map_of (interfaces t) name)
           = map_option (s_name \<circ> state_rx) (map_of (interfaces s) name))"

lemma same_shape_refl [simp]: "same_shape s s"
  by (simp add: same_shape_def)

lemma same_shape_trans: "same_shape s t \<Longrightarrow> same_shape t u \<Longrightarrow> same_shape s u"
  by (simp add: same_shape_def)

lemma same_shape_inv:
  assumes "same_shape s t" "net_inv s"
    and "n_state (net t) \<in> {NetOperational, NetReady} \<Longrightarrow> n_state (net s) \<notin> {NetOperational, NetReady} \<Longrightarrow>
         n_primary (net s) \<noteq> None"
  shows "net_inv t"
proof -
  have "s_name (state_rx h) = name" if "map_of (interfaces t) name = Some h" for name h
  proof -
    have "map_option (s_name \<circ> state_rx) (map_of (interfaces s) name) = Some (s_name (state_rx h))"
      using assms(1) that unfolding same_shape_def by (metis comp_apply option.map(2))
    then obtain h0 where "map_of (interfaces s) name = Some h0" "s_name (state_rx h0) = s_name (state_rx h)" by auto
    then show ?thesis using assms(2) by (auto simp: net_inv_def)
  qed
  then show ?thesis using assms by (auto simp: same_shape_def net_inv_def roles_def)
qed

lemma same_shape_inv_state:
  "same_shape s t \<Longrightarrow> net_inv s \<Longrightarrow> n_state (net t) = n_state (net s) \<Longrightarrow> net_inv t"
  using same_shape_inv by metis

lemma advance_shape [simp]: "same_shape s (advance to s)"
  by (simp add: same_shape_def advance_def net_transition_def publish_state_def split: prod.split sum.split)

lemma advance_state: "n_state (net (advance to s)) =
    (if to \<in> set (network_next_states (n_state (net s))) then to else n_state (net s))"
  by (simp add: advance_def net_transition_def publish_state_def transition_def)

lemma advance_interfaces [simp]: "interfaces (advance to s) = interfaces s"
  by (simp add: advance_def net_transition_def publish_state_def split: prod.split sum.split)

lemma flush_dns_frame [simp]: "net (flush_dns cfg env s) = net s" "interfaces (flush_dns cfg env s) = interfaces s"
  by (simp_all add: flush_dns_def split: option.split prod.split)

lemma sync_frame: "same_shape s (sync_and_publish cfg env s)"
    "n_state (net (sync_and_publish cfg env s)) = n_state (net s)"
  by (simp_all add: same_shape_def sync_and_publish_def publish_state_def)

lemma sync_inv: "net_inv s \<Longrightarrow> net_inv (sync_and_publish cfg env s)"
  using same_shape_inv_state sync_frame by blast

lemma map_of_enqueue: "map_option (s_name \<circ> state_rx) (map_of (interfaces (enqueue_command n c s)) name)
    = map_option (s_name \<circ> state_rx) (map_of (interfaces s) name)"
  by (simp add: enqueue_command_def map_of_alter option.map_comp comp_def)

lemma enqueue_frame: "same_shape s (enqueue_command n c s)" "net (enqueue_command n c s) = net s"
  using map_of_enqueue by (auto simp: same_shape_def) (simp_all add: enqueue_command_def)

lemma send_to_interface_frame: "same_shape s (send_to_interface n c s)" "net (send_to_interface n c s) = net s"
  using enqueue_frame by (auto simp: send_to_interface_def split: option.split)

lemma send_command_frame: "same_shape s (snd (send_command n c s))" "net (snd (send_command n c s)) = net s"
  using enqueue_frame by (auto simp: send_command_def split: option.split)

lemma send_to_interface_inv: "net_inv s \<Longrightarrow> net_inv (send_to_interface n c s)"
  using same_shape_inv_state send_to_interface_frame by metis

lemma send_command_inv: "net_inv s \<Longrightarrow> net_inv (snd (send_command n c s))"
  using same_shape_inv_state send_command_frame by metis

lemma advance_inv: "net_inv s \<Longrightarrow> n_primary (net s) \<noteq> None \<Longrightarrow> net_inv (advance to s)"
  using same_shape_inv [OF advance_shape] by blast

lemma advance_degraded_inv: "net_inv s \<Longrightarrow> net_inv (advance NetDegraded s)"
  by (rule same_shape_inv [OF advance_shape]) (simp_all add: advance_state split: if_splits)

lemma set_roles_simps [simp]:
  "interfaces (set_roles p bs s) = interfaces s" "n_primary (net (set_roles p bs s)) = p"
  "n_backups (net (set_roles p bs s)) = bs" "n_state (net (set_roles p bs s)) = n_state (net s)"
  by (simp_all add: set_roles_def)

text \<open>Reassigning the roles among themselves.\<close>

lemma set_roles_inv:
  assumes "net_inv s" "distinct (p # bs)" "set (p # bs) \<subseteq> set (keys_of (interfaces s))"
  shows "net_inv (set_roles (Some p) bs s)"
  using assms by (simp add: net_inv_def roles_def)

lemma swap_roles_inv:
  assumes inv: "net_inv s" and p: "n_primary (net s) = Some p" and b: "b \<in> set (n_backups (net s))"
  shows "net_inv (set_roles (Some b) (filter (\<lambda>n. n \<noteq> b) (n_backups (net s)) @ [p]) s)"
  using inv p b by (intro set_roles_inv) (auto simp: net_inv_def roles_def)

section \<open>Failover\<close>

definition failover_candidate :: "net_supervisor \<Rightarrow> string option" where
  "failover_candidate s =
     (case find (is_interface_configured s) (n_backups (net s)) of
        Some b \<Rightarrow> Some b
      | None \<Rightarrow> (case n_backups (net s) of [] \<Rightarrow> None | b # _ \<Rightarrow> Some b))"

lemma failover_candidate_mem: "failover_candidate s = Some b \<Longrightarrow> b \<in> set (n_backups (net s))"
  by (auto simp: failover_candidate_def find_Some_iff split: option.splits list.splits)

lemma failover_candidate_None: "failover_candidate s = None \<longleftrightarrow> n_backups (net s) = []"
  by (auto simp: failover_candidate_def split: option.splits list.splits)

lemma has_state_cong: "interfaces t = interfaces s \<Longrightarrow> has_state t = has_state s"
  by (simp add: fun_eq_iff has_state_def)

lemma try_failover_eq:
  "try_failover_to_backup failed s =
     (case failover_candidate s of
        None \<Rightarrow> s
      | Some b \<Rightarrow>
          let t = set_roles (Some b) (filter (\<lambda>n. n \<noteq> b) (n_backups (net s)) @ [failed]) s
          in advance NetOperational
               (if is_interface_configured s b then t else send_to_interface b (ConfigureDhcp Provision) t))"
proof -
  have "is_interface_configured (set_roles p bs s) = is_interface_configured s" for p bs
    by (simp add: fun_eq_iff is_interface_configured_def has_state_def)
  then show ?thesis by (simp add: try_failover_to_backup_def failover_candidate_def Let_def split: option.split)
qed

lemma try_failover_inv:
  assumes inv: "net_inv s" and p: "n_primary (net s) = Some p"
  shows "net_inv (try_failover_to_backup p s)"
proof (cases "failover_candidate s")
  case None
  then show ?thesis using inv by (simp add: try_failover_eq)
next
  case (Some b)
  let ?t = "set_roles (Some b) (filter (\<lambda>n. n \<noteq> b) (n_backups (net s)) @ [p]) s"
  have t: "net_inv ?t" using swap_roles_inv [OF inv p failover_candidate_mem [OF Some]] .
  have "net_inv (send_to_interface b (ConfigureDhcp Provision) ?t)" using send_to_interface_inv [OF t] .
  moreover have "n_primary (net (send_to_interface b (ConfigureDhcp Provision) ?t)) = Some b"
    by (simp add: send_to_interface_frame)
  ultimately show ?thesis using Some t by (simp add: try_failover_eq Let_def advance_inv)
qed

lemma handle_primary_failure_inv:
  "net_inv s \<Longrightarrow> n_primary (net s) = Some p \<Longrightarrow> net_inv (handle_primary_failure p s)"
  unfolding handle_primary_failure_def
  using advance_degraded_inv [of s] advance_shape [of s NetDegraded]
  by (intro try_failover_inv) (simp_all add: same_shape_def)

lemma maybe_failover_inv: "net_inv s \<Longrightarrow> net_inv (maybe_failover_primary s)"
  by (auto simp: maybe_failover_primary_def handle_primary_failure_inv split: option.split)

lemma on_link_up_inv: "net_inv s \<Longrightarrow> net_inv (on_link_up name s)"
proof -
  assume inv: "net_inv s"
  let ?t = "send_to_interface name CmdLinkUp s"
  have t: "net_inv ?t" using send_to_interface_inv [OF inv] .
  have "net_inv (handle_backup_recovery name ?t)" if "name \<in> set (n_backups (net ?t))"
    using t that swap_roles_inv [OF t]
    by (auto simp: handle_backup_recovery_def advance_inv split: option.split)
  then show ?thesis
    using t by (auto simp: on_link_up_def Let_def handle_primary_recovery_def is_primary_interface_def advance_inv)
qed

lemma on_link_down_inv: "net_inv s \<Longrightarrow> net_inv (on_link_down name s)"
  using send_to_interface_inv handle_primary_failure_inv
  by (simp add: on_link_down_def Let_def is_primary_interface_def)

section \<open>Interfaces come and go\<close>

lemma spawn_keys: "set (keys_of (interfaces (spawn_interface_actor sn s))) = insert (s_name sn) (set (keys_of (interfaces s)))"
  by (simp add: spawn_interface_actor_def keys_of_def dom_update)

lemma spawn_inv: "net_inv s \<Longrightarrow> net_inv (spawn_interface_actor sn s)"
  using spawn_keys [of sn s]
  by (auto simp: net_inv_def roles_def spawn_interface_actor_def update_conv' keys_of_def distinct_update
      split: if_splits)

lemma spawn_net [simp]: "net (spawn_interface_actor sn s) = net s"
  by (simp add: spawn_interface_actor_def)

lemma set_insert_at: "set (insert_at pos x xs) = insert x (set xs)"
proof -
  have "set xs = set (take pos xs) \<union> set (drop pos xs)" by (metis append_take_drop_id set_append)
  then show ?thesis by (auto simp: insert_at_def)
qed

lemma distinct_insert_at: "distinct (insert_at pos x xs) \<longleftrightarrow> x \<notin> set xs \<and> distinct xs"
proof -
  have "mset (insert_at pos x xs) = mset (x # xs)"
    by (simp add: insert_at_def) (metis append_take_drop_id mset_append)
  then show ?thesis by (metis distinct.simps(2) mset_eq_imp_distinct_iff)
qed

lemma on_link_added_inv:
  assumes inv: "net_inv s"
  shows "net_inv (on_link_added cfg env pos name index mac s)"
proof (cases "map_of (interfaces s) name = None")
  case True
  let ?t = "spawn_interface_actor (fresh_snapshot name index mac LinkUp) s"
  have t: "net_inv ?t" using spawn_inv [OF inv] .
  have fresh: "name \<notin> set (roles s)" using True inv by (auto simp: net_inv_def map_of_None_keys)
  have keys: "set (keys_of (interfaces ?t)) = insert name (set (keys_of (interfaces s)))"
    using spawn_keys [of "fresh_snapshot name index mac LinkUp" s] by (simp add: fresh_snapshot_def)
  have "net_inv (if n_primary (net ?t) = None then set_roles (Some name) (n_backups (net ?t)) ?t
      else set_roles (n_primary (net ?t)) (insert_at pos name (n_backups (net ?t))) ?t)"
  proof (cases "n_primary (net s)")
    case None
    then show ?thesis
      using t keys inv by (simp, intro set_roles_inv) (auto simp: net_inv_def)
  next
    case (Some p)
    then show ?thesis
      using t keys inv fresh
      by (simp, intro set_roles_inv) (auto simp: net_inv_def roles_def set_insert_at distinct_insert_at)
  qed
  then show ?thesis using True by (simp add: on_link_added_def Let_def sync_inv)
qed (use inv in \<open>simp add: on_link_added_def\<close>)

lemma keys_of_delete: "keys_of (AList.delete k m) = filter (\<lambda>n. n \<noteq> k) (keys_of m)"
  by (induction m) (auto simp: keys_of_def AList.delete_eq)

lemma on_link_deleted_inv:
  assumes inv: "net_inv s"
  shows "net_inv (on_link_deleted cfg env name s)"
proof (cases "map_of (interfaces s) name = None")
  case False
  let ?t = "s\<lparr>interfaces := AList.delete name (interfaces s)\<rparr>"
  have names: "\<And>n h. map_of (AList.delete name (interfaces s)) n = Some h \<Longrightarrow> s_name (state_rx h) = n"
    using inv by (auto simp: net_inv_def delete_conv' split: if_splits)
  have "net_inv (handle_primary_removed ?t)" if p: "n_primary (net s) = Some name"
  proof (cases "n_backups (net s)")
    case Nil
    then show ?thesis
      using inv p names
      by (auto simp: handle_primary_removed_def net_inv_def roles_def keys_of_delete net_transition_def
          transition_def set_roles_def split: if_splits network_state.splits)
  next
    case (Cons b bs)
    then have f: "filter (\<lambda>n. n \<noteq> b) bs = bs"
      using inv p by (auto simp: net_inv_def roles_def intro: filter_True)
    show ?thesis
      using inv p names Cons f
      by (auto simp: handle_primary_removed_def net_inv_def roles_def keys_of_delete)
  qed
  moreover have "net_inv (set_roles (n_primary (net s)) (filter (\<lambda>n. n \<noteq> name) (n_backups (net s))) ?t)"
    if "n_primary (net s) \<noteq> Some name"
    using inv names that by (auto simp: net_inv_def roles_def keys_of_delete split: option.splits)
  ultimately show ?thesis
    using False by (auto simp: on_link_deleted_def Let_def is_primary_interface_def intro!: sync_inv)
qed (use inv in \<open>simp add: on_link_deleted_def\<close>)

lemma handle_link_event_inv: "net_inv s \<Longrightarrow> net_inv (handle_link_event cfg env pos e s)"
  by (cases e) (simp_all add: on_link_up_inv on_link_down_inv on_link_added_inv on_link_deleted_inv)

section \<open>Initialization and reconciliation\<close>

text \<open>Operations that keep the invariant and the published roles and state of the network.\<close>

definition keeps :: "net_supervisor \<Rightarrow> net_supervisor \<Rightarrow> bool" where
  "keeps s t \<longleftrightarrow> net t = net s \<and> (net_inv s \<longrightarrow> net_inv t)"

lemma keeps_refl [simp]: "keeps s s"
  by (simp add: keeps_def)

lemma keeps_trans: "keeps s t \<Longrightarrow> keeps t u \<Longrightarrow> keeps s u"
  by (simp add: keeps_def)

lemma keeps_send_command: "keeps s (snd (send_command n c s))"
  by (simp add: keeps_def send_command_frame send_command_inv)

lemma keeps_spawn: "keeps s (spawn_interface_actor sn s)"
  by (simp add: keeps_def spawn_inv)

lemma keeps_respawn:
  assumes "s_name sn \<in> set (keys_of (interfaces s))"
  shows "keeps s (respawn_actor sn s)"
proof -
  have "set (keys_of (interfaces (respawn_actor sn s))) = set (keys_of (interfaces s))"
    using assms spawn_keys [of sn "s\<lparr>interfaces := AList.delete (s_name sn) (interfaces s)\<rparr>"]
    by (auto simp: respawn_actor_def keys_of_delete)
  then show ?thesis
    by (auto simp: keeps_def net_inv_def roles_def respawn_actor_def spawn_interface_actor_def update_conv'
        delete_conv' keys_of_def distinct_update delete_keys distinct_removeAll split: if_splits)
qed

lemma keeps_provision_bridge: "provision_bridge env b cfg s = Some (r, t) \<Longrightarrow> keeps s t"
proof -
  assume a: "provision_bridge env b cfg s = Some (r, t)"
  consider "t = s" | port c where "t = snd (send_command port c s)"
    | port c sn where "t = spawn_interface_actor sn (snd (send_command port c s))"
    using a by (auto simp: provision_bridge_def split: sum.splits prod.splits option.splits) (metis snd_conv)+
  then show ?thesis
    by cases (simp_all add: keeps_send_command keeps_trans [OF keeps_send_command keeps_spawn])
qed

lemma keeps_configure_families: "keeps s (snd (configure_families cfg ic name index mode s))"
proof -
  define fst_result where
    "fst_result = (case if_ipv4 ic of None \<Rightarrow> (Ok (), s) | Some i4 \<Rightarrow> provision_ipv4 name index i4 mode s)"
  have one: "keeps s (snd fst_result)"
    using keeps_send_command by (simp add: fst_result_def provision_ipv4_def split: option.split)
  have two: "keeps t (snd (provision_ipv6 cfg name index i6 mode t))" for t i6
    using keeps_send_command by (simp add: provision_ipv6_def)
  obtain r t where f: "fst_result = (r, t)" by (cases fst_result)
  have "configure_families cfg ic name index mode s =
      (case r of Inl e \<Rightarrow> (Err e, t) | Inr _ \<Rightarrow>
        (case if_ipv6 ic of None \<Rightarrow> (Ok (), t) | Some i6 \<Rightarrow> provision_ipv6 cfg name index i6 mode t))"
    by (simp add: configure_families_def fst_result_def [symmetric] f)
  then show ?thesis using one keeps_trans [OF _ two] f by (cases r) (auto split: option.split)
qed

lemma keeps_provision_ethernet: "keeps s (snd (provision_ethernet cfg env ic s))"
  by (simp add: provision_ethernet_def keeps_configure_families split: sum.split)

lemma keeps_provision_all: "provision_all cfg env ics s = Some t \<Longrightarrow> keeps s t"
proof (induction ics arbitrary: s)
  case (Cons ic ics)
  show ?case
  proof (cases "if_kind ic")
    case BridgeKind
    then obtain r u where "provision_bridge env (if_name ic) (default_bridge (if_bridge ic)) s = Some (r, u)"
        "provision_all cfg env ics u = Some t"
      using Cons.prems by (auto split: option.splits)
    then show ?thesis using Cons.IH keeps_provision_bridge keeps_trans by blast
  next
    case EthernetKind
    then show ?thesis using Cons keeps_provision_ethernet keeps_trans by fastforce
  qed
qed simp

lemma keeps_reconcile_bridge: "reconcile_bridge env ic s = Some (r, t) \<Longrightarrow> keeps s t"
proof -
  assume a: "reconcile_bridge env ic s = Some (r, t)"
  show ?thesis
  proof (cases "name_new (if_name ic)")
    case None
    then show ?thesis using a by (simp add: reconcile_bridge_def)
  next
    case (Some b)
    have sn: "s_name sn \<in> set (keys_of (interfaces s))"
      if "bridge_snapshot env b cfg s = Ok sn" for cfg sn
      using that by (auto simp: bridge_snapshot_def Let_def result_iffs dest: map_of_Some_keys)
    show ?thesis
      using a Some keeps_respawn [OF sn] keeps_provision_bridge
      by (auto simp: reconcile_bridge_def Let_def split: if_splits sum.splits)
  qed
qed

lemma keeps_reconcile_ethernet: "keeps s (snd (reconcile_ethernet cfg env ic s))"
  by (simp add: reconcile_ethernet_def keeps_configure_families split: sum.split option.split)

lemma keeps_reconcile_all: "reconcile_all cfg env ics s = Some t \<Longrightarrow> keeps s t"
proof (induction ics arbitrary: s)
  case (Cons ic ics)
  show ?case
  proof (cases "if_kind ic")
    case BridgeKind
    then obtain r u where "reconcile_bridge env ic s = Some (r, u)" "reconcile_all cfg env ics u = Some t"
      using Cons.prems by (auto split: option.splits)
    then show ?thesis using Cons.IH keeps_reconcile_bridge keeps_trans by blast
  next
    case EthernetKind
    then show ?thesis using Cons keeps_reconcile_ethernet keeps_trans by fastforce
  qed
qed simp

lemma reconcile_run_inv: "net_inv s \<Longrightarrow> reconcile_run cfg env s = Some t \<Longrightarrow> net_inv t"
  using keeps_reconcile_all sync_inv by (auto simp: reconcile_run_def keeps_def split: if_splits)

text \<open>Discovery starts from an empty supervisor.\<close>

definition roles_from :: "ethernet list \<Rightarrow> net_supervisor \<Rightarrow> net_supervisor" where
  "roles_from discovered s =
     fold (\<lambda>i. spawn_interface_actor (fresh_snapshot (eth_name i) (eth_index i) (eth_mac i) (eth_link i)))
       discovered s"

lemma roles_from_keeps: "keeps s (roles_from is s)"
  unfolding roles_from_def
  by (induction "is" arbitrary: s) (auto intro: keeps_trans keeps_spawn)

lemma roles_from_keys: "set (keys_of (interfaces (roles_from is s))) = set (keys_of (interfaces s)) \<union> eth_name ` set is"
  unfolding roles_from_def
  by (induction "is" arbitrary: s) (auto simp: spawn_keys fresh_snapshot_def)

lemma select_primary_interface_inv:
  assumes inv: "net_inv s" and d: "distinct (map eth_name is)"
    and keys: "eth_name ` set is \<subseteq> set (keys_of (interfaces s))"
    and sel: "select_primary_interface is s = (r, t)"
  shows "net_inv t \<and> n_state (net t) = n_state (net s) \<and> (is_ok r \<longrightarrow> n_primary (net t) \<noteq> None)"
proof (cases "select_primary is")
  case None
  then show ?thesis using sel inv by (auto simp: select_primary_interface_def)
next
  case (Some p)
  have t: "t = set_roles (Some (eth_name p)) (map eth_name (select_backups is (eth_name p))) s"
    using sel Some by (simp add: select_primary_interface_def)
  have p: "p \<in> set is" using select_primary_max [OF Some] by simp
  have "net_inv t"
    unfolding t
    using inv keys p d distinct_select_backups by (intro set_roles_inv) (auto simp: set_select_backups)
  then show ?thesis by (simp add: t)
qed

lemma net_transition_degraded_inv: "net_inv s \<Longrightarrow> net_inv (snd (net_transition NetDegraded s))"
  by (auto simp: net_transition_def transition_def net_inv_def roles_def)

lemma publish_state_inv [simp]: "net_inv (publish_state s) = net_inv s" "net (publish_state s) = net s"
    "interfaces (publish_state s) = interfaces s"
  by (simp_all add: publish_state_def net_inv_def roles_def)

lemma sup_reset_inv: "net_inv (sup_reset s)"
  by (simp add: sup_reset_def net_inv_def roles_def network_empty_def keys_of_def)

lemma discovery_inv:
  assumes names: "distinct_names (discover_ethernet env)"
    and disc: "discovery_interfaces cfg env (sup_reset s) = (r, t)"
  shows "net_inv t \<and> (is_ok r \<longrightarrow> n_primary (net t) \<noteq> None)"
proof -
  define u where "u = publish_state ((sup_reset s)\<lparr>net := (net (sup_reset s))\<lparr>n_state := NetInitializing\<rparr>\<rparr>)"
  have tr: "net_transition NetInitializing (sup_reset s)
      = (Ok (), (sup_reset s)\<lparr>net := (net (sup_reset s))\<lparr>n_state := NetInitializing\<rparr>\<rparr>)"
    by (simp add: net_transition_def transition_def sup_reset_def network_empty_def)
  have u: "net_inv u" "n_state (net u) = NetInitializing"
    by (simp_all add: u_def publish_state_def sup_reset_def net_inv_def roles_def network_empty_def keys_of_def)
  have deg: "net_inv (snd (net_transition NetDegraded u))" using net_transition_degraded_inv [OF u(1)] .
  show ?thesis
  proof (cases "discover_ethernet env")
    case (Inl e)
    then show ?thesis
      using disc u(1) unfolding discovery_interfaces_def tr prod.case sum.case Let_def u_def [symmetric] Inl
      by auto
  next
    case (Inr found)
    show ?thesis
    proof (cases "found = [] \<or> \<not> list_ex snd (carriers env)")
      case True
      obtain r2 w where w: "net_transition NetDegraded u = (r2, w)" by (cases "net_transition NetDegraded u")
      have eq: "discovery_interfaces cfg env (sup_reset s) =
          (if found = [] then
             (case r2 of Inl e \<Rightarrow> (Err (invalid_state e), w)
              | Inr _ \<Rightarrow> (Err (OpsFailure ''no ethernet interfaces found''), publish_state w))
           else
             (case r2 of Inl e \<Rightarrow> (Err (invalid_state e), w)
              | Inr _ \<Rightarrow> (Err (OpsFailure ''no carrier detected on any interface''), publish_state w)))"
        using Inr True w by (auto simp only: discovery_interfaces_def tr u_def [symmetric] Let_def prod.case sum.case if_True if_False not_False_eq_True
            simp_thms)
      show ?thesis using disc deg w unfolding eq by (cases r2) (auto split: if_splits)
    next
      case False
      define devs where
        "devs = map (\<lambda>i. i\<lparr>eth_link := carrier_link_state (map_of (carriers env) (eth_index i))\<rparr>) found"
      have "map eth_name devs = map eth_name found" by (simp add: devs_def)
      then have d: "distinct (map eth_name devs)" using names Inr by (simp add: distinct_names_def)
      let ?v = "roles_from devs u"
      have v: "net_inv ?v" "n_state (net ?v) = NetInitializing"
        using roles_from_keeps [of u devs] u by (simp_all add: keeps_def)
      obtain r' w where sel: "select_primary_interface devs ?v = (r', w)"
        by (cases "select_primary_interface devs ?v")
      have w: "net_inv w" "n_state (net w) = NetInitializing" "is_ok r' \<Longrightarrow> n_primary (net w) \<noteq> None"
        using select_primary_interface_inv [OF v(1) d _ sel] v(2) by (auto simp: roles_from_keys)
      have res: "(r, t) = (case select_primary_interface devs ?v of
             (Inl e, s) \<Rightarrow> (Err e, s)
           | (Inr _, s) \<Rightarrow>
               (case net_transition NetOperational s of
                  (Inl e, s) \<Rightarrow> (Err (invalid_state e), s)
                | (Inr _, s) \<Rightarrow> (Ok (), sync_and_publish cfg env s)))"
        using disc False unfolding discovery_interfaces_def tr prod.case sum.case Let_def u_def [symmetric] Inr
          devs_def roles_from_def
        by simp
      show ?thesis
      proof (cases r')
        case (Inl e)
        then show ?thesis using res sel w by simp
      next
        case (Inr x)
        let ?x = "w\<lparr>net := (net w)\<lparr>n_state := NetOperational\<rparr>\<rparr>"
        have "net_transition NetOperational w = (Ok (), ?x)"
          using w(2) by (simp add: net_transition_def transition_def)
        then have rt: "r = Ok ()" "t = sync_and_publish cfg env ?x" using res sel Inr by simp_all
        have x: "net_inv ?x" "n_primary (net ?x) \<noteq> None" using w Inr by (auto simp: net_inv_def roles_def)
        show ?thesis using rt sync_inv [OF x(1)] sync_frame(1) [of ?x cfg env] x(2) by (simp add: same_shape_def)
      qed
    qed
  qed
qed

lemma initialize_inv:
  assumes "distinct_names (discover_ethernet env)" "initialize cfg env s = Some (r, t)"
  shows "net_inv t"
proof -
  obtain r1 u where d: "discovery_interfaces cfg env (sup_reset s) = (r1, u)"
    by (cases "discovery_interfaces cfg env (sup_reset s)")
  have u: "net_inv u" "is_ok r1 \<Longrightarrow> n_primary (net u) \<noteq> None" using discovery_inv [OF assms(1) d] by auto
  show ?thesis
  proof (cases r1)
    case (Inl e)
    then show ?thesis using assms(2) d u by (simp add: initialize_def)
  next
    case (Inr x)
    obtain v where p: "provision_all cfg env (cfg_interfaces cfg) u = Some v"
        and v: "(case net_transition NetReady v of
                  (Inl e, s) \<Rightarrow> Some (Err (invalid_state e), s)
                | (Inr _, s) \<Rightarrow> Some (Ok (), publish_state s)) = Some (r, t)"
      using assms(2) d Inr by (auto simp: initialize_def split: option.splits)
    have inv: "net_inv v" "n_primary (net v) \<noteq> None"
      using keeps_provision_all [OF p] u Inr by (auto simp: keeps_def)
    have "net_inv (snd (net_transition NetReady v))"
      using inv by (auto simp: net_transition_def transition_def net_inv_def roles_def)
    then show ?thesis using v by (auto split: prod.splits sum.splits)
  qed
qed

lemma actors_progress_inv: "net_inv s \<Longrightarrow> actors_progress s t \<Longrightarrow> net_inv t"
proof -
  assume inv: "net_inv s" and p: "actors_progress s t"
  note prog = p [unfolded actors_progress_def]
  have "net t = net (s\<lparr>interfaces := interfaces t\<rparr>)" using prog [THEN conjunct1] by (rule arg_cong)
  then have net: "net t = net s" by simp
  have keys: "keys_of (interfaces t) = keys_of (interfaces s)" using prog by (rule conjunct2 [THEN conjunct1])
  have names: "s_name (state_rx h) = name" if h: "map_of (interfaces t) name = Some h" for name h
  proof -
    obtain h0 where "map_of (interfaces s) name = Some h0" "s_name (state_rx h) = s_name (state_rx h0)"
      using prog [THEN conjunct2, THEN conjunct2, rule_format, OF h] by blast
    then show ?thesis using inv by (simp add: net_inv_def)
  qed
  show ?thesis using inv names unfolding net_inv_def roles_def net keys by blast
qed

lemma sup_handle_inv:
  assumes "net_inv s" "distinct_names (discover_ethernet env)" "sup_handle cfg env pos ev s = Some t"
  shows "net_inv t"
proof (cases ev)
  case SupInitialize
  then show ?thesis using assms initialize_inv by (auto simp: sup_handle_def)
next
  case SupReconcile
  then show ?thesis using assms reconcile_run_inv by (simp add: sup_handle_def)
next
  case (SupNetlink e)
  then show ?thesis using assms handle_link_event_inv by (auto simp: sup_handle_def)
next
  case SupPrimaryChanged
  have "net_inv (flush_dns cfg env u) = net_inv u" for u by (simp add: net_inv_def roles_def)
  then show ?thesis using assms maybe_failover_inv SupPrimaryChanged by (auto simp: sup_handle_def)
qed

lemma sup_reach_inv: "sup_reach cfg s \<Longrightarrow> net_inv s"
proof (induction rule: sup_reach.induct)
  case start
  show ?case by (simp add: sup_new_def net_inv_def roles_def network_empty_def keys_of_def)
next
  case (turn s env ev pos s')
  then show ?case using sup_handle_inv by blast
next
  case (actors s s')
  then show ?case using actors_progress_inv by blast
qed

end
