(* ===== verification/Network_Properties.thy ===== *)
theory Network_Properties
  imports Net_Interface_Safety Net_Supervisor_Safety
begin

text \<open>
  The properties of networkd: the frames and messages of its DHCP client, the exchange, the
  interface actor, and the roles that the supervisor assigns.
\<close>

section \<open>Frames\<close>

text \<open>
  C19: What the client frames can be taken apart again, and a receiver accepts it.  For a payload that
  fits in one packet, unwrapping the frame gives the payload and both ports, the checksum over the
  IP header (its checksum field included) is zero, and so is the checksum over the pseudo header
  and the UDP segment, which is how a receiver verifies them.
\<close>

theorem frame_round_trip:
  assumes "length payload \<le> 65507"
  shows "unwrap_ipv4_udp (wrap_ipv4_udp payload src dst sp dp) = Ok (payload, sp, dp)
    \<and> checksum_ones_complement (take 20 (wrap_ipv4_udp payload src dst sp dp)) = 0
    \<and> udp_checksum src dst (drop 20 (wrap_ipv4_udp payload src dst sp dp)) = 0"
  using unwrap_wrap [OF assms] sealed_header_verifies sealed_udp_verifies [OF assms]
  by (simp add: wrap_ipv4_udp_eq Let_def)

theorem frame_round_trip_witness:
  "unwrap_ipv4_udp (wrap_ipv4_udp [1, 2, 3] ipv4_unspecified ipv4_broadcast 68 67) = Ok ([1, 2, 3], 68, 67)"
  using frame_round_trip [of "[1, 2, 3]" ipv4_unspecified ipv4_broadcast 68 67] by simp

text \<open>
  C20: The checksum routine, which adds all words first and folds the carries at the end, computes the
  checksum of RFC 1071, which adds every word with its end-around carry.  This holds for every
  buffer of up to 131070 bytes, where the 32-bit sum cannot saturate.
\<close>

theorem checksum_equivalence:
  assumes "length data \<le> 131070"
  shows "checksum_ones_complement data = rfc1071_checksum data"
proof -
  have "word_sum data \<le> 65535 * 65535" using assms by (intro word_sum_le) simp
  then have le: "word_sum data \<le> u32_max" by (simp add: u32_max_def)
  have "fold carry_add (words_of data) 0 = canonical (word_sum data)"
    using fold_carry_add [of data 0] by (simp add: canonical_def [of 0])
  then show ?thesis
    using le by (simp add: checksum_ones_complement_def checksum_words_eq finish_checksum_eq rfc1071_checksum_def)
qed

theorem checksum_equivalence_witness:
  "checksum_ones_complement [0x45, 0x00, 0xFF] = rfc1071_checksum [0x45, 0x00, 0xFF]"
  using checksum_equivalence [of "[0x45, 0x00, 0xFF]"] by simp

section \<open>Messages\<close>

text \<open>
  C21: The option parser reads every buffer as RFC 2132 does.  Each buffer splits into well-formed
  options (padding, or code, length and data) and a rest that is empty, starts with the end marker,
  or starts with an option that does not fit; and whenever a buffer splits that way, the result is
  that of applying the options in order to the empty result.
\<close>

theorem options_parse_spec:
  "(\<exists>opts rest. bs = encode_options opts @ rest \<and> list_all option_ok opts \<and> list_ends rest) \<and>
   (\<forall>opts rest. bs = encode_options opts @ rest \<and> list_all option_ok opts \<and> list_ends rest \<longrightarrow>
      parse_options bs = fold apply_tlv opts no_options)"
proof (intro conjI allI impI)
  show "\<exists>opts rest. bs = encode_options opts @ rest \<and> list_all option_ok opts \<and> list_ends rest"
    by (rule split_options [of bs]) blast
  fix opts rest
  assume "bs = encode_options opts @ rest \<and> list_all option_ok opts \<and> list_ends rest"
  then show "parse_options bs = fold apply_tlv opts no_options"
    using parse_from_encode [of opts rest "[]" no_options] by (simp add: parse_options_def)
qed

theorem options_parse_spec_witness:
  "message_type (parse_options [0, 53, 1, 5, 1, 4, 255, 255, 255, 0, 255, 7]) = Some 5"
proof -
  let ?opts = "[Pad, Opt 53 [5], Opt 1 [255, 255, 255, 0]]"
  have "[0, 53, 1, 5, 1, 4, 255, 255, 255, 0, 255, 7] = encode_options ?opts @ [255, 7]
      \<and> list_all option_ok ?opts \<and> list_ends [255, 7]"
    by (simp add: list_ends_def)
  note parse = options_parse_spec [THEN conjunct2, rule_format, OF this]
  show ?thesis by (simp add: parse apply_option_def no_options_def ipv4_from_chunk_def)
qed

text \<open>
  C22: The times of a lease.  The renewal and rebinding times never exceed the lease time and the prefix
  length is at most 32.  The renewal comes before the rebinding exactly when the lease is shorter
  than 2^30 seconds: beyond that the multiplication by seven has saturated and the rebinding time
  falls behind the renewal time, as for the infinite lease of all ones.
\<close>

theorem lease_times:
  "renewal_secs (build_lease_from_ack now ip srv opts) \<le> lease_secs (build_lease_from_ack now ip srv opts)
   \<and> rebind_secs (build_lease_from_ack now ip srv opts) \<le> lease_secs (build_lease_from_ack now ip srv opts)
   \<and> prefix_len (build_lease_from_ack now ip srv opts) \<le> 32
   \<and> (renewal_secs (build_lease_from_ack now ip srv opts) \<le> rebind_secs (build_lease_from_ack now ip srv opts)
      \<longleftrightarrow> lease_secs (build_lease_from_ack now ip srv opts) < 2 ^ 30)"
proof -
  define t where "t = lease_secs (build_lease_from_ack now ip srv opts)"
  have times: "renewal_secs (build_lease_from_ack now ip srv opts) = t div 2"
      "rebind_secs (build_lease_from_ack now ip srv opts) = min u32_max (t * 7) div 8"
    by (simp_all add: t_def build_lease_from_ack_def Let_def saturating_mul_def)
  have plen: "prefix_len (build_lease_from_ack now ip srv opts) \<le> 32"
    using prefix_of_mask_le by (simp add: build_lease_from_ack_def Let_def split: option.split)
  have "t div 2 \<le> min u32_max (t * 7) div 8 \<longleftrightarrow> t < 2 ^ 30"
  proof (cases "t * 7 \<le> u32_max")
    case True
    then have "t < 2 ^ 30" by (simp add: u32_max_def)
    moreover have "t div 2 \<le> t * 7 div 8" by linarith
    ultimately show ?thesis using True by (simp add: min_absorb2)
  next
    case False
    then have "min u32_max (t * 7) div 8 = 536870911" by (simp add: min_def u32_max_def)
    then show ?thesis by simp linarith
  qed
  then show ?thesis using plen unfolding times t_def [symmetric] by (auto simp: min_def)
qed

section \<open>The exchange\<close>

text \<open>
  C23: When the discover-offer-request-acknowledge exchange yields a lease.  It does exactly when both
  frames can be sent and the socket delivers, in this order and with nothing decisive in between,
  an offer under the transaction identifier that names its server, and an acknowledgement under the
  same identifier.  The lease then has the address and options of the acknowledgement and the server
  of the offer, and what was sent is the discover message and a request for the offered address.
\<close>

theorem dora_exchange:
  "run (Ok x) now mac sock = (Some (Ok l), sock') \<longleftrightarrow>
     send_ok sock (length (sent sock)) \<and> send_ok sock (length (sent sock) + 1) \<and>
     (\<exists>junk1 offer junk2 ack rest offer_buf offer_opts server ack_buf ack_opts.
        inbox sock = junk1 @ offer # junk2 @ ack # rest \<and>
        filter (decisive x MT_OFFER) junk1 = [] \<and> answer_of x MT_OFFER offer = Ok (offer_buf, offer_opts) \<and>
        server_id offer_opts = Some server \<and>
        filter (decisive x MT_ACK) junk2 = [] \<and> answer_of x MT_ACK ack = Ok (ack_buf, ack_opts) \<and>
        l = build_lease_from_ack now (yiaddr ack_buf) server ack_opts \<and>
        sock' = sock\<lparr>sent := sent sock @ [broadcast_frame (discover_message x mac),
                                          broadcast_frame (request_message x mac (yiaddr offer_buf) server)],
                     inbox := rest\<rparr>)"
  unfolding run_Ok_iff request_lease_Ok_iff
  by (simp add: ex_simps [symmetric] del: ex_simps) blast

section \<open>The interface actor\<close>


text \<open>A small interface and an environment that accepts everything and hears nothing.\<close>

definition demo_snapshot :: snapshot where
  "demo_snapshot = fresh_snapshot ''eth0'' 2 [2, 0, 0, 0, 0, 1] LinkUp"

definition demo_env :: "nat \<Rightarrow> iface_env" where
  "demo_env t = \<lparr>env_now = t, env_xid = Ok 7,
     create_raw = (\<lambda>_. Ok \<lparr>inbox = [RecvTimeout], sent = [], send_ok = (\<lambda>_. True)\<rparr>),
     create_unicast = (\<lambda>_ _. Ok \<lparr>inbox = [RecvTimeout], sent = [], send_ok = (\<lambda>_. True)\<rparr>),
     accepts = (\<lambda>_. Ok ()), link_index = (\<lambda>_. Ok 3), slaac_new = Ok ()\<rparr>"

definition demo_net_config :: net_config where
  "demo_net_config = \<lparr>cfg_ipv6 = False, cfg_dns = [], cfg_interfaces = []\<rparr>"

definition demo_lease :: lease where
  "demo_lease = build_lease_from_ack 100 (Ipv4 10 0 0 2) (Ipv4 10 0 0 1) (no_options\<lparr>lease_time := Some 80\<rparr>)"

text \<open>A configured interface that holds the lease.\<close>

definition demo_bound :: actor where
  "demo_bound = actor_spawn 110 (demo_snapshot\<lparr>s_state := Configured, s_lease := Some demo_lease,
     s_dhcp_state := Some DhcpBound\<rparr>)"

lemmas demo_defs = demo_snapshot_def demo_env_def demo_net_config_def demo_lease_def demo_bound_def fresh_snapshot_def


text \<open>
  What the renewal timer does to an interface that is bound.  A renewed lease the kernel accepts
  replaces the old one, the client is bound again and all three timers are set from the new lease,
  while the life cycle state stays.  A timeout or an unusable answer changes nothing but the DHCP
  state, which is now renewing; the rebinding and expiry timers stay armed.  A refusal by the server
  starts over with a full exchange.
\<close>

lemma renewal_outcome:
  assumes "s_lease (snap a) = Some l" "s_dhcp_state (snap a) = Some DhcpBound"
    and "create_unicast env (s_name (snap a)) (assigned_ip l) = Ok sock"
    and "fst (renew (env_xid env) (env_now env) (s_mac (snap a)) (server_ip l) (assigned_ip l) sock) = Some res"
    and "handle_event cfg env EvRenew a = Some b"
  shows "(case res of
      Inr l' \<Rightarrow> \<not> is_ok (fst (apply_lease env (s_index (snap a)) l' a)) \<or>
        s_lease (snap b) = Some l' \<and> s_dhcp_state (snap b) = Some DhcpBound \<and>
        timers b = arm (env_now env) l' \<and> s_state (snap b) = s_state (snap a)
    | Inl e \<Rightarrow>
        (let a' = a\<lparr>timers := (timers a)\<lparr>t_renew := None\<rparr>,
                    snap := (snap a)\<lparr>s_dhcp_state := Some DhcpRenewing\<rparr>\<rparr>
         in if e = DhcpNak then map_option snd (do_full_dora env a') = Some b else b = a'))"
proof -
  define a' where "a' = a\<lparr>timers := (timers a)\<lparr>t_renew := None\<rparr>,
      snap := (snap a)\<lparr>s_dhcp_state := Some DhcpRenewing\<rparr>\<rparr>"
  have tr: "dhcp_transition DhcpRenewing (a\<lparr>timers := (timers a)\<lparr>t_renew := None\<rparr>\<rparr>) = a'"
    using assms(2) by (simp add: dhcp_transition_def transition_def a'_def)
  have sel: "s_lease (snap a') = Some l" "s_name (snap a') = s_name (snap a)" "s_mac (snap a') = s_mac (snap a)"
      "s_index (snap a') = s_index (snap a)" "s_state (snap a') = s_state (snap a)"
    using assms(1) by (simp_all add: a'_def)
  have b: "map_option snd (after_exchange env (Some res) a') = Some b"
    using assms(3-5) sel by (simp add: renew_lease_def tr do_renew_def lease_params_def)
  have ops: "fst (ops_all env ks x) = fst (ops_all env ks y)" for ks x y
    by (induction ks arbitrary: x y) (auto simp: ops_def split: sum.split)
  show ?thesis
  proof (cases res)
    case (Inl e)
    then show ?thesis using b by (simp add: after_exchange_def a'_def Let_def split: if_splits)
  next
    case (Inr l')
    obtain r c where com: "commit_lease env (s_index (snap a')) l' a' = (r, c)"
      by (cases "commit_lease env (s_index (snap a')) l' a'")
    have c: "b = c" using b Inr com by (simp add: after_exchange_def)
    have ap: "fst (apply_lease env (s_index (snap a)) l' a') = fst (apply_lease env (s_index (snap a)) l' a)"
      unfolding apply_lease_def by (rule ops)
    show ?thesis
    proof (cases "is_ok (fst (apply_lease env (s_index (snap a)) l' a))")
      case True
      then have "r = Ok ()"
        using com ap sel by (cases "apply_lease env (s_index (snap a)) l' a'") (auto simp: commit_lease_def is_ok_iff)
      then show ?thesis using commit_lease_ok [of env _ l' a' b] com c sel Inr by simp
    qed (simp add: Inr)
  qed
qed





section \<open>The supervisor\<close>

text \<open>
  C27: The roles of the interfaces are consistent after every history of commands, link events,
  failovers and reconciliations.  The primary and the backups are different interfaces, each of them
  has an actor, there are no backups without a primary, an operational or ready network has a
  primary, and every actor is filed under the name of its interface.
\<close>

theorem network_roles:
  assumes "sup_reach cfg s"
  shows "distinct (roles s) \<and> set (roles s) \<subseteq> set (keys_of (interfaces s)) \<and>
    (n_primary (net s) = None \<longrightarrow> n_backups (net s) = []) \<and>
    (n_state (net s) \<in> {NetOperational, NetReady} \<longrightarrow> n_primary (net s) \<noteq> None) \<and>
    (\<forall>name h. map_of (interfaces s) name = Some h \<longrightarrow> s_name (state_rx h) = name)"
  using sup_reach_inv [OF assms] by (simp add: net_inv_def)

definition demo_sup_env :: sup_env where
  "demo_sup_env = \<lparr>discover_ethernet = Ok [], carriers = [], ensure_up = (\<lambda>_. Ok 1), bridge_ok = (\<lambda>_. Ok ()),
     index_of = (\<lambda>_. Ok 1), dns_write = Ok (), port_states = (\<lambda>_. []), bridge_reply = (\<lambda>_. Err EmptyAddresses)\<rparr>"

definition demo_net :: net_supervisor where
  "demo_net = on_link_added demo_net_config demo_sup_env 0 ''eth1'' 3 [2, 0, 0, 0, 0, 2]
     (on_link_added demo_net_config demo_sup_env 0 ''eth0'' 2 [2, 0, 0, 0, 0, 1] sup_new)"

lemma on_link_added_roles:
  assumes "name \<notin> set (keys_of (interfaces s))"
  shows "n_primary (net (on_link_added cfg env pos name index mac s)) =
      (if n_primary (net s) = None then Some name else n_primary (net s))"
    and "n_backups (net (on_link_added cfg env pos name index mac s)) =
      (if n_primary (net s) = None then n_backups (net s) else insert_at pos name (n_backups (net s)))"
    and "set (keys_of (interfaces (on_link_added cfg env pos name index mac s))) =
      insert name (set (keys_of (interfaces s)))"
proof -
  define sp where "sp = spawn_interface_actor (fresh_snapshot name index mac LinkUp) s"
  define t where "t = (if n_primary (net s) = None then set_roles (Some name) (n_backups (net s)) sp
                       else set_roles (n_primary (net s)) (insert_at pos name (n_backups (net s))) sp)"
  have new: "map_of (interfaces s) name = None" using assms by (simp add: keys_of_def map_of_eq_None_iff)
  have "net sp = net s" "set (keys_of (interfaces sp)) = insert name (set (keys_of (interfaces s)))"
    by (simp_all add: sp_def spawn_keys) (simp add: fresh_snapshot_def)
  moreover from this new have "on_link_added cfg env pos name index mac s = sync_and_publish cfg env t"
    by (simp only: on_link_added_def Let_def t_def sp_def) simp
  ultimately show "n_primary (net (on_link_added cfg env pos name index mac s)) =
      (if n_primary (net s) = None then Some name else n_primary (net s))"
    and "n_backups (net (on_link_added cfg env pos name index mac s)) =
      (if n_primary (net s) = None then n_backups (net s) else insert_at pos name (n_backups (net s)))"
    and "set (keys_of (interfaces (on_link_added cfg env pos name index mac s))) =
      insert name (set (keys_of (interfaces s)))"
    using sync_frame [where s = t and cfg = cfg and env = env] by (simp_all add: same_shape_def t_def)
qed

lemma on_link_added_reach:
  assumes "sup_reach cfg s" "n_backups (net s) = []" "discover_ethernet env = Ok []" "\<And>b. bridge_reply env b = Err e"
  shows "sup_reach cfg (on_link_added cfg env 0 name index mac s)"
  by (rule sup_reach.turn [of cfg s env "SupNetlink (EventAdded name index mac)" 0])
    (simp_all add: assms sup_handle_def distinct_names_def partition_point_result_def)

lemma demo_net_facts:
  "n_primary (net demo_net) = Some ''eth0''" "n_backups (net demo_net) = [''eth1'']"
  "sup_reach demo_net_config demo_net"
proof -
  define s1 where "s1 = on_link_added demo_net_config demo_sup_env 0 ''eth0'' 2 [2, 0, 0, 0, 0, 1] sup_new"
  have new: "n_primary (net sup_new) = None" "n_backups (net sup_new) = []" "keys_of (interfaces sup_new) = []"
    by (simp_all add: sup_new_def network_empty_def keys_of_def)
  have s1: "n_primary (net s1) = Some ''eth0''" "n_backups (net s1) = []" "set (keys_of (interfaces s1)) = {''eth0''}"
    using new by (simp_all add: s1_def on_link_added_roles)
  have net: "demo_net = on_link_added demo_net_config demo_sup_env 0 ''eth1'' 3 [2, 0, 0, 0, 0, 2] s1"
    by (simp only: demo_net_def s1_def)
  show "n_primary (net demo_net) = Some ''eth0''" "n_backups (net demo_net) = [''eth1'']"
    using s1 unfolding net by (simp_all add: on_link_added_roles insert_at_def)
  have env: "discover_ethernet demo_sup_env = Ok []" "bridge_reply demo_sup_env b = Err EmptyAddresses" for b
    by (simp_all add: demo_sup_env_def)
  have "sup_reach demo_net_config s1" unfolding s1_def by (rule on_link_added_reach [OF sup_reach.start new(2) env])
  then show "sup_reach demo_net_config demo_net" unfolding net by (rule on_link_added_reach [OF _ s1(2) env])
qed

theorem network_roles_witness: "distinct (roles demo_net)"
  using network_roles [OF demo_net_facts(3)] by simp

text \<open>
  C28: What the failure of the primary does.  Without a backup the roles stay and the network is
  degraded.  Otherwise the new primary is the first backup that is configured, or the first backup
  when none is, which is then told to acquire an address; the failed interface goes to the end of the
  backups, so no interface is lost, and the network is operational again (unless it was never
  initialized).
\<close>

theorem failover_choice:
  assumes "net_inv s" "n_primary (net s) = Some p"
  shows "n_state (net (handle_primary_failure p s)) =
      (if n_state (net s) = NetUninitialized then NetUninitialized
       else if n_backups (net s) = [] then NetDegraded else NetOperational)
    \<and> (case failover_candidate s of
         None \<Rightarrow> n_backups (net s) = [] \<and> roles (handle_primary_failure p s) = roles s
       | Some b \<Rightarrow>
           roles (handle_primary_failure p s) = b # remove1 b (n_backups (net s)) @ [p]
           \<and> interfaces (handle_primary_failure p s) =
               (if is_interface_configured s b then interfaces s
                else interfaces (send_to_interface b (ConfigureDhcp Provision) s)))"
proof -
  let ?d = "advance NetDegraded s"
  have d: "n_backups (net ?d) = n_backups (net s)" "n_primary (net ?d) = Some p" "interfaces ?d = interfaces s"
    using advance_shape [of s NetDegraded] assms(2) by (simp_all add: same_shape_def)
  have conf: "is_interface_configured ?d = is_interface_configured s"
    by (simp add: fun_eq_iff is_interface_configured_def has_state_cong [OF d(3)])
  then have cand: "failover_candidate ?d = failover_candidate s"
    unfolding failover_candidate_def d(1) by simp
  have ds: "n_state (net ?d) = (if n_state (net s) = NetUninitialized then NetUninitialized else NetDegraded)"
    by (cases "n_state (net s)") (simp_all add: advance_state)
  show ?thesis
  proof (cases "failover_candidate s")
    case None
    then have "handle_primary_failure p s = ?d" by (simp add: handle_primary_failure_def try_failover_eq cand)
    moreover have "n_backups (net s) = []" using None failover_candidate_None by blast
    ultimately show ?thesis unfolding None option.case using ds d assms(2) by (simp add: roles_def)
  next
    case (Some b)
    let ?t = "set_roles (Some b) (filter (\<lambda>n. n \<noteq> b) (n_backups (net s)) @ [p]) ?d"
    let ?u = "if is_interface_configured s b then ?t else send_to_interface b (ConfigureDhcp Provision) ?t"
    have h: "handle_primary_failure p s = advance NetOperational ?u"
      by (simp add: handle_primary_failure_def try_failover_eq cand Some Let_def d conf)
    have u: "net ?u = net ?t" by (simp add: send_to_interface_frame)
    have ne: "n_backups (net s) \<noteq> []" using Some failover_candidate_None [of s] by auto
    have b: "b \<in> set (n_backups (net s))" "distinct (n_backups (net s))"
      using failover_candidate_mem [OF Some] assms(1) by (auto simp: net_inv_def roles_def)
    have r: "roles (advance NetOperational ?u) = b # remove1 b (n_backups (net s)) @ [p]"
      using advance_shape [of ?u NetOperational] u b(2)
      by (simp add: roles_def same_shape_def distinct_remove1_removeAll removeAll_filter_not_eq eq_commute)
    have i: "interfaces (send_to_interface b c ?t) = interfaces (send_to_interface b c s)" for c
      by (simp add: send_to_interface_def enqueue_command_def d split: option.split)
    have us: "n_state (net ?u) = n_state (net ?d)" unfolding u by simp
    have st: "n_state (net (advance NetOperational ?u)) =
        (if n_state (net s) = NetUninitialized then NetUninitialized else NetOperational)"
      using advance_state [of NetOperational ?u] unfolding us ds by simp
    show ?thesis using h r i st ne Some d by simp
  qed
qed

theorem failover_choice_witness:
  "\<exists>s. n_primary (net s) = Some ''eth0'' \<and> roles (handle_primary_failure ''eth0'' s) = [''eth1'', ''eth0'']"
proof -
  have "failover_candidate demo_net = Some ''eth1''"
    by (simp add: failover_candidate_def demo_net_facts)
  then show ?thesis
    using failover_choice [OF sup_reach_inv [OF demo_net_facts(3)] demo_net_facts(1)]
    by (intro exI [of _ demo_net]) (simp add: demo_net_facts)
qed

text \<open>
  How the primary is chosen at start.  It is a discovered interface of the highest priority, one
  with a carrier whenever there is one; the backups are the other interfaces in descending order of
  priority.
\<close>

lemma selection_order:
  assumes "select_primary is = Some p" "distinct (map eth_name is)"
  shows "p \<in> set is \<and> (\<forall>i \<in> set is. iface_key i \<le> iface_key p) \<and>
    (list_ex has_carrier is \<longleftrightarrow> has_carrier p) \<and>
    descending (p # select_backups is (eth_name p)) \<and>
    set (p # select_backups is (eth_name p)) = set is"
proof -
  note max = select_primary_max [OF assms(1)]
  have "has_carrier p" if "i \<in> set is" "has_carrier i" for i
  proof (rule ccontr)
    assume "\<not> has_carrier p"
    then have "score_interface p \<le> 1500" using score_carrier(2) by blast
    moreover have "score_interface i \<le> score_interface p" using max that(1) iface_key_score by blast
    ultimately show False using score_carrier(1) [OF that(2)] by simp
  qed
  then have carrier: "list_ex has_carrier is \<longleftrightarrow> has_carrier p" using max by (auto simp: list_ex_iff)
  have "i = p" if "i \<in> set is" "eth_name i = eth_name p" for i
    using assms(2) max that by (auto simp: distinct_map dest: inj_onD)
  then have set: "set (p # select_backups is (eth_name p)) = set is"
    using max by (auto simp: set_select_backups)
  have "descending (p # select_backups is (eth_name p))"
    using descending_select_backups [of "is" "eth_name p"] max by (auto simp: descending_def set_select_backups)
  then show ?thesis using max carrier set by blast
qed

end
