(* ===== verification/Slaac.thy ===== *)
theory Slaac
  imports Net_Interface Clock
begin

text \<open>
  Stateless autoconfiguration: the lifetimes of \<open>services/networkd/src/slaac/state.rs\<close> and the
  manager of \<open>slaac/manager.rs\<close>.  Every \<open>Instant::now()\<close> is its own reading of a clock.  What the
  socket delivers is a list of packets; a receive that has not returned yet is the end of that
  list, and a loop that is still waiting has the value \<^const>\<open>None\<close>.  The socket setup and the
  ICMPv6 filter are not modelled, and neither is the name of the interface, which is only logged.
\<close>

section \<open>Lifetimes\<close>

datatype address_state = AddrPreferred | AddrDeprecated

record expiring =
  ex_value :: ipv6
  expires_at :: nat

record managed_address =
  ma_address :: ipv6
  ma_prefix_len :: nat
  ma_state :: address_state
  valid_until :: nat
  preferred_until :: nat
  ma_router :: ipv6

text \<open>\<open>Instant::now().checked_add(lifetime).unwrap_or_else(Instant::now)\<close>: a second reading on overflow.\<close>

definition deadline_from_now :: "nat \<Rightarrow> clock \<Rightarrow> nat \<times> clock" where
  "deadline_from_now secs ck =
     (case add_secs (now ck) secs of
        Some t \<Rightarrow> (t, later ck)
      | None \<Rightarrow> (now (later ck), later (later ck)))"

definition expiring_new :: "ipv6 \<Rightarrow> nat \<Rightarrow> clock \<Rightarrow> expiring \<times> clock" where
  "expiring_new v secs ck = (let (t, ck) = deadline_from_now secs ck in (\<lparr>ex_value = v, expires_at = t\<rparr>, ck))"

definition refresh_lifetime :: "nat \<Rightarrow> expiring \<Rightarrow> clock \<Rightarrow> expiring \<times> clock" where
  "refresh_lifetime secs e ck = (let (t, ck) = deadline_from_now secs ck in (e\<lparr>expires_at := t\<rparr>, ck))"

definition expiring_is_valid :: "expiring \<Rightarrow> clock \<Rightarrow> bool \<times> clock" where
  "expiring_is_valid e ck = (now ck < expires_at e, later ck)"

text \<open>\<open>now.checked_add(lifetime).unwrap_or(now)\<close>.\<close>

definition add_or_now :: "nat \<Rightarrow> nat \<Rightarrow> nat" where
  "add_or_now t secs = (case add_secs t secs of Some u \<Rightarrow> u | None \<Rightarrow> t)"

definition managed_address_new :: "ipv6 \<Rightarrow> nat \<Rightarrow> ipv6 \<Rightarrow> nat \<Rightarrow> nat \<Rightarrow> clock \<Rightarrow> managed_address \<times> clock" where
  "managed_address_new address plen source valid preferred ck =
     (\<lparr>ma_address = address, ma_prefix_len = plen, ma_state = AddrPreferred,
       valid_until = add_or_now (now ck) valid, preferred_until = add_or_now (now ck) preferred,
       ma_router = source\<rparr>, later ck)"

definition refresh_lifetimes :: "nat \<Rightarrow> nat \<Rightarrow> managed_address \<Rightarrow> clock \<Rightarrow> managed_address \<times> clock" where
  "refresh_lifetimes valid preferred m ck =
     (let t = now ck;
          new_valid = add_or_now t valid;
          new_preferred = add_or_now t preferred;
          clamped = add_or_now t 7200;
          m = (if valid > 7200 \<or> new_valid > valid_until m then m\<lparr>valid_until := new_valid\<rparr>
               else m\<lparr>valid_until := min (valid_until m) clamped\<rparr>);
          m = m\<lparr>preferred_until := new_preferred\<rparr>
      in (if preferred_until m > t then m\<lparr>ma_state := AddrPreferred\<rparr> else m, later ck))"

definition address_is_valid :: "managed_address \<Rightarrow> clock \<Rightarrow> bool \<times> clock" where
  "address_is_valid m ck = (now ck < valid_until m, later ck)"

text \<open>The second operand of \<open>&&\<close> is only evaluated in the preferred state.\<close>

definition is_preferred :: "managed_address \<Rightarrow> clock \<Rightarrow> bool \<times> clock" where
  "is_preferred m ck =
     (if ma_state m = AddrPreferred then (now ck < preferred_until m, later ck) else (False, ck))"

section \<open>The manager\<close>

abbreviation (input) MAX_RTR_SOLICITATIONS :: nat where "MAX_RTR_SOLICITATIONS \<equiv> 3"
abbreviation (input) RTR_SOLICITATION_INTERVAL :: nat where "RTR_SOLICITATION_INTERVAL \<equiv> 4"

record slaac_manager =
  sm_mac :: bytes
  sm_solicited :: bool
  sm_config :: net_config
  sm_address :: "managed_address option"
  sm_router :: "expiring option"
  sm_dns :: "expiring list"

text \<open>The list of servers, one construction and so one reading of the clock after the other.\<close>

fun expiring_all :: "nat \<Rightarrow> ipv6 list \<Rightarrow> clock \<Rightarrow> expiring list \<times> clock" where
  "expiring_all secs [] ck = ([], ck)"
| "expiring_all secs (v # vs) ck =
     (let (e, ck) = expiring_new v secs ck; (es, ck) = expiring_all secs vs ck in (e # es, ck))"

definition usable_prefix :: "prefix_info \<Rightarrow> bool" where
  "usable_prefix p \<longleftrightarrow> pi_autonomous p \<and> pi_len p \<le> 64"

definition process_initial_ra ::
    "router_advertisement \<Rightarrow> slaac_manager \<Rightarrow> clock \<Rightarrow> (string + slaac_event) \<times> slaac_manager \<times> clock" where
  "process_initial_ra ra m ck =
     (case find usable_prefix (ra_prefixes ra) of
        None \<Rightarrow> (Err ''no usable autonomous prefix in RA'', m, ck)
      | Some p \<Rightarrow>
          (case slaac_generate (pi_prefix p) (pi_len p) (sm_mac m) of
             None \<Rightarrow> (Err ''invalid prefix_len in RA'', m, ck)
           | Some address \<Rightarrow>
               let (a, ck) = managed_address_new address (pi_len p) (ra_source ra) (pi_valid p) (pi_preferred p) ck;
                   (r, ck) = expiring_new (ra_source ra) (ra_lifetime ra) ck;
                   (dns, ck) = (if ra_dns ra = [] then expiring_all u64_max (ipv6_dns (sm_config m)) ck
                                else expiring_all (ra_dns_lifetime ra) (ra_dns ra) ck)
               in (Ok (SlaacConfigured address (ma_prefix_len a) (ra_source ra) (map ex_value dns)),
                   m\<lparr>sm_address := Some a, sm_router := Some r, sm_dns := dns\<rparr>, ck)))"

definition refreshes :: "slaac_manager \<Rightarrow> managed_address \<Rightarrow> router_advertisement \<Rightarrow> prefix_info \<Rightarrow> bool" where
  "refreshes m a ra p \<longleftrightarrow> pi_autonomous p \<and> pi_len p \<le> 64 \<and> ma_router a = ra_source ra \<and>
     slaac_generate (pi_prefix p) (pi_len p) (sm_mac m) = Some (ma_address a)"

definition refresh_address_from_ra ::
    "router_advertisement \<Rightarrow> slaac_manager \<Rightarrow> clock \<Rightarrow> bool \<times> slaac_manager \<times> clock" where
  "refresh_address_from_ra ra m ck =
     (case sm_address m of
        None \<Rightarrow> (False, m, ck)
      | Some a \<Rightarrow>
          (case find (refreshes m a ra) (ra_prefixes ra) of
             None \<Rightarrow> (False, m, ck)
           | Some p \<Rightarrow>
               let (a, ck) = refresh_lifetimes (pi_valid p) (pi_preferred p) a ck
               in (True, m\<lparr>sm_address := Some a\<rparr>, ck)))"

text \<open>One server of the advertisement: the first entry with its address is refreshed, else it is added.\<close>

fun refresh_dns :: "nat \<Rightarrow> ipv6 \<Rightarrow> expiring list \<Rightarrow> clock \<Rightarrow> expiring list \<times> clock" where
  "refresh_dns secs v [] ck = (let (e, ck) = expiring_new v secs ck in ([e], ck))"
| "refresh_dns secs v (e # es) ck =
     (if ex_value e = v then let (e, ck) = refresh_lifetime secs e ck in (e # es, ck)
      else let (es, ck) = refresh_dns secs v es ck in (e # es, ck))"

fun refresh_all_dns :: "nat \<Rightarrow> ipv6 list \<Rightarrow> expiring list \<Rightarrow> clock \<Rightarrow> expiring list \<times> clock" where
  "refresh_all_dns secs [] es ck = (es, ck)"
| "refresh_all_dns secs (v # vs) es ck =
     (let (es, ck) = refresh_dns secs v es ck in refresh_all_dns secs vs es ck)"

definition refresh_dns_from_ra :: "router_advertisement \<Rightarrow> slaac_manager \<Rightarrow> clock \<Rightarrow> slaac_manager \<times> clock" where
  "refresh_dns_from_ra ra m ck =
     (let (es, ck) = refresh_all_dns (ra_dns_lifetime ra) (ra_dns ra) (sm_dns m) ck in (m\<lparr>sm_dns := es\<rparr>, ck))"

definition process_unsolicited_ra ::
    "router_advertisement \<Rightarrow> slaac_manager \<Rightarrow> clock \<Rightarrow> slaac_event option \<times> slaac_manager \<times> clock" where
  "process_unsolicited_ra ra m ck =
     (let mine = (case sm_router m of Some r \<Rightarrow> ex_value r = ra_source ra | None \<Rightarrow> False) in
      if ra_lifetime ra = 0 then
        (if mine then (Some (SlaacRouterExpired (ra_source ra)), m\<lparr>sm_router := None\<rparr>, ck) else (None, m, ck))
      else
        let (m, ck) = (case sm_router m of
                         Some r \<Rightarrow> if mine then let (r, ck) = refresh_lifetime (ra_lifetime ra) r ck
                                                in (m\<lparr>sm_router := Some r\<rparr>, ck)
                                   else (m, ck)
                       | None \<Rightarrow> (m, ck));
            (_, m, ck) = refresh_address_from_ra ra m ck
        in if ra_dns ra = [] then (None, m, ck)
           else let before = map ex_value (sm_dns m);
                    (m, ck) = refresh_dns_from_ra ra m ck;
                    after = map ex_value (sm_dns m)
                in (if before \<noteq> after then Some (SlaacDnsUpdated after) else None, m, ck))"

fun retain_valid :: "expiring list \<Rightarrow> clock \<Rightarrow> expiring list \<times> clock" where
  "retain_valid [] ck = ([], ck)"
| "retain_valid (e # es) ck =
     (let (ok, ck) = expiring_is_valid e ck; (es, ck) = retain_valid es ck
      in (if ok then e # es else es, ck))"

text \<open>The tail of the timer handler: expired servers go, and the configured ones come back if none is left.\<close>

definition expire_dns :: "slaac_manager \<Rightarrow> clock \<Rightarrow> slaac_event option \<times> slaac_manager \<times> clock" where
  "expire_dns m ck =
     (let before = map ex_value (sm_dns m);
          had_dns = (sm_dns m \<noteq> []);
          (es, ck) = retain_valid (sm_dns m) ck;
          (es, ck) = (if had_dns \<and> es = [] then expiring_all u64_max (ipv6_dns (sm_config m)) ck else (es, ck));
          after = map ex_value es
      in (if before \<noteq> after then Some (SlaacDnsUpdated after) else None, m\<lparr>sm_dns := es\<rparr>, ck))"

text \<open>At most one event per call; the checks come in this order.\<close>

definition handle_timer_expiration :: "slaac_manager \<Rightarrow> clock \<Rightarrow> slaac_event option \<times> slaac_manager \<times> clock" where
  "handle_timer_expiration m ck =
     (let t = now ck; ck = later ck;
          (deprecate, ck) = (case sm_address m of
              Some a \<Rightarrow> if ma_state a = AddrPreferred then let (p, ck) = is_preferred a ck in (\<not> p, ck) else (False, ck)
            | None \<Rightarrow> (False, ck))
      in case sm_address m of
           Some a \<Rightarrow>
             if deprecate then
               (Some (SlaacAddressDeprecated (ma_address a)),
                m\<lparr>sm_address := Some (a\<lparr>ma_state := AddrDeprecated\<rparr>)\<rparr>, ck)
             else let (ok, ck) = address_is_valid a ck in
               if \<not> ok then (Some (SlaacAddressExpired (ma_address a)), m\<lparr>sm_address := None\<rparr>, ck)
               else (case sm_router m of
                   Some r \<Rightarrow> if expires_at r \<le> t then (Some (SlaacRouterExpired (ex_value r)), m\<lparr>sm_router := None\<rparr>, ck)
                             else expire_dns m ck
                 | None \<Rightarrow> expire_dns m ck)
         | None \<Rightarrow>
             (case sm_router m of
                Some r \<Rightarrow> if expires_at r \<le> t then (Some (SlaacRouterExpired (ex_value r)), m\<lparr>sm_router := None\<rparr>, ck)
                          else expire_dns m ck
              | None \<Rightarrow> expire_dns m ck))"

definition next_timer_deadline :: "slaac_manager \<Rightarrow> clock \<Rightarrow> nat \<times> clock" where
  "next_timer_deadline m ck =
     (let (d, ck) = deadline_from_now 3600 ck;
          d = (case sm_address m of
                 Some a \<Rightarrow>
                   let d = (if ma_state a = AddrPreferred \<and> preferred_until a < d then preferred_until a else d)
                   in if valid_until a < d then valid_until a else d
               | None \<Rightarrow> d);
          d = (case sm_router m of Some r \<Rightarrow> if expires_at r < d then expires_at r else d | None \<Rightarrow> d);
          d = fold (\<lambda>e d. if expires_at e < d then expires_at e else d) (sm_dns m) d
      in (d, ck))"

section \<open>Receiving\<close>

text \<open>
  The result of one \<open>recvfrom\<close>: nothing yet after all, an error, or a packet with its sender, which
  may be missing or of another family.  \<open>RaElapsed\<close> is the timeout around the call.
\<close>

datatype sender = NoSender | SenderV6 ipv6 | OtherSender

datatype ra_recv = RaWouldBlock | RaRecvError | RaPacket bytes sender | RaElapsed

fun ra_try_recv :: "ra_recv \<Rightarrow> string + router_advertisement option" where
  "ra_try_recv (RaPacket buf from) =
     (let parse = (\<lambda>source. case parse_router_advertisement buf source of
                              Inl _ \<Rightarrow> Err ''bad RA'' | Inr ra \<Rightarrow> Ok (Some ra))
      in case from of
           NoSender \<Rightarrow> if byte_or_zero buf 0 = ICMPV6_ROUTER_ADVERTISEMENT then parse 0 else Ok None
         | SenderV6 source \<Rightarrow> if byte_or_zero buf 0 \<noteq> ICMPV6_ROUTER_ADVERTISEMENT then Ok None else parse source
         | OtherSender \<Rightarrow> Ok None)"
| "ra_try_recv RaRecvError = Err ''recvfrom failed''"
| "ra_try_recv RaWouldBlock = Ok None"
| "ra_try_recv RaElapsed = Ok None"

fun next_monitoring_event ::
    "ra_recv list \<Rightarrow> slaac_manager \<Rightarrow> clock \<Rightarrow> (slaac_event \<times> slaac_manager \<times> ra_recv list \<times> clock) option" where
  "next_monitoring_event [] m ck = None"
| "next_monitoring_event (r # rs) m ck =
     (let (_, ck) = next_timer_deadline m ck; ck = later ck;
          (ev, m, ck) =
            (if r = RaElapsed then handle_timer_expiration m ck
             else case ra_try_recv r of Inr (Some ra) \<Rightarrow> process_unsolicited_ra ra m ck | _ \<Rightarrow> (None, m, ck))
      in case ev of
           Some e \<Rightarrow> Some (e, m, rs, ck)
         | None \<Rightarrow>
             if sm_address m = None \<and> sm_router m = None
             then Some (SlaacFailed ''all IPv6 configuration expired'', m, rs, ck)
             else next_monitoring_event rs m ck)"

text \<open>\<open>wait_for_ra\<close>; the deadline is checked with its own reading before every receive.\<close>

fun wait_for_ra :: "nat \<Rightarrow> ra_recv list \<Rightarrow> clock \<Rightarrow> ((string + router_advertisement) \<times> ra_recv list \<times> clock) option" where
  "wait_for_ra deadline rs ck =
     (if deadline \<le> now ck then Some (Err ''timeout waiting for RA'', rs, later ck)
      else case rs of
        [] \<Rightarrow> None
      | r # rs \<Rightarrow>
          if r = RaElapsed then Some (Err ''timeout waiting for RA'', rs, later ck)
          else (case ra_try_recv r of
              Inr (Some ra) \<Rightarrow> Some (Ok ra, rs, later ck)
            | Inr None \<Rightarrow> wait_for_ra deadline rs (later ck)
            | Inl e \<Rightarrow> Some (Err e, rs, later ck)))"

text \<open>The attempts; \<open>sends\<close> says whether each \<open>sendto\<close> succeeds.\<close>

fun solicit ::
    "bool list \<Rightarrow> ra_recv list \<Rightarrow> slaac_manager \<Rightarrow> clock
     \<Rightarrow> ((string + slaac_event) \<times> slaac_manager \<times> ra_recv list \<times> clock) option" where
  "solicit [] rs m ck = Some (Err ''no Router Advertisement received'', m, rs, ck)"
| "solicit (ok # oks) rs m ck =
     (if \<not> ok then Some (Err ''sendto failed'', m, rs, ck)
      else let (deadline, ck) = deadline_from_now RTR_SOLICITATION_INTERVAL ck in
        case wait_for_ra deadline rs ck of
          None \<Rightarrow> None
        | Some (Inr ra, rs, ck) \<Rightarrow> (case process_initial_ra ra m ck of (ev, m, ck) \<Rightarrow> Some (ev, m, rs, ck))
        | Some (Inl _, rs, ck) \<Rightarrow> solicit oks rs m ck)"

definition initial_solicitation ::
    "(nat \<Rightarrow> bool) \<Rightarrow> ra_recv list \<Rightarrow> slaac_manager \<Rightarrow> clock
     \<Rightarrow> ((string + slaac_event) \<times> slaac_manager \<times> ra_recv list \<times> clock) option" where
  "initial_solicitation sends rs m ck = solicit (map sends [1..<MAX_RTR_SOLICITATIONS + 1]) rs m ck"

definition slaac_next_event ::
    "(nat \<Rightarrow> bool) \<Rightarrow> ra_recv list \<Rightarrow> slaac_manager \<Rightarrow> clock
     \<Rightarrow> (slaac_event \<times> slaac_manager \<times> ra_recv list \<times> clock) option" where
  "slaac_next_event sends rs m ck =
     (if sm_solicited m then next_monitoring_event rs m ck
      else map_option (\<lambda>(r, m, rs, ck). (case r of Inr ev \<Rightarrow> ev | Inl e \<Rightarrow> SlaacFailed e, m, rs, ck))
             (initial_solicitation sends rs (m\<lparr>sm_solicited := True\<rparr>) ck))"

end
