(* ===== verification/Slaac_Properties.thy ===== *)
theory Slaac_Properties
  imports Slaac
begin

text \<open>
  The properties of IPv6 autoconfiguration: the advertisement codec, the lifetime rule, and the
  monitoring loop.
\<close>

section \<open>Advertisements\<close>

definition encode_ra :: "byte \<Rightarrow> byte \<Rightarrow> nat \<Rightarrow> nd_option list \<Rightarrow> bytes" where
  "encode_ra hop flags lifetime opts =
     [ICMPV6_ROUTER_ADVERTISEMENT, 0, 0, 0, hop, flags] @ to_be 2 lifetime @ zeros 8 @ concat (map encode_nd opts)"

lemma parse_encode_ra:
  assumes "list_all nd_ok opts" "lifetime < 2 ^ 16" "nd_ends rest"
  shows "parse_router_advertisement (encode_ra hop flags lifetime opts @ rest) source =
    Ok \<lparr>ra_hop_limit = unat hop, ra_managed = (flags AND 0x80 \<noteq> 0), ra_other = (flags AND 0x40 \<noteq> 0),
        ra_lifetime = lifetime, ra_source = source, ra_prefixes = nd_prefixes opts,
        ra_dns = nd_servers opts, ra_dns_lifetime = nd_lifetime 0 opts\<rparr>"
proof -
  obtain a b where ab: "to_be 2 lifetime = [a, b]"
    by (metis (no_types, lifting) One_nat_def Suc_1 length_0_conv length_Suc_conv length_to_be)
  then have "from_be [a, b] = lifetime" using from_be_to_be_id [of lifetime 2] assms(2) by simp
  moreover have "zeros 8 = [0, 0, 0, 0, 0, 0, 0, 0]" by (simp add: zeros_def numeral_eq_Suc)
  ultimately show ?thesis
    using ra_options_encode [OF assms(1,3)] ab
    by (simp add: parse_router_advertisement_def encode_ra_def fold_apply_nd)
qed

text \<open>
  C29: Parsing a router advertisement gives back what it was built from: hop limit, flags and router
  lifetime, all prefixes and all DNS servers in the order of their options, options of other types
  skipped, bytes after the last whole option ignored.  Several RDNSS options share one lifetime, that
  of the last.
\<close>

theorem ra_round_trip:
  assumes "list_all nd_ok opts" "lifetime < 2 ^ 16" "nd_ends rest"
  shows "parse_router_advertisement (encode_ra hop flags lifetime opts @ rest) source =
    Ok \<lparr>ra_hop_limit = unat hop, ra_managed = (flags AND 0x80 \<noteq> 0), ra_other = (flags AND 0x40 \<noteq> 0),
        ra_lifetime = lifetime, ra_source = source, ra_prefixes = nd_prefixes opts,
        ra_dns = nd_servers opts, ra_dns_lifetime = nd_lifetime 0 opts\<rparr>"
  by (rule parse_encode_ra [OF assms])

theorem ra_round_trip_witness:
  "\<exists>ra. parse_router_advertisement (encode_ra 64 0x40 1800 [NdRdnss 600 [1], NdRdnss 300 [2]]) 9 = Ok ra \<and>
     ra_dns ra = [1, 2] \<and> ra_dns_lifetime ra = 300 \<and> ra_lifetime ra = 1800"
  using ra_round_trip [of "[NdRdnss 600 [1], NdRdnss 300 [2]]" 1800 "[]" 64 "0x40" 9]
  by (simp add: nd_ends_def)

text \<open>
  The generated address: the bytes of the prefix, zeros up to the middle, and the interface identifier.
\<close>

lemma slaac_generate_bytes:
  assumes "slaac_generate prefix plen mac = Some a"
  shows "plen \<le> 64" "ipv6_octets a =
    take (plen div 8) (ipv6_octets prefix) @ zeros (8 - plen div 8) @ mac_to_eui64 mac"
proof -
  have le: "plen \<le> 64" and a: "a = ipv6_of (put_range (put_range (zeros 16) 0 (plen div 8)
      (take (plen div 8) (ipv6_octets prefix))) 8 16 (mac_to_eui64 mac))"
    using assms by (auto simp: slaac_generate_def Let_def split: if_splits)
  show "plen \<le> 64" by (rule le)
  have "plen div 8 \<le> 8" using le by simp
  then have "put_range (put_range (zeros 16) 0 (plen div 8) (take (plen div 8) (ipv6_octets prefix))) 8 16
      (mac_to_eui64 mac) = take (plen div 8) (ipv6_octets prefix) @ zeros (8 - plen div 8) @ mac_to_eui64 mac"
    by (simp add: put_range_def zeros_def min_def)
  moreover have "length (mac_to_eui64 mac) = 8" by (simp add: mac_to_eui64_def)
  ultimately show "ipv6_octets a = take (plen div 8) (ipv6_octets prefix) @ zeros (8 - plen div 8) @ mac_to_eui64 mac"
    using \<open>plen div 8 \<le> 8\<close> unfolding a by (simp add: zeros_def min_def)
qed

section \<open>Lifetimes\<close>


definition demo_address :: managed_address where
  "demo_address = \<lparr>ma_address = 1, ma_prefix_len = 64, ma_state = AddrPreferred,
     valid_until = 86400 * NANOS, preferred_until = 3600 * NANOS, ma_router = 2\<rparr>"


section \<open>The monitoring loop\<close>

lemma ex_value_refresh_dns [simp]:
  "map ex_value (fst (refresh_dns secs v es ck)) = (if v \<in> ex_value ` set es then map ex_value es else map ex_value es @ [v])"
  by (induction secs v es ck rule: refresh_dns.induct)
    (auto simp: expiring_new_def refresh_lifetime_def split: prod.splits)

text \<open>The parts of the manager that a handler may change.\<close>

definition loses_only :: "slaac_manager \<Rightarrow> slaac_manager \<Rightarrow> bool" where
  "loses_only m m' \<longleftrightarrow> (sm_address m = None \<longrightarrow> sm_address m' = None) \<and> (sm_router m = None \<longrightarrow> sm_router m' = None)
     \<and> sm_solicited m' = sm_solicited m"

definition reports_loss :: "slaac_event option \<Rightarrow> bool" where
  "reports_loss ev \<longleftrightarrow> (\<forall>a l g d. ev \<noteq> Some (SlaacConfigured a l g d))"

lemma loses_only_refl [simp]: "loses_only m m"
  by (simp add: loses_only_def)

lemma loses_only_trans: "loses_only m m' \<Longrightarrow> loses_only m' m'' \<Longrightarrow> loses_only m m''"
  by (simp add: loses_only_def)

lemma expire_dns_loses: "expire_dns m ck = (ev, m', ck') \<Longrightarrow> loses_only m m' \<and> reports_loss ev"
  by (auto simp: expire_dns_def loses_only_def reports_loss_def Let_def split: prod.splits if_splits)

lemma handle_timer_loses:
  "handle_timer_expiration m ck = (ev, m', ck') \<Longrightarrow> loses_only m m' \<and> reports_loss ev"
  unfolding handle_timer_expiration_def Let_def
  by (auto simp: loses_only_def reports_loss_def split: prod.splits option.splits if_splits dest!: expire_dns_loses)

lemma refresh_address_loses: "refresh_address_from_ra ra m ck = (r, m', ck') \<Longrightarrow> loses_only m m'"
  by (auto simp: refresh_address_from_ra_def loses_only_def Let_def split: option.splits prod.splits)

lemma process_unsolicited_loses:
  assumes "process_unsolicited_ra ra m ck = (ev, m', ck')"
  shows "loses_only m m' \<and> reports_loss ev"
proof -
  let ?mine = "case sm_router m of Some r \<Rightarrow> ex_value r = ra_source ra | None \<Rightarrow> False"
  define mc where "mc = (case sm_router m of
      Some r \<Rightarrow> if ?mine then let (r, ck) = refresh_lifetime (ra_lifetime ra) r ck in (m\<lparr>sm_router := Some r\<rparr>, ck)
                else (m, ck)
    | None \<Rightarrow> (m, ck))"
  obtain m1 ck1 where mc1: "mc = (m1, ck1)" by fastforce
  obtain b m2 ck2 where ref: "refresh_address_from_ra ra m1 ck1 = (b, m2, ck2)" by (meson prod_cases3)
  obtain m3 ck3 where dns: "refresh_dns_from_ra ra m2 ck2 = (m3, ck3)" by fastforce
  have l1: "loses_only m m1"
    using mc1 by (auto simp: mc_def loses_only_def split: option.splits if_splits prod.splits)
  have l2: "loses_only m m2" by (rule loses_only_trans [OF l1 refresh_address_loses [OF ref]])
  have l3: "loses_only m m3"
    using dns l2 by (auto simp: refresh_dns_from_ra_def loses_only_def split: prod.splits)
  show ?thesis
    using assms l2 l3 mc1 ref dns
    unfolding process_unsolicited_ra_def Let_def mc_def [unfolded Let_def, symmetric]
    by (auto simp: reports_loss_def loses_only_def split: if_splits)
qed

text \<open>Without address and router, a handler can only report servers.\<close>

definition bare :: "slaac_manager \<Rightarrow> bool" where
  "bare m \<longleftrightarrow> sm_address m = None \<and> sm_router m = None"

definition dns_only :: "slaac_event option \<Rightarrow> bool" where
  "dns_only ev \<longleftrightarrow> ev = None \<or> (\<exists>servers. ev = Some (SlaacDnsUpdated servers))"

lemma handle_timer_bare: "bare m \<Longrightarrow> handle_timer_expiration m ck = (ev, m', ck') \<Longrightarrow> dns_only ev"
  by (auto simp: bare_def dns_only_def handle_timer_expiration_def expire_dns_def Let_def split: prod.splits if_splits)

lemma process_unsolicited_bare: "bare m \<Longrightarrow> process_unsolicited_ra ra m ck = (ev, m', ck') \<Longrightarrow> dns_only ev"
  by (auto simp: bare_def dns_only_def process_unsolicited_ra_def refresh_address_from_ra_def Let_def
      split: prod.splits if_splits)

text \<open>
  C31: The monitoring loop only loses configuration.  Whatever is received or expires, it never
  reports a configured address, an address or router that is gone stays gone, and a manager that has
  neither reports no more than DNS servers before it gives up.  The manager counts itself as
  solicited before the solicitation has finished, so one that is interrupted there is in this state.
\<close>

theorem monitoring_only_loses:
  assumes "slaac_next_event sends rs m ck = Some (ev, m', rs', ck')" "sm_solicited m"
  shows "(\<forall>a l g d. ev \<noteq> SlaacConfigured a l g d)
    \<and> (sm_address m = None \<longrightarrow> sm_address m' = None)
    \<and> (sm_router m = None \<longrightarrow> sm_router m' = None)
    \<and> sm_solicited m'
    \<and> (sm_address m = None \<and> sm_router m = None \<longrightarrow>
        (\<exists>reason. ev = SlaacFailed reason) \<or> (\<exists>servers. ev = SlaacDnsUpdated servers))"
proof -
  have "next_monitoring_event rs m ck = Some (ev, m', rs', ck') \<Longrightarrow> loses_only m m' \<and> reports_loss (Some ev)
      \<and> (sm_address m = None \<and> sm_router m = None \<longrightarrow>
          (\<exists>reason. ev = SlaacFailed reason) \<or> (\<exists>servers. ev = SlaacDnsUpdated servers))" for rs m ck
  proof (induction rs m ck rule: next_monitoring_event.induct)
    case (2 r rs m ck)
    obtain d ck1 where nd: "next_timer_deadline m ck = (d, ck1)" by fastforce
    obtain e m2 ck2 where step: "(if r = RaElapsed then handle_timer_expiration m (later ck1)
        else case ra_try_recv r of Inr (Some ra) \<Rightarrow> process_unsolicited_ra ra m (later ck1) | _ \<Rightarrow> (None, m, later ck1)) = (e, m2, ck2)"
      by (meson prod_cases3)
    have l: "loses_only m m2 \<and> reports_loss e"
      using step by (auto simp: reports_loss_def split: if_splits sum.splits option.splits
          dest!: handle_timer_loses process_unsolicited_loses)
    have b: "bare m2 \<and> dns_only e" if "bare m"
    proof -
      have "dns_only e"
        using step handle_timer_bare [OF that] process_unsolicited_bare [OF that]
        by (cases "r = RaElapsed") (auto simp: dns_only_def split: sum.splits option.splits)
      then show ?thesis using l that by (simp add: bare_def loses_only_def)
    qed
    show ?case
    proof (cases e)
      case (Some x)
      then show ?thesis using "2.prems" nd step l b by (auto simp: dns_only_def bare_def)
    next
      case None
      show ?thesis
      proof (cases "bare m2")
        case True
        then have "ev = SlaacFailed ''all IPv6 configuration expired''" "m' = m2"
          using "2.prems" nd step None by (auto simp: bare_def)
        then show ?thesis using l by (simp add: reports_loss_def)
      next
        case False
        then have rec: "next_monitoring_event rs m2 ck2 = Some (ev, m', rs', ck')"
          using "2.prems" nd step None by (auto simp: bare_def)
        have "loses_only m2 m' \<and> reports_loss (Some ev)"
          using "2.IH" [OF nd [symmetric] refl refl step [symmetric] refl refl None] False rec by (auto simp: bare_def)
        then show ?thesis using l b False loses_only_trans by (auto simp: bare_def)
      qed
    qed
  qed simp
  with assms show ?thesis by (auto simp: slaac_next_event_def loses_only_def reports_loss_def)
qed

definition demo_slaac :: slaac_manager where
  "demo_slaac = \<lparr>sm_mac = [0, 0x1a, 0x2b, 0x3c, 0x4d, 0x5e], sm_solicited = True,
     sm_config = \<lparr>cfg_ipv6 = True, cfg_dns = [V6 5], cfg_interfaces = []\<rparr>,
     sm_address = None, sm_router = None, sm_dns = []\<rparr>"

theorem monitoring_only_loses_witness:
  "\<exists>ev m'. slaac_next_event (\<lambda>_. True) [RaPacket (encode_ra 64 0 1800 [NdPrefix \<lparr>pi_prefix = 0, pi_len = 64,
       pi_autonomous = True, pi_valid = 7200, pi_preferred = 3600\<rparr>]) (SenderV6 2)] demo_slaac (\<lambda>_. 0)
       = Some (ev, m', [], \<lambda>_. 0) \<and> (\<exists>reason. ev = SlaacFailed reason) \<and> sm_address m' = None"
proof -
  let ?opts = "[NdPrefix \<lparr>pi_prefix = 0, pi_len = 64, pi_autonomous = True, pi_valid = 7200, pi_preferred = 3600\<rparr>]"
  let ?buf = "encode_ra 64 0 1800 ?opts"
  have "byte_or_zero ?buf 0 = ICMPV6_ROUTER_ADVERTISEMENT" by (simp add: encode_ra_def byte_or_zero_def)
  moreover have "parse_router_advertisement ?buf 2 =
      Ok \<lparr>ra_hop_limit = 64, ra_managed = False, ra_other = False, ra_lifetime = 1800, ra_source = 2,
          ra_prefixes = nd_prefixes ?opts, ra_dns = [], ra_dns_lifetime = 0\<rparr>"
    using parse_encode_ra [of ?opts 1800 "[]" 64 0 2] by (simp add: nd_ends_def)
  ultimately have ev: "slaac_next_event (\<lambda>_. True) [RaPacket ?buf (SenderV6 2)] demo_slaac (\<lambda>_. 0) =
      Some (SlaacFailed ''all IPv6 configuration expired'', demo_slaac, [], \<lambda>_. 0)"
    by (simp add: slaac_next_event_def demo_slaac_def next_timer_deadline_def deadline_from_now_def Let_def
        process_unsolicited_ra_def refresh_address_from_ra_def add_secs_def checked_add_def instant_max_def NANOS_def)
  from monitoring_only_loses [OF this] show ?thesis using ev by (auto simp: demo_slaac_def)
qed

section \<open>Fallback servers\<close>

text \<open>A later point of the same clock.\<close>

definition tail_of :: "clock \<Rightarrow> clock \<Rightarrow> bool" where
  "tail_of ck ck' \<longleftrightarrow> (\<exists>k. ck' = (\<lambda>n. ck (n + k)))"

lemma tail_of_refl [simp]: "tail_of ck ck"
  unfolding tail_of_def by (rule exI [of _ 0]) simp

lemma tail_of_later [simp]: "tail_of ck (later ck)"
  unfolding tail_of_def later_def by (rule exI [of _ 1]) simp

lemma tail_of_trans: "tail_of a b \<Longrightarrow> tail_of b c \<Longrightarrow> tail_of a c"
  unfolding tail_of_def by (auto simp: add.assoc)

lemma tail_of_ok: "tail_of ck ck' \<Longrightarrow> clock_ok ck \<Longrightarrow> clock_ok ck'"
  by (auto simp: tail_of_def clock_ok_def mono_def)

lemma tail_of_now: "tail_of ck ck' \<Longrightarrow> clock_ok ck \<Longrightarrow> now ck \<le> now ck'"
  by (auto simp: tail_of_def clock_ok_def mono_def now_def)

lemma tail_of_less: "tail_of ck ck' \<Longrightarrow> \<forall>k. ck k < L \<Longrightarrow> \<forall>k. ck' k < L"
  by (auto simp: tail_of_def)

lemma expiring_all_u64_max:
  assumes "clock_ok ck" "expiring_all u64_max vs ck = (es, ck')"
  shows "map ex_value es = vs \<and> tail_of ck ck' \<and> (\<forall>e \<in> set es. expires_at e \<le> now ck')"
  using assms
proof (induction vs arbitrary: ck es)
  case (Cons v vs)
  obtain fs where fs: "expiring_all u64_max vs (later (later ck)) = (fs, ck')"
      "es = \<lparr>ex_value = v, expires_at = now (later ck)\<rparr> # fs"
    using Cons.prems(2)
    by (auto simp: expiring_new_def deadline_from_now_def add_secs_u64_max Let_def split: prod.splits)
  have ih: "map ex_value fs = vs" "tail_of (later (later ck)) ck'" "\<forall>e \<in> set fs. expires_at e \<le> now ck'"
    using Cons.IH [OF _ fs(1)] Cons.prems(1) by simp_all
  have t: "tail_of (later ck) ck'" by (rule tail_of_trans [OF tail_of_later ih(2)])
  then show ?case
    using ih fs(2) tail_of_now [OF t] tail_of_trans [OF tail_of_later t] Cons.prems(1) by simp
qed simp

lemma retain_valid_due:
  assumes "clock_ok ck" "\<forall>e \<in> set es. expires_at e \<le> now ck"
  shows "fst (retain_valid es ck) = [] \<and> tail_of ck (snd (retain_valid es ck))"
  using assms
proof (induction es arbitrary: ck)
  case (Cons e es)
  have "\<forall>e \<in> set es. expires_at e \<le> now (later ck)"
    using Cons.prems now_later [of ck] by force
  from Cons.IH [OF _ this] Cons.prems show ?case
    using tail_of_trans [OF tail_of_later]
    by (auto simp: expiring_is_valid_def split: prod.splits)
qed simp

lemma fold_deadline_le:
  "e \<in> set es \<Longrightarrow> fold (\<lambda>e d. if expires_at e < d then expires_at e else d) es d \<le> expires_at e"
proof -
  let ?f = "\<lambda>e d. if expires_at e < d then expires_at e else d"
  have le: "fold ?f es d \<le> d" for es d
  proof (induction es arbitrary: d)
    case (Cons a es)
    from Cons [of "?f a d"] show ?case by (simp split: if_splits)
  qed simp
  show "e \<in> set es \<Longrightarrow> fold ?f es d \<le> expires_at e"
  proof (induction es arbitrary: d)
    case (Cons a es)
    then show ?case using le [of es "?f e d"] by (auto split: if_splits)
  qed simp
qed

text \<open>
  A manager whose only due timers are those of its fallback servers, on a clock that stays below the
  other lifetimes.
\<close>

definition spinning :: "nat \<Rightarrow> slaac_manager \<Rightarrow> clock \<Rightarrow> bool" where
  "spinning L m ck \<longleftrightarrow> clock_ok ck \<and> (\<forall>k. ck k < L) \<and> sm_dns m \<noteq> [] \<and>
     map ex_value (sm_dns m) = ipv6_dns (sm_config m) \<and> (\<forall>e \<in> set (sm_dns m). expires_at e \<le> now ck) \<and>
     (\<exists>a r. sm_address m = Some a \<and> ma_state a = AddrPreferred \<and> L \<le> valid_until a \<and> L \<le> preferred_until a \<and>
        sm_router m = Some r \<and> L \<le> expires_at r)"

definition timer_turn :: "slaac_manager \<times> clock \<Rightarrow> slaac_manager \<times> clock" where
  "timer_turn = (\<lambda>(m, ck). let (_, ck) = next_timer_deadline m ck; (_, m, ck) = handle_timer_expiration m (later ck)
                          in (m, ck))"

lemma next_timer_deadline_tail: "next_timer_deadline m ck = (d, ck') \<Longrightarrow> tail_of ck ck'"
  using tail_of_trans [OF tail_of_later tail_of_later, of ck]
  by (auto simp: next_timer_deadline_def deadline_from_now_def Let_def split: prod.splits option.splits)

lemma spinning_deadline: "spinning L m ck \<Longrightarrow> fst (next_timer_deadline m ck) \<le> now ck"
proof -
  assume s: "spinning L m ck"
  then obtain e where e: "e \<in> set (sm_dns m)" "expires_at e \<le> now ck"
    by (metis hd_in_set spinning_def)
  then show ?thesis
    using fold_deadline_le [OF e(1)] order_trans by (fastforce simp: next_timer_deadline_def Let_def split: prod.splits)
qed

lemma spinning_turn:
  assumes s: "spinning L m ck"
  shows "\<exists>d ck1 m' ck'. next_timer_deadline m ck = (d, ck1) \<and>
    handle_timer_expiration m (later ck1) = (None, m', ck') \<and> spinning L m' ck'"
proof -
  obtain d ck1 where nd: "next_timer_deadline m ck = (d, ck1)" by fastforce
  obtain a r where ar: "sm_address m = Some a" "ma_state a = AddrPreferred" "L \<le> valid_until a"
      "L \<le> preferred_until a" "sm_router m = Some r" "L \<le> expires_at r"
    and ok: "clock_ok ck" "\<forall>k. ck k < L" and dns: "sm_dns m \<noteq> []" "map ex_value (sm_dns m) = ipv6_dns (sm_config m)"
      "\<forall>e \<in> set (sm_dns m). expires_at e \<le> now ck"
    using s by (auto simp: spinning_def)
  let ?c = "later (later (later (later ck1)))"
  have t1: "tail_of ck ck1" by (rule next_timer_deadline_tail [OF nd])
  have tc: "tail_of ck ?c" using t1 tail_of_trans [OF _ tail_of_later] by blast
  have below: "now (later ck1) < L" "now (later (later ck1)) < L" "now (later (later (later ck1))) < L"
    using tail_of_less [OF t1 ok(2)] by (simp_all add: now_def later_def)
  obtain es ck2 where rv: "retain_valid (sm_dns m) ?c = (es, ck2)" by fastforce
  have okc: "clock_ok ?c" by (rule tail_of_ok [OF tc ok(1)])
  have due: "\<forall>e \<in> set (sm_dns m). expires_at e \<le> now ?c"
    using dns(3) tail_of_now [OF tc ok(1)] order_trans by blast
  have es: "es = []" "tail_of ?c ck2" using retain_valid_due [OF okc due] rv by simp_all
  obtain fs ck3 where ea: "expiring_all u64_max (ipv6_dns (sm_config m)) ck2 = (fs, ck3)" by fastforce
  have ok2: "clock_ok ck2" by (rule tail_of_ok [OF es(2) okc])
  note fs = expiring_all_u64_max [OF ok2 ea]
  have ed: "expire_dns m ?c = (None, m\<lparr>sm_dns := fs\<rparr>, ck3)"
    using rv es(1) ea fs dns by (simp add: expire_dns_def)
  have h: "handle_timer_expiration m (later ck1) = (None, m\<lparr>sm_dns := fs\<rparr>, ck3)"
    using ar below ed by (simp add: handle_timer_expiration_def is_preferred_def address_is_valid_def)
  have t3: "tail_of ck ck3" using tc es(2) fs tail_of_trans by blast
  have "fs \<noteq> []" using fs dns(1,2) by auto
  then have "spinning L (m\<lparr>sm_dns := fs\<rparr>) ck3"
    using ar fs tail_of_ok [OF t3 ok(1)] tail_of_less [OF t3 ok(2)] by (simp add: spinning_def)
  then show ?thesis using nd h by blast
qed

lemma spinning_iterate: "spinning L m ck \<Longrightarrow> case (timer_turn ^^ n) (m, ck) of (m', ck') \<Rightarrow> spinning L m' ck'"
proof (induction n arbitrary: m ck)
  case (Suc n)
  obtain m' ck' where "timer_turn (m, ck) = (m', ck')" "spinning L m' ck'"
    using spinning_turn [OF Suc.prems] by (auto simp: timer_turn_def)
  with Suc.IH [of m' ck'] show ?case by (simp only: funpow_Suc_right comp_apply)
qed simp

text \<open>
  C32: After an advertisement without DNS servers, when servers are configured, the monitoring loop
  spins.  The fallback servers get a lifetime of \<open>u64::MAX\<close> seconds, which overflows an instant, so
  they expire when they are made.  As long as the address and the router are valid, every pass finds
  its deadline in the past, drops the servers, puts the same ones back and reports nothing.
\<close>

theorem fallback_dns_spins:
  assumes "clock_ok ck" "process_initial_ra ra m ck = (Ok ev, m0, ck0)"
    and "ra_dns ra = []" "ipv6_dns (sm_config m) \<noteq> []"
    and "sm_address m0 = Some a" "sm_router m0 = Some r"
    and "\<forall>k. ck k < min (valid_until a) (min (preferred_until a) (expires_at r))"
  shows "next_monitoring_event (replicate n RaElapsed) m0 ck0 = None \<and>
    (case (timer_turn ^^ n) (m0, ck0) of (m1, ck1) \<Rightarrow> fst (next_timer_deadline m1 ck1) \<le> now ck1)"
proof -
  let ?L = "min (valid_until a) (min (preferred_until a) (expires_at r))"
  obtain p address where p: "find usable_prefix (ra_prefixes ra) = Some p"
      "slaac_generate (pi_prefix p) (pi_len p) (sm_mac m) = Some address"
    using assms(2) by (auto simp: process_initial_ra_def split: option.splits)
  obtain r1 ck1 where r1: "expiring_new (ra_source ra) (ra_lifetime ra) (later ck) = (r1, ck1)" by fastforce
  obtain es ck2 where es: "expiring_all u64_max (ipv6_dns (sm_config m)) ck1 = (es, ck2)" by fastforce
  have m0: "m0 = m\<lparr>sm_address := Some (fst (managed_address_new address (pi_len p) (ra_source ra) (pi_valid p) (pi_preferred p) ck)),
      sm_router := Some r1, sm_dns := es\<rparr>" "ck0 = ck2"
    using assms(2,3) p r1 es by (auto simp: process_initial_ra_def managed_address_new_def Let_def)
  have t1: "tail_of ck ck1"
    using r1 tail_of_trans [OF tail_of_later tail_of_later] tail_of_trans [OF tail_of_later]
    by (auto simp: expiring_new_def deadline_from_now_def Let_def split: option.splits)
  have ok1: "clock_ok ck1" by (rule tail_of_ok [OF t1 assms(1)])
  note all = expiring_all_u64_max [OF ok1 es]
  have t2: "tail_of ck ck2" using t1 all tail_of_trans by blast
  have "ma_state a = AddrPreferred" "sm_config m0 = sm_config m"
    using assms(5) m0 by (auto simp: managed_address_new_def)
  moreover have "es \<noteq> []" using all assms(4) by auto
  ultimately have spin: "spinning ?L m0 ck0"
    using m0 all assms(5,6) tail_of_ok [OF t2 assms(1)] tail_of_less [OF t2 assms(7)]
    by (simp add: spinning_def min_le_iff_disj)
  have "next_monitoring_event (replicate n RaElapsed) m1 ck1 = None" if "spinning ?L m1 ck1" for m1 ck1
    using that
  proof (induction n arbitrary: m1 ck1)
    case (Suc n)
    from spinning_turn [OF Suc.prems] obtain d c m' c' where t: "next_timer_deadline m1 ck1 = (d, c)"
      "handle_timer_expiration m1 (later c) = (None, m', c')" "spinning ?L m' c'" by blast
    then have "sm_address m' \<noteq> None" by (auto simp: spinning_def)
    then show ?case using t Suc.IH [OF t(3)] by simp
  qed simp
  then show ?thesis
    using spin spinning_iterate [OF spin, of n] spinning_deadline by (auto split: prod.splits)
qed

theorem fallback_dns_spins_witness:
  "\<exists>ev m0. process_initial_ra \<lparr>ra_hop_limit = 64, ra_managed = False, ra_other = False, ra_lifetime = 1800,
       ra_source = 2, ra_prefixes = [\<lparr>pi_prefix = 0, pi_len = 64, pi_autonomous = True, pi_valid = 7200,
       pi_preferred = 3600\<rparr>], ra_dns = [], ra_dns_lifetime = 0\<rparr> demo_slaac (\<lambda>_. 0) = (Ok ev, m0, \<lambda>_. 0) \<and>
     next_monitoring_event (replicate 1000 RaElapsed) m0 (\<lambda>_. 0) = None"
proof -
  let ?ra = "\<lparr>ra_hop_limit = 64, ra_managed = False, ra_other = False, ra_lifetime = 1800,
       ra_source = 2, ra_prefixes = [\<lparr>pi_prefix = 0, pi_len = 64, pi_autonomous = True, pi_valid = 7200,
       pi_preferred = 3600\<rparr>], ra_dns = [], ra_dns_lifetime = 0\<rparr>"
  have add: "add_secs 0 7200 = Some (7200 * NANOS)" "add_secs 0 3600 = Some (3600 * NANOS)"
      "add_secs 0 1800 = Some (1800 * NANOS)"
    by (simp_all add: add_secs_def checked_add_def instant_max_def NANOS_def)
  obtain g where g: "slaac_generate 0 64 (sm_mac demo_slaac) = Some g" by (simp add: slaac_generate_def Let_def)
  obtain ev m0 where i: "process_initial_ra ?ra demo_slaac (\<lambda>_. 0) = (Ok ev, m0, \<lambda>_. 0)"
      "sm_address m0 = Some \<lparr>ma_address = g, ma_prefix_len = 64, ma_state = AddrPreferred,
         valid_until = 7200 * NANOS, preferred_until = 3600 * NANOS, ma_router = 2\<rparr>"
      "sm_router m0 = Some \<lparr>ex_value = 2, expires_at = 1800 * NANOS\<rparr>"
    using g by (simp add: process_initial_ra_def usable_prefix_def managed_address_new_def add_or_now_def add
        expiring_new_def deadline_from_now_def Let_def demo_slaac_def ipv6_dns_def add_secs_u64_max)
  have "ipv6_dns (sm_config demo_slaac) \<noteq> []" by (simp add: demo_slaac_def ipv6_dns_def)
  then show ?thesis
    using fallback_dns_spins [OF _ i(1) _ _ i(2,3), of 1000] i by (auto simp: NANOS_def)
qed

end
