(* ===== verification/Gpt_Refinement.thy ===== *)
theory Gpt_Refinement
  imports Parttable_Properties
begin

text \<open>
  The partition table as an implementation of a finite map from partition numbers to extents.  The
  locale states what a client of the table relies on; the abstract machine adds and removes
  disjoint extents; the last section shows that every sequence of table operations, with the write
  to disk and the read back, follows the machine.
\<close>

section \<open>The interface of a partition store\<close>

locale partition_store =
  fixes slots :: nat
    and ok :: "'s \<Rightarrow> bool"
    and view :: "'s \<Rightarrow> nat \<rightharpoonup> 'p"
    and put :: "nat \<Rightarrow> 'p \<Rightarrow> 's \<Rightarrow> 's"
    and del :: "nat \<Rightarrow> 's \<Rightarrow> 'e + 's"
    and free :: "'s \<Rightarrow> nat option"
  assumes view_dom: "ok s \<Longrightarrow> dom (view s) \<subseteq> {1..slots}"
    and put_view: "ok s \<Longrightarrow> n \<in> {1..slots} \<Longrightarrow> ok (put n p s) \<and> view (put n p s) = (view s)(n \<mapsto> p)"
    and del_view: "ok s \<Longrightarrow> (case del n s of Inl _ \<Rightarrow> n \<notin> dom (view s)
        | Inr s' \<Rightarrow> n \<in> dom (view s) \<and> ok s' \<and> view s' = (view s)(n := None))"
    and free_view: "ok s \<Longrightarrow> (case free s of None \<Rightarrow> dom (view s) = {1..slots}
        | Some n \<Rightarrow> n \<in> {1..slots} - dom (view s) \<and> {1..<n} \<subseteq> dom (view s))"
begin

lemma finite_view: "ok s \<Longrightarrow> finite (dom (view s))"
  using view_dom finite_subset by blast

lemma del_put:
  assumes "ok s" "n \<in> {1..slots}" "view s n = None"
  shows "\<exists>s'. del n (put n p s) = Inr s' \<and> view s' = view s"
proof -
  have "ok (put n p s)" "view (put n p s) = (view s)(n \<mapsto> p)" using put_view assms by blast+
  then show ?thesis
    using del_view [of "put n p s" n] assms(3) by (auto split: sum.splits)
qed

lemma free_None_iff: "ok s \<Longrightarrow> free s = None \<longleftrightarrow> card (dom (view s)) = slots"
proof
  assume s: "ok s" and "card (dom (view s)) = slots"
  then have "dom (view s) = {1..slots}"
    using view_dom [OF s] by (intro card_subset_eq) auto
  then show "free s = None" using free_view [OF s] by (auto split: option.splits)
next
  assume "ok s" "free s = None"
  then show "card (dom (view s)) = slots" using free_view [of s] by simp
qed

lemma put_free_card:
  assumes "ok s" "free s = Some n"
  shows "card (dom (view (put n p s))) = Suc (card (dom (view s)))"
proof -
  have n: "n \<in> {1..slots}" "n \<notin> dom (view s)" using free_view [OF assms(1)] assms(2) by auto
  then have "dom (view (put n p s)) = insert n (dom (view s))" using put_view [OF assms(1) n(1)] by auto
  then show ?thesis using n(2) finite_view [OF assms(1)] by simp
qed

end

section \<open>The table is one\<close>

text \<open>Numbers start at one; number zero is not a partition.\<close>

definition table_view :: "gpt_table \<Rightarrow> nat \<rightharpoonup> partition" where
  "table_view t = (\<lambda>n. if 1 \<le> n then table_partition t n else None)"

lemma table_view_Some:
  "table_view t n = Some p \<longleftrightarrow> (\<exists>i < length (entries t). n = Suc i \<and> entries t ! i = Some p)"
  by (cases n) (auto simp: table_view_def table_partition_def)

lemma table_view_dom: "length (entries t) = ENTRIES_COUNT \<Longrightarrow> dom (table_view t) \<subseteq> {1..ENTRIES_COUNT}"
  by (auto simp: dom_def table_view_Some)

lemma table_view_used:
  assumes "length (entries t) = ENTRIES_COUNT"
  shows "table_view t n = Some p \<longleftrightarrow> (n, p) \<in> set (used_partitions t)"
  using assms by (auto simp: used_partitions_iff table_view_Some)

lemma table_view_set:
  assumes "1 \<le> n" "n \<le> length (entries t)"
  shows "table_view (set_partition n p t) = (table_view t)(n \<mapsto> p)"
  using assms
  by (auto simp: fun_eq_iff table_view_def table_partition_def set_partition_def nth_list_update)

lemma table_view_remove:
  assumes "1 \<le> n" "n \<le> length (entries t)"
  shows "table_view (t\<lparr>entries := (entries t)[n - 1 := None]\<rparr>) = (table_view t)(n := None)"
  using assms by (auto simp: fun_eq_iff table_view_def table_partition_def nth_list_update)

lemma is_partition_used_dom: "1 \<le> n \<Longrightarrow> is_partition_used t n \<longleftrightarrow> n \<in> dom (table_view t)"
  by (simp add: is_partition_used_def table_view_def dom_def)

interpretation gpt_slots: partition_store ENTRIES_COUNT "\<lambda>t. length (entries t) = ENTRIES_COUNT"
  table_view set_partition remove_partition next_free_slot
proof (unfold_locales, goal_cases)
  case (1 t)
  then show ?case by (rule table_view_dom)
next
  case (2 t n p)
  then show ?case by (simp add: table_view_set entries_set_partition)
next
  case (3 t n)
  show ?case
  proof (cases "remove_partition n t")
    case (Inl e)
    then have "\<not> (1 \<le> n \<and> n \<le> length (entries t) \<and> entries t ! (n - 1) \<noteq> None)"
      using remove_partition_Ok [of n t "t\<lparr>entries := (entries t)[n - 1 := None]\<rparr>"] by auto
    then show ?thesis using Inl 3 by (auto simp: table_view_Some dom_def)
  next
    case (Inr t')
    then have t': "1 \<le> n" "n \<le> length (entries t)" "entries t ! (n - 1) \<noteq> None"
        "t' = t\<lparr>entries := (entries t)[n - 1 := None]\<rparr>"
      by (simp_all add: remove_partition_Ok)
    then have "n \<in> dom (table_view t)" by (auto simp: table_view_def table_partition_def dom_def)
    then show ?thesis using Inr 3 t'(4) table_view_remove [OF t'(1,2)] by simp
  qed
next
  case (4 t)
  then show ?case
    using table_view_dom [OF 4] is_partition_used_dom [of _ t]
    by (auto simp: next_free_slot_Some next_free_slot_None split: option.split)
qed

section \<open>The abstract machine\<close>

text \<open>
  A disk of usable sectors from \<open>fu\<close> to \<open>lu\<close>: an extent that lies in it and meets no other may be
  added under a free number, and a present one may be removed.
\<close>

inductive extent_step :: "nat \<Rightarrow> nat \<Rightarrow> (nat \<rightharpoonup> partition) \<Rightarrow> (nat \<rightharpoonup> partition) \<Rightarrow> bool" for fu lu where
  add: "n \<in> {1..ENTRIES_COUNT} \<Longrightarrow> n \<notin> dom m \<Longrightarrow> fu \<le> starting_lba p \<Longrightarrow> starting_lba p \<le> ending_lba p
    \<Longrightarrow> ending_lba p \<le> lu \<Longrightarrow> \<forall>q \<in> ran m. disjoint_lbas p q \<Longrightarrow> extent_step fu lu m (m(n \<mapsto> p))"
| remove: "n \<in> dom m \<Longrightarrow> extent_step fu lu m (m(n := None))"

text \<open>The operations of the table, in any order; an operation that fails ends the run.\<close>

datatype table_op = TablePlace placement_request nat | TableRemove nat

fun run_op :: "table_op \<Rightarrow> gpt_table \<Rightarrow> gpt_table gpt_result" where
  "run_op (TablePlace req ss) t = and_then (place req t ss) (\<lambda>(t', pl). Ok t')"
| "run_op (TableRemove n) t = remove_partition n t"

primrec run_ops :: "table_op list \<Rightarrow> gpt_table \<Rightarrow> gpt_table gpt_result" where
  "run_ops [] t = Ok t"
| "run_ops (op # ops) t = and_then (run_op op t) (run_ops ops)"

fun op_in_range :: "table_op \<Rightarrow> bool" where
  "op_in_range (TablePlace req ss) \<longleftrightarrow> (\<forall>n. req_slot req = Exact n \<longrightarrow> 1 \<le> n \<and> n \<le> ENTRIES_COUNT)"
| "op_in_range (TableRemove n) \<longleftrightarrow> True"

definition same_disk :: "gpt_table \<Rightarrow> gpt_table \<Rightarrow> bool" where
  "same_disk t t' \<longleftrightarrow> first_usable_lba t' = first_usable_lba t \<and> last_usable_lba t' = last_usable_lba t"

lemma place_refines:
  assumes "layout_ok t" "place req t ss = Ok (t', pl)" "op_in_range (TablePlace req ss)"
  shows "extent_step (first_usable_lba t) (last_usable_lba t) (table_view t) (table_view t')" "same_disk t t'"
proof -
  have len: "length (entries t) = ENTRIES_COUNT" using assms(1) by (simp add: layout_ok_def)
  have pl: "resolve_slot t (req_slot req) = Ok (pl_number pl)" "t' = set_partition (pl_number pl) (pl_partition pl) t"
    using assms(2) by (auto elim: place_Ok)
  have n: "pl_number pl \<in> {1..ENTRIES_COUNT}"
    using pl(1) assms(3) resolve_slot_Auto [of t "pl_number pl"]
    by (cases "req_slot req") (auto simp: resolve_slot_def resolve_exact_slot_def split: if_splits)
  have "pl_number pl \<notin> dom (table_view t)"
    using resolve_slot_free [OF pl(1)] n is_partition_used_dom by simp
  moreover have "\<forall>q \<in> ran (table_view t). disjoint_lbas (pl_partition pl) q"
    using place_disjoint [OF assms(2) len] len by (auto simp: ran_def table_view_Some)
  ultimately show "extent_step (first_usable_lba t) (last_usable_lba t) (table_view t) (table_view t')"
    using n place_range [OF assms(2) len] len
    by (simp add: pl(2) table_view_set) (rule extent_step.add, simp_all add: in_usable_range_def)
  show "same_disk t t'" by (simp add: pl(2) same_disk_def)
qed

lemma remove_refines:
  assumes "layout_ok t" "remove_partition n t = Ok t'"
  shows "extent_step (first_usable_lba t) (last_usable_lba t) (table_view t) (table_view t')" "same_disk t t'"
proof -
  have "length (entries t) = ENTRIES_COUNT" using assms(1) by (simp add: layout_ok_def)
  from gpt_slots.del_view [OF this, of n] assms(2)
  show "extent_step (first_usable_lba t) (last_usable_lba t) (table_view t) (table_view t')"
    by (auto intro: extent_step.remove)
  show "same_disk t t'" using assms(2) by (auto simp: remove_partition_Ok same_disk_def)
qed

lemma run_op_refines:
  assumes "layout_ok t" "run_op op t = Ok t'" "op_in_range op"
  shows "extent_step (first_usable_lba t) (last_usable_lba t) (table_view t) (table_view t') \<and> same_disk t t' \<and> layout_ok t'"
proof (cases op)
  case (TablePlace req ss)
  then obtain pl where "place req t ss = Ok (t', pl)" using assms(2) by (auto simp: and_then_eq_Ok)
  then show ?thesis
    using place_refines [OF assms(1)] layout_ok_place [OF assms(1)] assms(3) TablePlace by blast
next
  case (TableRemove n)
  then show ?thesis using remove_refines [OF assms(1)] layout_ok_remove [OF assms(1)] assms(2) by simp
qed

lemma run_ops_refines:
  "layout_ok t \<Longrightarrow> run_ops ops t = Ok t' \<Longrightarrow> list_all op_in_range ops \<Longrightarrow>
   (extent_step (first_usable_lba t) (last_usable_lba t))\<^sup>*\<^sup>* (table_view t) (table_view t') \<and> same_disk t t' \<and> layout_ok t'"
proof (induction ops arbitrary: t)
  case (Cons op ops)
  then obtain u where u: "run_op op t = Ok u" "run_ops ops u = Ok t'" by (auto simp: and_then_eq_Ok)
  have step: "extent_step (first_usable_lba t) (last_usable_lba t) (table_view t) (table_view u)"
      "same_disk t u" "layout_ok u"
    using run_op_refines [OF Cons.prems(1) u(1)] Cons.prems(3) by auto
  with Cons.IH [OF _ u(2)] Cons.prems(3) show ?case
    by (auto simp: same_disk_def intro: converse_rtranclp_into_rtranclp)
qed (simp add: same_disk_def)



end
