(* ===== verification/Rust_Text.thy ===== *)
theory Rust_Text
  imports Rust_Strings
begin

text \<open>
  Text as \<open>str\<close> has it: a string is its UTF-8 bytes, an index into it is usable only on a
  character boundary, and \<open>trim\<close> removes the characters with the Unicode property
  \<open>White_Space\<close>.  The lemmas say when a piece found by splitting and trimming can be read
  back from its byte offset and length.
\<close>

section \<open>Definitions\<close>

text \<open>\<open>str::is_char_boundary\<close> and \<open>str::get\<close> on a range of byte indices.\<close>

definition continuation :: "char \<Rightarrow> bool" where
  "continuation c = byte_between 0x80 0xBF c"

definition is_char_boundary :: "string \<Rightarrow> nat \<Rightarrow> bool" where
  "is_char_boundary s i \<longleftrightarrow>
     i = 0 \<or> i = length s \<or> (i < length s \<and> \<not> continuation (s ! i))"

definition str_get :: "string \<Rightarrow> nat \<Rightarrow> nat \<Rightarrow> string option" where
  "str_get s lo hi =
     (if lo \<le> hi \<and> hi \<le> length s \<and> is_char_boundary s lo \<and> is_char_boundary s hi
      then Some (take (hi - lo) (drop lo s)) else None)"

text \<open>The white space characters, each as its UTF-8 bytes.\<close>

definition whitespace :: "string list" where
  "whitespace =
     map (\<lambda>n. [char_of n]) [0x09, 0x0A, 0x0B, 0x0C, 0x0D, 0x20 :: nat]
     @ map (\<lambda>n. [CHR 0xC2, char_of n]) [0x85, 0xA0 :: nat]
     @ [[CHR 0xE1, CHR 0x9A, CHR 0x80]]
     @ map (\<lambda>n. [CHR 0xE2, CHR 0x80, char_of n])
         [0x80, 0x81, 0x82, 0x83, 0x84, 0x85, 0x86, 0x87, 0x88, 0x89, 0x8A, 0xA8, 0xA9, 0xAF :: nat]
     @ [[CHR 0xE2, CHR 0x81, CHR 0x9F], [CHR 0xE3, CHR 0x80, CHR 0x80]]"

definition strip_space :: "string \<Rightarrow> string option" where
  "strip_space s = find_map (\<lambda>w. strip_prefix w s) whitespace"

definition strip_space_end :: "string \<Rightarrow> string option" where
  "strip_space_end s = find_map (\<lambda>w. strip_suffix w s) whitespace"

lemma strip_space_Some: "strip_space s = Some r \<Longrightarrow> \<exists>w \<in> set whitespace. s = w @ r"
  unfolding strip_space_def using find_map_Some [of "\<lambda>w. strip_prefix w s"]
  by (force simp: strip_prefix_Some)

lemma strip_space_end_Some: "strip_space_end s = Some r \<Longrightarrow> \<exists>w \<in> set whitespace. s = r @ w"
  unfolding strip_space_end_def using find_map_Some [of "\<lambda>w. strip_suffix w s"]
  by (force simp: strip_suffix_Some)

lemma whitespace_nonempty: "[] \<notin> set whitespace"
  by (simp add: whitespace_def)

text \<open>\<open>str::trim_start\<close>, \<open>str::trim_end\<close> and \<open>str::trim\<close>.\<close>

function trim_start :: "string \<Rightarrow> string" where
  "trim_start s = (case strip_space s of None \<Rightarrow> s | Some r \<Rightarrow> trim_start r)"
  by auto
termination
  using strip_space_Some whitespace_nonempty
  by (relation "measure length") (fastforce simp: length_greater_0_conv)+

function trim_end :: "string \<Rightarrow> string" where
  "trim_end s = (case strip_space_end s of None \<Rightarrow> s | Some r \<Rightarrow> trim_end r)"
  by auto
termination
  using strip_space_end_Some whitespace_nonempty
  by (relation "measure length") (fastforce simp: length_greater_0_conv)+

declare trim_start.simps [simp del] trim_end.simps [simp del]

definition str_trim :: "string \<Rightarrow> string" where
  "str_trim s = trim_end (trim_start s)"

text \<open>
  \<open>str::split\<close>, \<open>split_once\<close> and \<open>rsplit_once\<close> at one ASCII character.
\<close>

fun split_at :: "char \<Rightarrow> string \<Rightarrow> string list" where
  "split_at d [] = [[]]"
| "split_at d (c # s) =
     (if c = d then [] # split_at d s
      else case split_at d s of [] \<Rightarrow> [[c]] | p # ps \<Rightarrow> (c # p) # ps)"

fun split_once :: "char \<Rightarrow> string \<Rightarrow> (string \<times> string) option" where
  "split_once d [] = None"
| "split_once d (c # s) =
     (if c = d then Some ([], s) else map_option (\<lambda>(a, b). (c # a, b)) (split_once d s))"

definition rsplit_once :: "char \<Rightarrow> string \<Rightarrow> (string \<times> string) option" where
  "rsplit_once d s = map_option (\<lambda>(a, b). (rev b, rev a)) (split_once d (rev s))"

text \<open>
  \<open>fs::read_to_string\<close> on what reading the file answered: bytes that are not UTF-8 are an
  error of their own.
\<close>

datatype io_error = OsError nat | InvalidUtf8

definition read_to_string :: "nat + string \<Rightarrow> io_error + string" where
  "read_to_string answer =
     (case answer of
        Inl errno \<Rightarrow> Err (OsError errno)
      | Inr bytes \<Rightarrow> if utf8_valid bytes then Ok bytes else Err InvalidUtf8)"

text \<open>\<open>u8::eq_ignore_ascii_case\<close>.\<close>

definition ascii_lower :: "char \<Rightarrow> char" where
  "ascii_lower c = (if byte_between 65 90 c then char_of (of_char c + 32 :: nat) else c)"

definition eq_ignore_ascii_case :: "char \<Rightarrow> char \<Rightarrow> bool" where
  "eq_ignore_ascii_case a b \<longleftrightarrow> ascii_lower a = ascii_lower b"

section \<open>Characters and boundaries\<close>

text \<open>One encoded character; a valid text is a sequence of them.\<close>

definition utf8_char :: "string \<Rightarrow> bool" where
  "utf8_char s =
     (case s of
        [a] \<Rightarrow> byte_between 0x00 0x7F a
      | [a, b] \<Rightarrow> byte_between 0xC2 0xDF a \<and> byte_between 0x80 0xBF b
      | [a, b, c] \<Rightarrow> byte_between 0xE0 0xEF a
          \<and> byte_between (if a = CHR 0xE0 then 0xA0 else 0x80) (if a = CHR 0xED then 0x9F else 0xBF) b
          \<and> byte_between 0x80 0xBF c
      | [a, b, c, d] \<Rightarrow> byte_between 0xF0 0xF4 a
          \<and> byte_between (if a = CHR 0xF0 then 0x90 else 0x80) (if a = CHR 0xF4 then 0x8F else 0xBF) b
          \<and> byte_between 0x80 0xBF c \<and> byte_between 0x80 0xBF d
      | _ \<Rightarrow> False)"

lemma byte_ranges:
  "byte_between 0xC2 0xDF a \<Longrightarrow> \<not> byte_between 0x00 0x7F a"
  "byte_between 0xE0 0xEF a \<Longrightarrow> \<not> byte_between 0x00 0x7F a \<and> \<not> byte_between 0xC2 0xDF a"
  "byte_between 0xF0 0xF4 a \<Longrightarrow>
     \<not> byte_between 0x00 0x7F a \<and> \<not> byte_between 0xC2 0xDF a \<and> \<not> byte_between 0xE0 0xEF a"
  by (simp_all add: byte_between_def)

lemma byte_between_cont:
  "byte_between (if P then 0xA0 else 0x80) (if Q then 0x9F else 0xBF) b \<Longrightarrow> continuation b"
  "byte_between (if P then 0x90 else 0x80) (if Q then 0x8F else 0xBF) b \<Longrightarrow> continuation b"
  by (simp_all add: byte_between_def continuation_def split: if_splits)

declare utf8_valid.simps(2) [simp del]

lemma utf8_valid_ascii: "byte_between 0x00 0x7F a \<Longrightarrow> utf8_valid (a # s) \<longleftrightarrow> utf8_valid s"
  by (simp add: utf8_valid.simps)

lemma utf8_valid_two:
  "byte_between 0xC2 0xDF a \<Longrightarrow> byte_between 0x80 0xBF b \<Longrightarrow>
    utf8_valid (a # b # s) \<longleftrightarrow> utf8_valid s"
  using byte_ranges(1) [of a] by (simp add: utf8_valid.simps(2) [of a])

lemma utf8_valid_three:
  "utf8_char [a, b, c] \<Longrightarrow> utf8_valid (a # b # c # s) \<longleftrightarrow> utf8_valid s"
  using byte_ranges(2) [of a] by (simp add: utf8_char_def utf8_valid.simps(2) [of a])

lemma utf8_valid_four:
  "utf8_char [a, b, c, d] \<Longrightarrow> utf8_valid (a # b # c # d # s) \<longleftrightarrow> utf8_valid s"
  using byte_ranges(3) [of a] by (simp add: utf8_char_def utf8_valid.simps(2) [of a])

lemma utf8_char_length:
  assumes "utf8_char ch"
  obtains a where "ch = [a]" "byte_between 0x00 0x7F a"
  | a b where "ch = [a, b]" "byte_between 0xC2 0xDF a" "byte_between 0x80 0xBF b"
  | a b c where "ch = [a, b, c]" "utf8_char [a, b, c]"
  | a b c d where "ch = [a, b, c, d]" "utf8_char [a, b, c, d]"
proof -
  consider "ch = []" | a where "ch = [a]" | a b where "ch = [a, b]" | a b c where "ch = [a, b, c]"
    | a b c d where "ch = [a, b, c, d]" | a b c d e s where "ch = a # b # c # d # e # s"
    by (metis list.exhaust)
  then show ?thesis
    using assms that by cases (simp_all add: utf8_char_def)
qed

lemma utf8_char_append:
  assumes "utf8_char ch"
  shows "utf8_valid (ch @ r) \<longleftrightarrow> utf8_valid r"
  using assms
  by (cases rule: utf8_char_length)
    (simp_all only: append.simps utf8_valid_ascii utf8_valid_two utf8_valid_three utf8_valid_four)

lemma utf8_valid_char:
  assumes "utf8_valid s" "s \<noteq> []"
  obtains ch r where "s = ch @ r" "utf8_char ch" "utf8_valid r"
proof -
  obtain a t where s: "s = a # t" using assms(2) by (cases s) auto
  note v = assms(1) [unfolded s utf8_valid.simps]
  consider "byte_between 0x00 0x7F a" | "\<not> byte_between 0x00 0x7F a" "byte_between 0xC2 0xDF a"
    | "\<not> byte_between 0x00 0x7F a" "\<not> byte_between 0xC2 0xDF a" "byte_between 0xE0 0xEF a"
    | "\<not> byte_between 0x00 0x7F a" "\<not> byte_between 0xC2 0xDF a" "\<not> byte_between 0xE0 0xEF a"
      "byte_between 0xF0 0xF4 a"
    using v by metis
  then show ?thesis
  proof cases
    case 1
    then show ?thesis using v that [of "[a]" t] s by (simp add: utf8_char_def)
  next
    case 2
    with v obtain b t' where "t = b # t'" "byte_between 0x80 0xBF b" "utf8_valid t'"
      by (simp split: list.splits)
    with 2 show ?thesis using that [of "[a, b]" t'] s by (simp add: utf8_char_def)
  next
    case 3
    with v obtain b c t' where "t = b # c # t'" "utf8_char [a, b, c]" "utf8_valid t'"
      by (simp add: utf8_char_def split: list.splits)
    then show ?thesis using that [of "[a, b, c]" t'] s by simp
  next
    case 4
    with v obtain b c d t' where "t = b # c # d # t'" "utf8_char [a, b, c, d]" "utf8_valid t'"
      by (simp add: utf8_char_def split: list.splits)
    then show ?thesis using that [of "[a, b, c, d]" t'] s by simp
  qed
qed

lemma utf8_char_shape:
  assumes "utf8_char ch"
  obtains c r where "ch = c # r" "\<not> continuation c" "\<forall>b \<in> set r. continuation b"
proof -
  have h: "\<not> continuation a" if "byte_between 0x00 0x7F a \<or> byte_between 0xC2 0xDF a
      \<or> byte_between 0xE0 0xEF a \<or> byte_between 0xF0 0xF4 a" for a
    using that by (auto simp: continuation_def byte_between_def)
  show ?thesis
    using assms
  proof (cases rule: utf8_char_length)
    case (1 a)
    then show ?thesis using that [of a "[]"] h by simp
  next
    case (2 a b)
    then show ?thesis using that [of a "[b]"] h by (simp add: continuation_def)
  next
    case (3 a b c)
    have "continuation b"
      using 3(2) byte_between_cont(1) [of "a = CHR 0xE0" "a = CHR 0xED" b]
      by (simp add: utf8_char_def)
    then show ?thesis
      using that [of a "[b, c]"] h [of a] 3 by (simp add: utf8_char_def continuation_def)
  next
    case (4 a b c d)
    have "continuation b"
      using 4(2) byte_between_cont(2) [of "a = CHR 0xF0" "a = CHR 0xF4" b]
      by (simp add: utf8_char_def)
    then show ?thesis
      using that [of a "[b, c, d]"] h [of a] 4 by (simp add: utf8_char_def continuation_def)
  qed
qed

lemma utf8_induct [consumes 1, case_names Nil Char]:
  assumes "utf8_valid s" "P []"
    "\<And>ch r. utf8_char ch \<Longrightarrow> utf8_valid r \<Longrightarrow> P r \<Longrightarrow> P (ch @ r)"
  shows "P s"
  using assms(1)
proof (induction s rule: length_induct)
  case (1 s)
  show ?case
  proof (cases "s = []")
    case False
    obtain ch r where c: "s = ch @ r" "utf8_char ch" "utf8_valid r"
      using utf8_valid_char 1(2) False by blast
    have "length r < length s" using c utf8_char_shape [OF c(2)] by auto
    then show ?thesis using assms(3) c 1(1) by blast
  qed (simp add: assms(2))
qed

lemma utf8_append: "utf8_valid a \<Longrightarrow> utf8_valid (a @ b) \<longleftrightarrow> utf8_valid b"
  by (induction a rule: utf8_induct) (simp_all add: utf8_char_append)

lemma utf8_split:
  assumes "utf8_valid (a @ c # b)" "\<not> continuation c"
  shows "utf8_valid a"
proof -
  have "utf8_valid s \<Longrightarrow> s = a @ c # b \<Longrightarrow> utf8_valid a" for s
  proof (induction s arbitrary: a rule: utf8_induct)
    case (Char ch r)
    obtain x t where x: "ch = x # t" "\<forall>y \<in> set t. continuation y"
      using utf8_char_shape [OF Char(1)] by metis
    show ?case
    proof (cases "length a < length ch")
      case True
      have "c = (ch @ r) ! length a" using Char(4) by simp
      also have "\<dots> = ch ! length a" using True by (simp add: nth_append)
      finally have "a \<noteq> [] \<Longrightarrow> c \<in> set t"
        using x True by (cases a) auto
      then show ?thesis using x assms(2) by (cases a) auto
    next
      case False
      then have t: "take (length ch) a = ch" "r = drop (length ch) a @ c # b"
        using arg_cong [OF Char(4), of "take (length ch)"] arg_cong [OF Char(4), of "drop (length ch)"]
        by simp_all
      have "utf8_valid (ch @ drop (length ch) a)"
        using Char(3) [OF t(2)] utf8_char_append [OF Char(1)] by simp
      then show ?thesis using t(1) append_take_drop_id [of "length ch" a] by simp
    qed
  qed simp
  then show ?thesis using assms(1) by blast
qed

lemma utf8_split_right:
  "utf8_valid (a @ c # b) \<Longrightarrow> \<not> continuation c \<Longrightarrow> utf8_valid (c # b)"
  using utf8_split utf8_append by blast

lemma utf8_hd: "utf8_valid (c # b) \<Longrightarrow> \<not> continuation c"
  by (erule utf8_valid_char) (auto elim: utf8_char_shape)

lemma boundary_append:
  assumes "utf8_valid b"
  shows "is_char_boundary (a @ b) (length a)"
  using assms utf8_hd by (cases b) (auto simp: is_char_boundary_def)

text \<open>A valid piece between valid pieces is what its offset and length select.\<close>

lemma str_get_piece:
  assumes "utf8_valid (a @ m @ b)" "utf8_valid a" "utf8_valid m"
  shows "str_get (a @ m @ b) (length a) (length a + length m) = Some m"
proof -
  have "utf8_valid (m @ b)" using assms(1,2) by (simp add: utf8_append)
  then have "utf8_valid b" using assms(3) by (simp add: utf8_append)
  then have "is_char_boundary (a @ m @ b) (length a + length m)"
    using boundary_append [of b "a @ m"] by simp
  then show ?thesis
    using boundary_append [OF \<open>utf8_valid (m @ b)\<close>, of a] by (simp add: str_get_def)
qed

section \<open>White space\<close>

lemma whitespace_valid: "w \<in> set whitespace \<Longrightarrow> utf8_valid w"
  by (auto simp: whitespace_def utf8_valid.simps byte_between_def)

lemma whitespace_hd: "w \<in> set whitespace \<Longrightarrow> \<exists>c r. w = c # r \<and> \<not> continuation c"
  using whitespace_valid whitespace_nonempty utf8_hd by (metis list.exhaust)

lemma strip_space_None: "strip_space s = None \<longleftrightarrow> (\<forall>w \<in> set whitespace. \<forall>r. s \<noteq> w @ r)"
  unfolding strip_space_def find_map_None
  by (metis not_None_eq strip_prefix_Some)

lemma strip_space_None_prefix: "strip_space (s @ t) = None \<Longrightarrow> strip_space s = None"
  by (auto simp: strip_space_None)

lemma trim_start_split:
  "\<exists>a. s = a @ trim_start s \<and> utf8_valid a \<and> strip_space (trim_start s) = None"
proof (induction s rule: trim_start.induct)
  case (1 s)
  show ?case
  proof (cases "strip_space s")
    case None
    then show ?thesis by (subst trim_start.simps) (auto simp: trim_start.simps [of s])
  next
    case (Some r)
    obtain w where w: "w \<in> set whitespace" "s = w @ r" using strip_space_Some [OF Some] by blast
    obtain a where a: "r = a @ trim_start r" "utf8_valid a" "strip_space (trim_start r) = None"
      using 1 [OF Some] by blast
    have s: "trim_start s = trim_start r" using Some by (simp add: trim_start.simps [of s])
    have "s = (w @ a) @ trim_start s" using w a(1) s by simp
    moreover have "utf8_valid (w @ a)" using a(2) w whitespace_valid by (simp add: utf8_append)
    ultimately show ?thesis using a(3) s by metis
  qed
qed

lemma trim_end_split: "\<exists>a. s = trim_end s @ a \<and> (utf8_valid s \<longrightarrow> utf8_valid (trim_end s))"
proof (induction s rule: trim_end.induct)
  case (1 s)
  show ?case
  proof (cases "strip_space_end s")
    case None
    then show ?thesis by (simp add: trim_end.simps [of s])
  next
    case (Some r)
    obtain w where w: "w \<in> set whitespace" "s = r @ w" using strip_space_end_Some [OF Some] by blast
    obtain a where a: "r = trim_end r @ a" "utf8_valid r \<longrightarrow> utf8_valid (trim_end r)"
      using 1 [OF Some] by blast
    have s: "trim_end s = trim_end r" using Some by (simp add: trim_end.simps [of s])
    have "utf8_valid s \<longrightarrow> utf8_valid r"
      using w whitespace_hd [OF w(1)] utf8_split by metis
    moreover have "s = trim_end s @ (a @ w)" using w a(1) s by simp
    ultimately show ?thesis using a(2) s by auto
  qed
qed

lemma trim_start_id: "strip_space s = None \<Longrightarrow> trim_start s = s"
  by (simp add: trim_start.simps)

text \<open>Trimming cuts a valid text into three valid parts, the middle one without leading space.\<close>

lemma str_trim_split:
  obtains a b where "s = a @ str_trim s @ b" "length a = length s - length (trim_start s)"
    "utf8_valid a" "utf8_valid s \<Longrightarrow> utf8_valid (str_trim s)" "strip_space (str_trim s) = None"
proof -
  obtain a where a: "s = a @ trim_start s" "utf8_valid a" "strip_space (trim_start s) = None"
    using trim_start_split by blast
  obtain b where b: "trim_start s = str_trim s @ b"
    "utf8_valid (trim_start s) \<longrightarrow> utf8_valid (str_trim s)"
    using trim_end_split [of "trim_start s"] by (auto simp: str_trim_def)
  show ?thesis
  proof
    show "s = a @ str_trim s @ b" using a(1) b(1) by simp
    show "length a = length s - length (trim_start s)" using arg_cong [OF a(1), of length] by simp
    show "utf8_valid a" by (rule a(2))
    show "utf8_valid (str_trim s)" if "utf8_valid s"
      using that a(1,2) b(2) utf8_append by metis
    show "strip_space (str_trim s) = None"
      using a(3) b(1) strip_space_None_prefix by metis
  qed
qed

text \<open>Text that begins and ends with a visible ASCII character is left as it is.\<close>

definition graphic :: "char \<Rightarrow> bool" where
  "graphic c = byte_between 0x21 0x7E c"

lemma whitespace_not_graphic:
  "w \<in> set whitespace \<Longrightarrow> \<not> graphic (hd w) \<and> \<not> graphic (last w)"
  by (auto simp: whitespace_def graphic_def byte_between_def)

lemma str_trim_graphic:
  assumes "s = [] \<or> graphic (hd s) \<and> graphic (last s)"
  shows "str_trim s = s"
proof -
  have w: "w \<noteq> [] \<and> \<not> graphic (hd w) \<and> \<not> graphic (last w)" if "w \<in> set whitespace" for w
    using that whitespace_not_graphic whitespace_nonempty by metis
  have "strip_space s = None"
    using strip_space_Some [of s] w assms by (cases "strip_space s") fastforce+
  moreover have "strip_space_end s = None"
    using strip_space_end_Some [of s] w assms by (cases "strip_space_end s") fastforce+
  ultimately show ?thesis by (simp add: str_trim_def trim_start_id trim_end.simps [of s])
qed

section \<open>Splitting\<close>

lemma split_once_Some: "split_once d s = Some (a, b) \<longleftrightarrow> s = a @ d # b \<and> d \<notin> set a"
proof (induction s arbitrary: a)
  case (Cons c s)
  show ?case
  proof (cases "c = d")
    case False
    have "split_once d (c # s) = Some (a, b) \<longleftrightarrow> (\<exists>a'. a = c # a' \<and> split_once d s = Some (a', b))"
      using False by (cases "split_once d s") auto
    then show ?thesis using Cons False by (cases a) auto
  qed (cases a; auto)
qed simp

lemma rsplit_once_Some: "rsplit_once d s = Some (a, b) \<longleftrightarrow> s = a @ d # b \<and> d \<notin> set b"
proof -
  have "rsplit_once d s = Some (a, b) \<longleftrightarrow> split_once d (rev s) = Some (rev b, rev a)"
    by (auto simp: rsplit_once_def)
  also have "\<dots> \<longleftrightarrow> rev s = rev b @ d # rev a \<and> d \<notin> set b"
    by (simp add: split_once_Some)
  also have "rev s = rev b @ d # rev a \<longleftrightarrow> s = a @ d # b"
    by (simp add: rev_swap)
  finally show ?thesis .
qed

lemma split_at_nonempty [simp]: "split_at d s \<noteq> []"
  by (cases s) (auto split: list.split)

lemma split_at_append: "d \<notin> set a \<Longrightarrow> split_at d (a @ d # b) = a # split_at d b"
  by (induction a) auto

lemma split_at_single: "d \<notin> set a \<Longrightarrow> split_at d a = [a]"
  by (induction a) auto

lemma split_at_cases:
  obtains "d \<notin> set s" | a b where "s = a @ d # b" "d \<notin> set a"
  by (meson split_list_first)

end
