(* ===== verification/Kmod_Deps.thy ===== *)
theory Kmod_Deps
  imports Rust_Text Rust_Paths Rust_Order
begin

text \<open>
  The module dependency database: \<open>libs/kmod/src/text.rs\<close> (byte spans into the text of the
  file) and \<open>libs/kmod/src/deps.rs\<close> (indexing \<open>modules.dep\<close>, lookup by binary search and the
  depth-first load order).  Offsets are byte offsets into a text in memory, below
  \<open>isize::MAX\<close>, so the saturating additions of the source are exact and written as sums.
\<close>

section \<open>Spans\<close>

record span =
  span_start :: nat
  span_len :: nat

definition text_slice :: "string \<Rightarrow> span \<Rightarrow> string" where
  "text_slice src span =
     (case str_get src (span_start span) (span_start span + span_len span) of
        None \<Rightarrow> [] | Some s \<Rightarrow> s)"

definition span_at :: "nat \<Rightarrow> string \<Rightarrow> span" where
  "span_at base raw =
     (let lead = length raw - length (trim_start raw)
      in \<lparr>span_start = base + lead, span_len = length (str_trim raw)\<rparr>)"

text \<open>Consecutive pieces with their offsets, one separator byte between two of them.\<close>

fun with_offsets :: "nat \<Rightarrow> string list \<Rightarrow> (string \<times> nat) list" where
  "with_offsets offset [] = []"
| "with_offsets offset (p # ps) = (p, offset) # with_offsets (offset + length p + 1) ps"

definition for_each_line :: "string \<Rightarrow> (string \<Rightarrow> nat \<Rightarrow> 'a \<Rightarrow> 'a) \<Rightarrow> 'a \<Rightarrow> 'a" where
  "for_each_line src callback = fold (\<lambda>(line, offset). callback line offset)
     (with_offsets 0 (split_at newline src))"

section \<open>Indexing\<close>

record dep_entry =
  ent_name :: span
  ent_path :: span
  ent_deps :: span

record dep_db =
  db_text :: string
  db_modules :: "dep_entry list"
  dep_names :: "span list"

definition stripped_name :: "string \<Rightarrow> string option" where
  "stripped_name filename =
     (case strip_suffix ''.ko.zst'' filename of
        Some n \<Rightarrow> Some n | None \<Rightarrow> strip_suffix ''.ko'' filename)"

definition key :: "string \<Rightarrow> string" where
  "key name = map (\<lambda>b. if b = CHR ''-'' then CHR ''_'' else b) name"

definition get_module_name :: "string \<Rightarrow> string option" where
  "get_module_name path =
     (let filename = file_name_of path in
      case stripped_name filename of
        None \<Rightarrow> None
      | Some name \<Rightarrow>
          if CHR ''-'' \<in> set name
          then Some (map (\<lambda>c. if c = CHR ''-'' then CHR ''_'' else c) name) else Some name)"

definition name_span :: "string \<Rightarrow> nat \<Rightarrow> span option" where
  "name_span path base =
     (let filename = file_name_of path in
      case stripped_name filename of
        None \<Rightarrow> None
      | Some name \<Rightarrow>
          Some \<lparr>span_start = base + (length path - length filename), span_len = length name\<rparr>)"

fun push_deps :: "nat \<Rightarrow> string list \<Rightarrow> span list \<Rightarrow> span list" where
  "push_deps dep_base [] names = names"
| "push_deps dep_base (dep # deps) names =
     push_deps (dep_base + length dep + 1) deps
       (case name_span dep dep_base of None \<Rightarrow> names | Some dep_name \<Rightarrow> names @ [dep_name])"

definition push_module ::
  "string \<Rightarrow> nat \<Rightarrow> dep_entry list \<times> span list \<Rightarrow> dep_entry list \<times> span list" where
  "push_module line offset st =
     (let (modules, names) = st;
          lead = length line - length (trim_start line);
          line = str_trim line in
      case split_once (CHR '':'') line of
        None \<Rightarrow> st
      | Some (raw_path, deps) \<Rightarrow>
          let path = str_trim raw_path; path_base = offset + lead in
          case name_span path path_base of
            None \<Rightarrow> st
          | Some name \<Rightarrow>
              let deps_start = length names;
                  names' = push_deps (path_base + length raw_path + 1) (split_at (CHR '' '') deps) names
              in (modules @ [\<lparr>ent_name = name, ent_path = span_at path_base raw_path,
                    ent_deps = \<lparr>span_start = deps_start, span_len = length names' - deps_start\<rparr>\<rparr>],
                  names'))"

definition index :: "string \<Rightarrow> dep_db" where
  "index src =
     (let (modules, names) = for_each_line src push_module ([], [])
      in \<lparr>db_text = src, db_modules = sort_by (\<lambda>left right.
              cmp (key (text_slice src (ent_name left))) (key (text_slice src (ent_name right)))) modules,
          dep_names = names\<rparr>)"

definition depdb_load :: "nat + string \<Rightarrow> io_error + dep_db" where
  "depdb_load answer = and_then (read_to_string answer) (\<lambda>src. Ok (index src))"

definition dep_find :: "dep_db \<Rightarrow> string \<Rightarrow> nat option" where
  "dep_find db module_name =
     binary_search_by (\<lambda>e. cmp (key (text_slice (db_text db) (ent_name e))) (key module_name))
       (db_modules db)"

definition get_path :: "dep_db \<Rightarrow> string \<Rightarrow> string option" where
  "get_path db module_name =
     map_option (\<lambda>i. text_slice (db_text db) (ent_path (db_modules db ! i))) (dep_find db module_name)"

section \<open>The load order\<close>

text \<open>The modules that the entry depends on and that the database has.\<close>

definition dep_indices :: "dep_db \<Rightarrow> dep_entry \<Rightarrow> nat list" where
  "dep_indices db e =
     List.map_filter (\<lambda>dep. dep_find db (text_slice (db_text db) dep))
       (take (span_len (ent_deps e)) (drop (span_start (ent_deps e)) (dep_names db)))"

text \<open>Each visit of a new module marks one more of them, which bounds the recursion.\<close>

definition unvisited :: "string list \<times> bool list \<Rightarrow> nat" where
  "unvisited st = length (filter Not (snd st))"

lemma unvisited_mark:
  assumes "i < length visited" "\<not> visited ! i"
  shows "unvisited (order, visited) = Suc (unvisited (order', visited[i := True]))"
proof -
  have v: "visited = take i visited @ False # drop (Suc i) visited"
    using assms id_take_nth_drop [of i visited] by simp
  have "visited[i := True] = take i visited @ True # drop (Suc i) visited"
    using assms(1) by (simp add: upd_conv_take_nth_drop)
  then show ?thesis by (subst v) (simp add: unvisited_def)
qed

function visit :: "dep_db \<Rightarrow> nat \<Rightarrow> string list \<times> bool list \<Rightarrow> string list \<times> bool list"
  and visit_deps :: "dep_db \<Rightarrow> nat list \<Rightarrow> string list \<times> bool list \<Rightarrow> string list \<times> bool list" where
  "visit db i (order, visited) =
     (if length visited \<le> i then (order, visited)
      else if visited ! i then (order, visited)
      else if length (db_modules db) \<le> i then (order, visited[i := True])
      else let e = db_modules db ! i;
               (order', visited') = visit_deps db (dep_indices db e) (order, visited[i := True])
           in (order' @ [text_slice (db_text db) (ent_path e)], visited'))"
| "visit_deps db [] st = st"
| "visit_deps db (d # ds) st = visit_deps db ds (visit db d st)"
  by pat_completeness auto
termination
proof -
  have shrink: "visit_visit_deps_dom (Inl (db, i, st)) \<Longrightarrow> unvisited (visit db i st) \<le> unvisited st"
    "visit_visit_deps_dom (Inr (db, ds, st)) \<Longrightarrow> unvisited (visit_deps db ds st) \<le> unvisited st"
    for db i ds st
  proof (induction db i st and db ds st rule: visit_visit_deps.pinduct)
    case (1 db i order visited)
    show ?case
    proof (cases "i < length visited \<and> \<not> visited ! i \<and> i < length (db_modules db)")
      case True
      have "unvisited (visit_deps db (dep_indices db (db_modules db ! i)) (order, visited[i := True]))
          \<le> unvisited (order, visited[i := True])"
        using 1(2) True by (metis not_less)
      moreover have "unvisited (order, visited[i := True]) \<le> unvisited (order, visited)"
        using unvisited_mark [of i visited order order] True by simp
      moreover have "snd (visit db i (order, visited))
          = snd (visit_deps db (dep_indices db (db_modules db ! i)) (order, visited[i := True]))"
        using True by (simp add: visit.psimps [OF 1(1)] Let_def split: prod.split)
      ultimately show ?thesis by (simp add: unvisited_def)
    next
      case False
      then show ?thesis
        using 1(1) unvisited_mark [of i visited order order]
        by (auto simp: visit.psimps not_less)
    qed
  next
    case (3 db d ds st)
    then show ?case by (simp add: visit_deps.psimps)
  qed (simp add: visit_deps.psimps)
  show ?thesis
  proof (relation "inv_image (less_than <*lex*> less_than)
      (\<lambda>x. case x of Inl (db, i, st) \<Rightarrow> (unvisited st, 0) | Inr (db, ds, st) \<Rightarrow> (unvisited st, Suc (length ds)))")
    fix db i order visited
    assume "\<not> length visited \<le> i" "\<not> visited ! i"
    then show "(Inr (db, dep_indices db x, order, visited[i := True]), Inl (db, i, order, visited))
      \<in> inv_image (less_than <*lex*> less_than)
        (\<lambda>x. case x of Inl (db, i, st) \<Rightarrow> (unvisited st, 0) | Inr (db, ds, st) \<Rightarrow> (unvisited st, Suc (length ds)))"
      for x
      using unvisited_mark [of i visited order order] by simp
  next
    fix db d ds st
    assume "visit_visit_deps_dom (Inl (db, d, st))"
    then have "unvisited (visit db d st) \<le> unvisited st" by (rule shrink(1))
    then show "(Inr (db, ds, visit db d st), Inr (db, d # ds, st))
      \<in> inv_image (less_than <*lex*> less_than)
        (\<lambda>x. case x of Inl (db, i, st) \<Rightarrow> (unvisited st, 0) | Inr (db, ds, st) \<Rightarrow> (unvisited st, Suc (length ds)))"
      by auto
  qed auto
qed

definition resolve_load_order :: "dep_db \<Rightarrow> string \<Rightarrow> string list option" where
  "resolve_load_order db module_name =
     map_option (\<lambda>start. fst (visit db start ([], replicate (length (db_modules db)) False)))
       (dep_find db module_name)"

end
