(* ===== verification/Kmod_Deps_Facts.thy ===== *)
theory Kmod_Deps_Facts
  imports Kmod_Deps
begin

text \<open>
  Lemmas on the dependency database: the spans of an indexed text select the pieces that
  splitting and trimming its lines gives, so the database represents the parsed lines in
  key order; and the depth-first visit lists each reachable module once, its dependencies
  first unless they are on a cycle with it.
\<close>

section \<open>Pieces of the text\<close>

definition stands_at :: "string \<Rightarrow> nat \<Rightarrow> string \<Rightarrow> bool" where
  "stands_at src off s \<longleftrightarrow>
     (\<exists>a b. src = a @ s @ b \<and> length a = off \<and> utf8_valid a \<and> utf8_valid s) \<and> utf8_valid src"

lemma text_slice_at: "stands_at src off s \<Longrightarrow> text_slice src \<lparr>span_start = off, span_len = length s\<rparr> = s"
  by (auto simp: stands_at_def text_slice_def str_get_piece)

lemma at_whole: "utf8_valid src \<Longrightarrow> stands_at src 0 src"
  unfolding stands_at_def by (intro conjI exI [of _ "[]"]) auto

lemma at_middle:
  assumes "stands_at src off (x @ y @ z)" "utf8_valid x" "utf8_valid y"
  shows "stands_at src (off + length x) y"
proof -
  obtain a b where t: "src = a @ (x @ y @ z) @ b" "length a = off" "utf8_valid a" "utf8_valid src"
    using assms(1) by (auto simp: stands_at_def)
  then have "src = (a @ x) @ y @ (z @ b)" by simp
  moreover have "utf8_valid (a @ x)" using t assms by (simp add: utf8_append)
  ultimately show ?thesis unfolding stands_at_def using assms(3) t(2,4) by (metis length_append)
qed

lemma at_valid: "stands_at src off s \<Longrightarrow> utf8_valid s"
  by (auto simp: stands_at_def)

lemma ascii_not_continuation: "byte_between 0 0x7F c \<Longrightarrow> \<not> continuation c"
  by (simp add: byte_between_def continuation_def)

lemma at_separator:
  assumes "stands_at src off (x @ d # z)" "byte_between 0 0x7F d"
  shows "stands_at src off x" "stands_at src (off + length x + 1) z"
proof -
  note v = at_valid [OF assms(1)] ascii_not_continuation [OF assms(2)]
  have x: "utf8_valid x" using v by (rule utf8_split)
  have z: "utf8_valid z"
    using utf8_split_right [OF v] utf8_valid_ascii [OF assms(2)] by simp
  show "stands_at src off x" using at_middle [of src off "[]" x "d # z"] assms(1) x by simp
  show "stands_at src (off + length x + 1) z"
    using at_middle [of src off "x @ [d]" z "[]"] assms x z by (simp add: utf8_append utf8_valid_ascii)
qed

lemma at_pieces:
  assumes "stands_at src off s" "byte_between 0 0x7F d"
  shows "\<forall>(p, o') \<in> set (with_offsets off (split_at d s)). stands_at src o' p"
  using assms(1)
proof (induction s arbitrary: off rule: length_induct)
  case (1 s)
  show ?case
  proof (cases rule: split_at_cases [of d s])
    case 1
    then show ?thesis using "1.prems" by (simp add: split_at_single)
  next
    case (2 a b)
    have "stands_at src off a" "stands_at src (off + length a + 1) b"
      using at_separator [OF _ assms(2)] 1(2) 2 by blast+
    moreover have "\<forall>(p, o') \<in> set (with_offsets (off + length a + 1) (split_at d b)). stands_at src o' p"
    proof -
      have "length b < length s" using 2 by simp
      then show ?thesis using 1(1) calculation(2) by blast
    qed
    ultimately show ?thesis using 2 by (simp add: split_at_append)
  qed
qed

lemma at_trim:
  assumes "stands_at src base raw"
  shows "stands_at src (base + (length raw - length (trim_start raw))) (str_trim raw)"
proof -
  obtain a b where t: "raw = a @ str_trim raw @ b" "length a = length raw - length (trim_start raw)"
    "utf8_valid a" "utf8_valid raw \<Longrightarrow> utf8_valid (str_trim raw)"
    using str_trim_split [of raw] by metis
  then show ?thesis
    using at_middle [of src base a "str_trim raw" b] assms at_valid [OF assms] by simp
qed

lemma span_at_slice: "stands_at src base raw \<Longrightarrow> text_slice src (span_at base raw) = str_trim raw"
  using text_slice_at [OF at_trim] by (simp add: span_at_def Let_def)

section \<open>Module names\<close>

abbreviation module_stem :: "string \<Rightarrow> string option" where
  "module_stem path \<equiv> stripped_name (file_name_of path)"

lemma file_name_split:
  obtains d where "path = d @ file_name_of path" "d = [] \<or> (\<exists>e. d = e @ ''/'')"
proof
  let ?d = "rev (dropWhile (\<lambda>c. c \<noteq> CHR ''/'') (rev path))"
  show "path = ?d @ file_name_of path"
    by (metis file_name_of_def rev_append rev_rev_ident takeWhile_dropWhile_id)
  show "?d = [] \<or> (\<exists>e. ?d = e @ ''/'')"
    using hd_dropWhile [of "\<lambda>c. c \<noteq> CHR ''/''" "rev path"]
    by (cases "dropWhile (\<lambda>c. c \<noteq> CHR ''/'') (rev path)") auto
qed

lemma stripped_name_Some: "stripped_name f = Some n \<Longrightarrow> \<exists>r. f = n @ CHR ''.'' # r"
  by (auto simp: stripped_name_def strip_suffix_Some split: option.splits)

lemma name_span_stem:
  assumes "stands_at src base path"
  shows "map_option (text_slice src) (name_span path base) = module_stem path"
proof (cases "module_stem path")
  case (Some n)
  obtain d where d: "path = d @ file_name_of path" "d = [] \<or> (\<exists>e. d = e @ ''/'')"
    by (rule file_name_split)
  have len: "length path - length (file_name_of path) = length d"
    using arg_cong [OF d(1), of length] by simp
  obtain r where r: "file_name_of path = n @ CHR ''.'' # r" using stripped_name_Some [OF Some] by blast
  have slash: "byte_between 0 0x7F (CHR ''/'')" and dot: "byte_between 0 0x7F (CHR ''.'')"
    by (simp_all add: byte_between_def)
  have "stands_at src (base + length d) (file_name_of path)"
    using d(2)
  proof
    assume "d = []" then show ?thesis using assms d(1) by simp
  next
    assume "\<exists>e. d = e @ ''/''"
    then obtain e where e: "d = e @ ''/''" by blast
    then have "path = e @ CHR ''/'' # file_name_of path" using d(1) by simp
    then show ?thesis using at_separator(2) [OF _ slash, of src base e] assms e by simp
  qed
  then have "stands_at src (base + length d) n"
    using at_separator(1) [OF _ dot, of src _ n r] r by simp
  then show ?thesis using Some text_slice_at by (simp add: name_span_def len)
qed (simp add: name_span_def)

lemma key_dash: "CHR ''-'' \<notin> set n \<Longrightarrow> key n = n"
  unfolding key_def by (rule map_idI) auto

lemma get_module_name_key: "get_module_name path = map_option key (module_stem path)"
  by (auto simp: get_module_name_def key_dash Let_def split: option.split) (simp add: key_def)

lemma key_idem [simp]: "key (key n) = key n"
  by (simp add: key_def)

section \<open>What an index represents\<close>

text \<open>One line of \<open>modules.dep\<close>: the module's name, its path and the names it depends on.\<close>

type_synonym module_line = "string \<times> string \<times> string list"

definition dep_line :: "string \<Rightarrow> module_line option" where
  "dep_line line =
     (case split_once (CHR '':'') (str_trim line) of
        None \<Rightarrow> None
      | Some (raw_path, deps) \<Rightarrow>
          map_option (\<lambda>name. (name, str_trim raw_path,
              List.map_filter module_stem (split_at (CHR '' '') deps)))
            (module_stem (str_trim raw_path)))"

definition entry_view :: "string \<Rightarrow> span list \<Rightarrow> dep_entry \<Rightarrow> module_line" where
  "entry_view src names e =
     (text_slice src (ent_name e), text_slice src (ent_path e),
      map (text_slice src) (take (span_len (ent_deps e)) (drop (span_start (ent_deps e)) names)))"

definition db_view :: "dep_db \<Rightarrow> module_line list" where
  "db_view db = map (entry_view (db_text db) (dep_names db)) (db_modules db)"

lemma push_deps_stems:
  assumes "\<forall>(p, o') \<in> set (with_offsets base ds). stands_at src o' p"
  shows "\<exists>new. push_deps base ds names = names @ new
    \<and> map (text_slice src) new = List.map_filter module_stem ds"
  using assms
proof (induction base ds names rule: push_deps.induct)
  case (2 base dep deps names)
  have "map_option (text_slice src) (name_span dep base) = module_stem dep"
    using 2(2) by (simp add: name_span_stem)
  moreover obtain new where "push_deps (base + length dep + 1) deps
      (case name_span dep base of None \<Rightarrow> names | Some n \<Rightarrow> names @ [n])
    = (case name_span dep base of None \<Rightarrow> names | Some n \<Rightarrow> names @ [n]) @ new"
    "map (text_slice src) new = List.map_filter module_stem deps"
    using 2 by auto
  ultimately show ?case
    by (cases "name_span dep base"; cases "module_stem dep") (auto simp: List.map_filter_simps)
qed (simp add: List.map_filter_simps)

text \<open>The spans of the entries pushed so far stay within the names pushed so far.\<close>

definition names_within :: "dep_entry list \<Rightarrow> span list \<Rightarrow> bool" where
  "names_within modules names \<longleftrightarrow>
     (\<forall>e \<in> set modules. span_start (ent_deps e) + span_len (ent_deps e) \<le> length names)"

lemma entry_view_append:
  "span_start (ent_deps e) + span_len (ent_deps e) \<le> length names \<Longrightarrow>
    entry_view src (names @ new) e = entry_view src names e"
  by (simp add: entry_view_def)

lemma push_module_view:
  assumes at: "stands_at src offset line" and within: "names_within modules names"
  defines "st \<equiv> push_module line offset (modules, names)"
  shows "names_within (fst st) (snd st) \<and>
    map (entry_view src (snd st)) (fst st)
      = map (entry_view src names) modules @ (case dep_line line of None \<Rightarrow> [] | Some v \<Rightarrow> [v])"
proof (cases "split_once (CHR '':'') (str_trim line)")
  case None
  then show ?thesis using within by (simp add: st_def push_module_def dep_line_def Let_def)
next
  case (Some p)
  obtain raw deps where p: "p = (raw, deps)" by (cases p)
  let ?base = "offset + (length line - length (trim_start line))"
  have line: "str_trim line = raw @ CHR '':'' # deps" using Some p by (simp add: split_once_Some)
  have "strip_space (str_trim line) = None" using str_trim_split by metis
  then have raw: "trim_start raw = raw" using line strip_space_None_prefix trim_start_id by metis
  have colon: "byte_between 0 0x7F (CHR '':'')" and blank: "byte_between 0 0x7F (CHR '' '')"
    by (simp_all add: byte_between_def)
  have pieces: "stands_at src ?base raw" "stands_at src (?base + length raw + 1) deps"
    using at_separator [OF _ colon] at_trim [OF at] line by auto
  have path: "stands_at src ?base (str_trim raw)" using at_trim [OF pieces(1)] raw by simp
  obtain new where new: "push_deps (?base + length raw + 1) (split_at (CHR '' '') deps) names = names @ new"
    "map (text_slice src) new = List.map_filter module_stem (split_at (CHR '' '') deps)"
    using push_deps_stems [OF at_pieces [OF pieces(2) blank]] by blast
  show ?thesis
  proof (cases "name_span (str_trim raw) ?base")
    case None
    then have "module_stem (str_trim raw) = None" using name_span_stem [OF path] by simp
    then show ?thesis using None Some p within by (simp add: st_def push_module_def dep_line_def Let_def)
  next
    case (Some name)
    let ?e = "\<lparr>ent_name = name, ent_path = span_at ?base raw,
      ent_deps = \<lparr>span_start = length names, span_len = length new\<rparr>\<rparr>"
    have st: "st = (modules @ [?e], names @ new)"
      using Some \<open>split_once _ _ = Some p\<close> p new(1) by (simp add: st_def push_module_def Let_def)
    have "module_stem (str_trim raw) = Some (text_slice src name)"
      using name_span_stem [OF path] Some by simp
    then have "dep_line line = Some (entry_view src (names @ new) ?e)"
      using \<open>split_once _ _ = Some p\<close> p new(2) span_at_slice [OF pieces(1)]
      by (simp add: dep_line_def entry_view_def)
    moreover have "map (entry_view src (names @ new)) modules = map (entry_view src names) modules"
      using within by (auto simp: names_within_def entry_view_append)
    ultimately show ?thesis using within st by (auto simp: names_within_def)
  qed
qed

lemma fold_push_module_view:
  assumes "\<forall>(line, offset) \<in> set ls. stands_at src offset line" "names_within modules names"
  shows "names_within (fst (fold (\<lambda>(line, offset). push_module line offset) ls (modules, names)))
      (snd (fold (\<lambda>(line, offset). push_module line offset) ls (modules, names))) \<and>
    map (entry_view src (snd (fold (\<lambda>(line, offset). push_module line offset) ls (modules, names))))
      (fst (fold (\<lambda>(line, offset). push_module line offset) ls (modules, names)))
      = map (entry_view src names) modules @ List.map_filter dep_line (map fst ls)"
  using assms
proof (induction ls arbitrary: modules names)
  case (Cons l ls)
  obtain line offset where l: "l = (line, offset)" by (cases l)
  obtain modules' names' where st: "push_module line offset (modules, names) = (modules', names')"
    by (cases "push_module line offset (modules, names)")
  have "names_within modules' names'" "map (entry_view src names') modules'
      = map (entry_view src names) modules @ (case dep_line line of None \<Rightarrow> [] | Some v \<Rightarrow> [v])"
    using push_module_view [of src offset line modules names] Cons.prems l st by auto
  then show ?case
    using Cons.IH [of modules' names'] Cons.prems(1) l st
    by (simp add: List.map_filter_simps split: option.split)
qed (simp add: List.map_filter_simps)

lemma map_fst_with_offsets [simp]: "map fst (with_offsets base ps) = ps"
  by (induction base ps rule: with_offsets.induct) simp_all

theorem index_view:
  assumes "utf8_valid src"
  shows "db_view (index src)
    = sort_key (\<lambda>(name, _). key name) (List.map_filter dep_line (split_at newline src))"
proof -
  let ?ls = "with_offsets 0 (split_at newline src)"
  obtain modules names where st: "for_each_line src push_module ([], []) = (modules, names)"
    by (cases "for_each_line src push_module ([], [])")
  have "byte_between 0 0x7F newline" by (simp add: byte_between_def newline_def)
  then have "\<forall>(line, offset) \<in> set ?ls. stands_at src offset line"
    using at_pieces at_whole [OF assms] by blast
  then have v: "map (entry_view src names) modules = List.map_filter dep_line (split_at newline src)"
    using fold_push_module_view [of ?ls src "[]" "[]"] st
    by (simp add: for_each_line_def names_within_def)
  have "db_view (index src) = map (entry_view src names)
      (sort_key (\<lambda>e. (\<lambda>(name, _). key name) (entry_view src names e)) modules)"
    by (simp add: db_view_def index_def st sort_by_key entry_view_def)
  then show ?thesis by (simp only: map_sort_key v)
qed

section \<open>Lookup\<close>

definition module_key :: "dep_db \<Rightarrow> nat \<Rightarrow> string" where
  "module_key db i = key (text_slice (db_text db) (ent_name (db_modules db ! i)))"

definition module_path :: "dep_db \<Rightarrow> nat \<Rightarrow> string" where
  "module_path db i = text_slice (db_text db) (ent_path (db_modules db ! i))"

definition keys_sorted :: "dep_db \<Rightarrow> bool" where
  "keys_sorted db \<longleftrightarrow> sorted (map (\<lambda>e. key (text_slice (db_text db) (ent_name e))) (db_modules db))"

lemma index_sorted: "keys_sorted (index src)"
  by (simp add: keys_sorted_def index_def sort_by_key split: prod.split)

lemma dep_find_bound: "dep_find db name = Some i \<Longrightarrow> i < length (db_modules db)"
  unfolding dep_find_def by (rule binary_search_bound)

lemma dep_find_key:
  assumes "keys_sorted db"
  shows "dep_find db name = Some i \<Longrightarrow> module_key db i = key name"
    and "dep_find db name = None \<longleftrightarrow> (\<forall>i < length (db_modules db). module_key db i \<noteq> key name)"
proof -
  note s = binary_search_key [OF assms [unfolded keys_sorted_def], of "key name"]
  show "dep_find db name = Some i \<Longrightarrow> module_key db i = key name"
    unfolding dep_find_def module_key_def using s(1) by blast
  show "dep_find db name = None \<longleftrightarrow> (\<forall>i < length (db_modules db). module_key db i \<noteq> key name)"
    unfolding dep_find_def module_key_def s(2) image_iff by (metis in_set_conv_nth)
qed

text \<open>Every path of an indexed text names its module, up to the spelling of dashes.\<close>

lemma index_entry:
  assumes "utf8_valid src" "i < length (db_modules (index src))"
  shows "get_module_name (module_path (index src) i) = Some (module_key (index src) i)"
proof -
  have "db_view (index src) ! i \<in> set (List.map_filter dep_line (split_at newline src))"
    using index_view [OF assms(1)] assms(2) nth_mem [of i "db_view (index src)"]
    by (metis db_view_def length_map set_sort)
  then obtain line where "dep_line line = Some (db_view (index src) ! i)"
    by (auto simp: set_map_filter_iff)
  then have "module_stem (module_path (index src) i)
      = Some (text_slice (db_text (index src)) (ent_name (db_modules (index src) ! i)))"
    using assms(2)
    by (auto simp: dep_line_def db_view_def entry_view_def module_path_def split: option.splits)
  then show ?thesis by (simp add: get_module_name_key module_key_def)
qed

section \<open>The order of the visit\<close>

definition dep_edges :: "dep_db \<Rightarrow> (nat \<times> nat) set" where
  "dep_edges db = {(i, j). i < length (db_modules db) \<and> j \<in> set (dep_indices db (db_modules db ! i))}"

lemma dep_indices_bound: "j \<in> set (dep_indices db e) \<Longrightarrow> j < length (db_modules db)"
  by (auto simp: dep_indices_def set_map_filter_iff dest: dep_find_bound)

text \<open>
  A dependency comes before the module that needs it, was there before, or depends on that
  module itself.
\<close>

fun deps_before :: "dep_db \<Rightarrow> nat set \<Rightarrow> nat list \<Rightarrow> bool" where
  "deps_before db V [] = True"
| "deps_before db V (x # xs) =
     ((\<forall>d. (x, d) \<in> dep_edges db \<longrightarrow> d \<in> V \<or> (d, x) \<in> (dep_edges db)\<^sup>*) \<and> deps_before db (insert x V) xs)"

lemma deps_before_append:
  "deps_before db V (xs @ ys) \<longleftrightarrow> deps_before db V xs \<and> deps_before db (V \<union> set xs) ys"
  by (induction xs arbitrary: V) auto

lemma deps_before_drop:
  "deps_before db (insert i V) xs \<Longrightarrow> \<forall>x \<in> set xs. (i, x) \<in> (dep_edges db)\<^sup>* \<Longrightarrow> deps_before db V xs"
  by (induction xs arbitrary: V) (auto simp: insert_commute)

lemma deps_before_nth:
  "deps_before db V (pre @ x # post) \<Longrightarrow> (x, d) \<in> dep_edges db \<Longrightarrow>
    d \<in> V \<or> d \<in> set pre \<or> (d, x) \<in> (dep_edges db)\<^sup>*"
  by (induction pre arbitrary: V) auto

definition seen :: "string list \<times> bool list \<Rightarrow> nat set" where
  "seen st = {i. i < length (snd st) \<and> snd st ! i}"

lemma seen_mark: "i < length visited \<Longrightarrow> seen (order, visited[i := True]) = insert i (seen (order, visited))"
  by (auto simp: seen_def nth_list_update)

definition visited_as ::
  "dep_db \<Rightarrow> nat list \<Rightarrow> string list \<times> bool list \<Rightarrow> nat list \<Rightarrow> string list \<times> bool list \<Rightarrow> bool" where
  "visited_as db starts st ixs st' \<longleftrightarrow>
     fst st' = fst st @ map (module_path db) ixs
     \<and> length (snd st') = length (snd st)
     \<and> seen st' = seen st \<union> set ixs
     \<and> distinct ixs \<and> set ixs \<inter> seen st = {}
     \<and> set starts \<subseteq> seen st'
     \<and> (\<forall>x \<in> set ixs. \<exists>s \<in> set starts. (s, x) \<in> (dep_edges db)\<^sup>*)
     \<and> (\<forall>x \<in> set ixs. \<forall>d. (x, d) \<in> dep_edges db \<longrightarrow> d \<in> seen st')
     \<and> deps_before db (seen st) ixs"

lemma visited_as_step:
  assumes i: "i < length visited" "\<not> visited ! i" "i < length (db_modules db)"
    and deps: "visited_as db (dep_indices db (db_modules db ! i)) (order, visited[i := True]) ixs (order', visited')"
  shows "visited_as db [i] (order, visited) (ixs @ [i]) (order' @ [module_path db i], visited')"
proof -
  have edge: "(i, d) \<in> dep_edges db \<longleftrightarrow> d \<in> set (dep_indices db (db_modules db ! i))" for d
    using i(3) by (simp add: dep_edges_def)
  have reach: "(i, x) \<in> (dep_edges db)\<^sup>*" if "x \<in> set ixs" for x
    using deps that edge unfolding visited_as_def by (meson converse_rtrancl_into_rtrancl)
  have s: "seen (order, visited[i := True]) = insert i (seen (order, visited))"
    by (rule seen_mark) (rule i(1))
  have "i \<notin> seen (order, visited)" using i(2) by (simp add: seen_def)
  moreover have "deps_before db (seen (order, visited)) ixs"
    by (rule deps_before_drop [of _ i]) (use deps reach s in \<open>auto simp: visited_as_def\<close>)
  moreover have "d \<in> insert i (seen (order, visited) \<union> set ixs)" if "(i, d) \<in> dep_edges db" for d
    using deps s edge that by (auto simp: visited_as_def)
  moreover have "seen (order' @ [module_path db i], visited') = seen (order', visited')"
    by (simp add: seen_def)
  ultimately show ?thesis
    using deps reach s by (auto simp: visited_as_def deps_before_append)
qed

lemma visited_as_trans:
  assumes "visited_as db [d] st xs st'" "visited_as db ds st' ys st''"
  shows "visited_as db (d # ds) st (xs @ ys) st''"
  using assms by (auto simp: visited_as_def deps_before_append)

lemma visit_visited_as:
  "length (snd st) = length (db_modules db) \<Longrightarrow> i < length (db_modules db) \<Longrightarrow>
    \<exists>ixs. visited_as db [i] st ixs (visit db i st)"
  "length (snd st) = length (db_modules db) \<Longrightarrow> set ds \<subseteq> {..< length (db_modules db)} \<Longrightarrow>
    \<exists>ixs. visited_as db ds st ixs (visit_deps db ds st)"
proof (induction db i st and db ds st rule: visit_visit_deps.induct)
  case (1 db i order visited)
  show ?case
  proof (cases "visited ! i")
    case True
    then have "visited_as db [i] (order, visited) [] (order, visited)"
      using 1(2,3) by (simp add: visited_as_def seen_def)
    then show ?thesis using True 1(2,3) by (auto simp: visit.simps)
  next
    case False
    let ?ds = "dep_indices db (db_modules db ! i)"
    obtain order' visited' where r: "visit_deps db ?ds (order, visited[i := True]) = (order', visited')"
      by (cases "visit_deps db ?ds (order, visited[i := True])")
    have "\<exists>ixs. visited_as db ?ds (order, visited[i := True]) ixs (visit_deps db ?ds (order, visited[i := True]))"
      using 1 False dep_indices_bound by (intro 1(1)) auto
    then obtain ixs where "visited_as db ?ds (order, visited[i := True]) ixs (order', visited')"
      using r by auto
    then have "visited_as db [i] (order, visited) (ixs @ [i]) (order' @ [module_path db i], visited')"
      using visited_as_step False 1(2,3) by simp
    moreover have "visit db i (order, visited) = (order' @ [module_path db i], visited')"
      using False 1(2,3) r by (simp add: visit.simps module_path_def Let_def)
    ultimately show ?thesis by metis
  qed
next
  case (2 db st)
  then show ?case by (auto simp: visited_as_def intro!: exI [of _ "[]"])
next
  case (3 db d ds st)
  obtain xs where xs: "visited_as db [d] st xs (visit db d st)" using 3(1,3,4) by auto
  then have "length (snd (visit db d st)) = length (db_modules db)"
    using 3(3) by (simp add: visited_as_def)
  then obtain ys where "visited_as db ds (visit db d st) ys (visit_deps db ds (visit db d st))"
    using 3(2,4) by auto
  then have "visited_as db (d # ds) st (xs @ ys) (visit_deps db ds (visit db d st))"
    by (rule visited_as_trans [OF xs])
  then show ?case by auto
qed

text \<open>The load order lists exactly the modules reachable from the requested one, each once.\<close>

lemma load_order_spec:
  assumes "resolve_load_order db name = Some order"
  obtains start ixs where "dep_find db name = Some start" "order = map (module_path db) ixs"
    "distinct ixs" "set ixs = {i. (start, i) \<in> (dep_edges db)\<^sup>*}" "deps_before db {} ixs"
proof -
  obtain start where start: "dep_find db name = Some start"
    and order: "order = fst (visit db start ([], replicate (length (db_modules db)) False))"
    using assms by (auto simp: resolve_load_order_def)
  let ?st = "([], replicate (length (db_modules db)) False)"
  obtain ixs where ixs: "visited_as db [start] ?st ixs (visit db start ?st)"
    using visit_visited_as(1) [of ?st db start] dep_find_bound [OF start] by auto
  have none: "seen ?st = {}" by (auto simp: seen_def)
  have sub: "set ixs = seen (visit db start ?st)" "start \<in> set ixs"
    using ixs none by (auto simp: visited_as_def)
  have "i \<in> set ixs" if "(start, i) \<in> (dep_edges db)\<^sup>*" for i
    using that by (induction rule: rtrancl_induct) (use ixs sub in \<open>auto simp: visited_as_def\<close>)
  then have "set ixs = {i. (start, i) \<in> (dep_edges db)\<^sup>*}"
    using ixs by (auto simp: visited_as_def)
  then show ?thesis using that start order ixs none by (simp add: visited_as_def)
qed

end
