(* ===== verification/Kmod_Alias.thy ===== *)
theory Kmod_Alias
  imports Kmod_Deps_Facts
begin

text \<open>
  The module alias database, \<open>libs/kmod/src/aliases.rs\<close>: the lines of \<open>modules.alias\<close> as
  spans, and the matching of a device's modalias against a pattern by a loop that
  remembers the last star only.
\<close>

section \<open>Definitions\<close>

record alias_entry =
  al_pattern :: span
  al_module :: span

record alias_db =
  al_text :: string
  al_entries :: "alias_entry list"

abbreviation (input) ALIAS_PREFIX :: string where "ALIAS_PREFIX \<equiv> ''alias ''"

definition parse_alias :: "string \<Rightarrow> nat \<Rightarrow> alias_entry option" where
  "parse_alias line offset =
     (let lead = length line - length (trim_start line); line = str_trim line in
      Option.bind (strip_prefix ALIAS_PREFIX line) (\<lambda>rest.
      Option.bind (rsplit_once (CHR '' '') rest) (\<lambda>(pattern, module).
        let pattern_base = offset + lead + length ALIAS_PREFIX
        in Some \<lparr>al_pattern = span_at pattern_base pattern,
                 al_module = span_at (pattern_base + length pattern + 1) module\<rparr>)))"

definition parse_text :: "string \<Rightarrow> alias_entry list" where
  "parse_text src =
     for_each_line src (\<lambda>line offset entries.
       case parse_alias line offset of None \<Rightarrow> entries | Some alias \<Rightarrow> entries @ [alias]) []"

definition aliasdb_load :: "nat + string \<Rightarrow> io_error + alias_db" where
  "aliasdb_load answer =
     and_then (read_to_string answer) (\<lambda>src. Ok \<lparr>al_text = src, al_entries = parse_text src\<rparr>)"

text \<open>
  The loop of the matcher keeps the saved indices behind the current ones; then either
  the saved text index grows, or the saved pattern index does, or the text index does.
\<close>

definition stars_behind :: "nat \<Rightarrow> nat \<Rightarrow> nat option \<Rightarrow> nat option \<Rightarrow> bool" where
  "stars_behind p_ix t_ix star_p star_t =
     (case (star_p, star_t) of
        (Some p, Some t) \<Rightarrow> p < p_ix \<and> t \<le> t_ix
      | (None, None) \<Rightarrow> True
      | _ \<Rightarrow> False)"

definition room :: "nat \<Rightarrow> nat option \<Rightarrow> nat" where
  "room n s = (case s of None \<Rightarrow> Suc n | Some i \<Rightarrow> n - i)"

text \<open>
  The loop of \<open>glob_match_bytes\<close>.  The indices stay at most the lengths of the two slices, so
  the saturating increments are exact.
\<close>

function glob_loop ::
  "string \<Rightarrow> string \<Rightarrow> nat \<Rightarrow> nat \<Rightarrow> nat option \<Rightarrow> nat option \<Rightarrow> nat option" where
  "glob_loop pattern t p_ix t_ix star_p star_t =
     (if length t \<le> t_ix then Some p_ix
      else if p_ix < length pattern \<and> pattern ! p_ix = CHR ''*'' then
        glob_loop pattern t (p_ix + 1) t_ix (Some p_ix) (Some t_ix)
      else if p_ix < length pattern \<and> pattern ! p_ix = CHR ''?'' then
        glob_loop pattern t (p_ix + 1) (t_ix + 1) star_p star_t
      else if p_ix < length pattern \<and> eq_ignore_ascii_case (pattern ! p_ix) (t ! t_ix) then
        glob_loop pattern t (p_ix + 1) (t_ix + 1) star_p star_t
      else
        case (star_p, star_t) of
          (Some saved_p, Some saved_t) \<Rightarrow>
            glob_loop pattern t (saved_p + 1) (saved_t + 1) star_p (Some (saved_t + 1))
        | _ \<Rightarrow> None)"
  by pat_completeness auto
termination
proof (relation "measures
    [\<lambda>(p, t, p_ix, t_ix, sp, st). if stars_behind p_ix t_ix sp st then 0 else 1,
     \<lambda>(p, t, p_ix, t_ix, sp, st). room (length t) st,
     \<lambda>(p, t, p_ix, t_ix, sp, st). room (length p) sp,
     \<lambda>(p, t, p_ix, t_ix, sp, st). length t - t_ix]", goal_cases)
  case (2 pattern t p_ix t_ix star_p star_t)
  then show ?case by (auto simp: stars_behind_def room_def split: option.splits)
next
  case (5 pattern t p_ix t_ix star_p star_t x y saved_p saved_t)
  then show ?case by (auto simp: stars_behind_def room_def split: option.splits)
qed (auto simp: stars_behind_def split: option.splits)

declare glob_loop.simps [simp del]

function skip_stars :: "string \<Rightarrow> nat \<Rightarrow> nat" where
  "skip_stars pattern p_ix =
     (if p_ix < length pattern \<and> pattern ! p_ix = CHR ''*'' then skip_stars pattern (p_ix + 1)
      else p_ix)"
  by pat_completeness auto
termination
  by (relation "measure (\<lambda>(pattern, p_ix). length pattern - p_ix)") auto

declare skip_stars.simps [simp del]

definition glob_match_bytes :: "string \<Rightarrow> string \<Rightarrow> bool" where
  "glob_match_bytes pattern t =
     (case glob_loop pattern t 0 0 None None of
        None \<Rightarrow> False
      | Some p_ix \<Rightarrow> skip_stars pattern p_ix = length pattern)"

definition find_module :: "alias_db \<Rightarrow> string \<Rightarrow> string option" where
  "find_module db modalias =
     find_map (\<lambda>alias.
       if glob_match_bytes (text_slice (al_text db) (al_pattern alias)) modalias
       then Some (text_slice (al_text db) (al_module alias)) else None) (al_entries db)"

section \<open>What a pattern matches\<close>

text \<open>
  The meaning of a pattern without any search strategy: a star stands for any bytes, a
  question mark for one byte, and every other byte for itself in either case.
\<close>

definition byte_matches :: "char \<Rightarrow> char \<Rightarrow> bool" where
  "byte_matches p c \<longleftrightarrow> p = CHR ''?'' \<or> eq_ignore_ascii_case p c"

fun glob :: "string \<Rightarrow> string \<Rightarrow> bool" where
  "glob [] t = (t = [])"
| "glob (p # ps) t =
     (if p = CHR ''*'' then \<exists>k \<le> length t. glob ps (drop k t)
      else case t of [] \<Rightarrow> False | c # t' \<Rightarrow> byte_matches p c \<and> glob ps t')"

abbreviation plain :: "string \<Rightarrow> bool" where
  "plain s \<equiv> CHR ''*'' \<notin> set s"

lemma glob_plain:
  "plain s \<Longrightarrow> glob (s @ q) t \<longleftrightarrow>
    length s \<le> length t \<and> list_all2 byte_matches s (take (length s) t) \<and> glob q (drop (length s) t)"
proof (induction s arbitrary: t)
  case (Cons p s)
  then show ?case by (cases t) auto
qed simp

lemma glob_Nil: "glob q [] \<longleftrightarrow> set q \<subseteq> {CHR ''*''}"
  by (induction q) auto

lemma glob_star_step:
  "glob (CHR ''*'' # q) (c # t) \<longleftrightarrow> glob q (c # t) \<or> glob (CHR ''*'' # q) t"
proof -
  have "(\<exists>k \<le> Suc (length t). glob q (drop k (c # t)))
    \<longleftrightarrow> glob q (c # t) \<or> (\<exists>k \<le> length t. glob q (drop k t))"
    by (metis Suc_le_mono drop0 drop_Suc_Cons le0 not0_implies_Suc)
  then show ?thesis by simp
qed

lemma glob_star_empty: "glob q t \<Longrightarrow> glob (CHR ''*'' # q) t"
  by (auto intro: exI [of _ 0])

lemma glob_star_suffix: "glob (CHR ''*'' # q) t \<Longrightarrow> glob (CHR ''*'' # q) (v @ t)"
  by (induction v) (simp_all only: append.simps glob_star_step, simp)

text \<open>
  Once the bytes between two stars have matched somewhere, the first star may be forgotten:
  the second one absorbs whatever a later match would have left to the first.
\<close>

lemma glob_forget_star:
  assumes "plain s" "list_all2 byte_matches s v"
  shows "glob (CHR ''*'' # s @ CHR ''*'' # q) (v @ w) \<longleftrightarrow> glob (CHR ''*'' # q) w"
proof
  have len: "length v = length s" using assms(2) by (simp add: list_all2_lengthD)
  assume "glob (CHR ''*'' # s @ CHR ''*'' # q) (v @ w)"
  then obtain k where "length s \<le> length (drop k (v @ w))"
    "glob (CHR ''*'' # q) (drop (length s) (drop k (v @ w)))"
    using glob_plain [OF assms(1), of "CHR ''*'' # q"] by auto
  moreover have "drop (length s) (drop k (v @ w)) = drop k w"
    using len by (simp only: drop_drop) (simp add: add.commute [of k])
  ultimately have "glob (CHR ''*'' # q) (drop k w)" by argo
  then show "glob (CHR ''*'' # q) w"
    using glob_star_suffix [of q "drop k w" "take k w"] by (simp only: append_take_drop_id)
next
  assume "glob (CHR ''*'' # q) w"
  then have "glob (s @ CHR ''*'' # q) (v @ w)"
    using glob_plain [OF assms(1), of "CHR ''*'' # q" "v @ w"] assms(2) list_all2_lengthD [OF assms(2)]
    by (simp del: glob.simps)
  then show "glob (CHR ''*'' # s @ CHR ''*'' # q) (v @ w)"
    by (rule glob_star_empty)
qed

lemma glob_mismatch:
  assumes "plain s" "list_all2 byte_matches s v" "w \<noteq> []"
    and "q = [] \<or> (hd q \<noteq> CHR ''*'' \<and> \<not> byte_matches (hd q) (hd w))"
  shows "\<not> glob (s @ q) (v @ w)"
proof -
  have "\<not> glob q w" using assms(3,4) by (cases q; cases w) auto
  then show ?thesis
    using glob_plain [OF assms(1), of q "v @ w"] list_all2_lengthD [OF assms(2)] by simp
qed

lemma glob_end:
  assumes "plain s" "list_all2 byte_matches s v"
  shows "glob (CHR ''*'' # s @ q) v \<longleftrightarrow> set q \<subseteq> {CHR ''*''}"
proof -
  have len: "length v = length s" using assms(2) by (simp add: list_all2_lengthD)
  have "glob (s @ q) (drop k v) \<longleftrightarrow> k = 0 \<and> glob q []" if "k \<le> length v" for k
    using glob_plain [OF assms(1), of q "drop k v"] len assms(2) that by auto
  then show ?thesis using glob_Nil [of q] by auto
qed

declare glob.simps(2) [simp del]

section \<open>The loop finds a match exactly when there is one\<close>

definition glob_state ::
  "string \<Rightarrow> string \<Rightarrow> nat \<Rightarrow> nat \<Rightarrow> nat option \<Rightarrow> nat option \<Rightarrow> bool \<Rightarrow> bool" where
  "glob_state pattern t p_ix t_ix star_p star_t b \<longleftrightarrow>
     (\<exists>a q u w. pattern = a @ q \<and> t = u @ w \<and> p_ix = length a \<and> t_ix = length u
        \<and> star_p = None \<and> star_t = None \<and> b = glob q w)
   \<or> (\<exists>a s q u v w. pattern = a @ CHR ''*'' # s @ q \<and> t = u @ v @ w
        \<and> p_ix = length a + 1 + length s \<and> t_ix = length u + length v
        \<and> star_p = Some (length a) \<and> star_t = Some (length u)
        \<and> plain s \<and> list_all2 byte_matches s v \<and> b = glob (CHR ''*'' # s @ q) (v @ w))"

lemma skip_stars_end: "skip_stars (a @ q) (length a) = length (a @ q) \<longleftrightarrow> set q \<subseteq> {CHR ''*''}"
proof (induction q arbitrary: a)
  case Nil
  then show ?case by (simp add: skip_stars.simps)
next
  case (Cons c q)
  show ?case using Cons [of "a @ [c]"] by (subst skip_stars.simps) (auto simp: nth_append)
qed

lemma append_Cons_nth: "i < length (a @ q) \<Longrightarrow> i = length a \<Longrightarrow> \<exists>c r. q = c # r \<and> (a @ q) ! i = c"
  by (cases q) auto

lemma state_star:
  assumes "glob_state pattern t p_ix t_ix star_p star_t b" "p_ix < length pattern"
    "pattern ! p_ix = CHR ''*''"
  shows "glob_state pattern t (p_ix + 1) t_ix (Some p_ix) (Some t_ix) b"
  using assms(1) unfolding glob_state_def
proof (elim disjE exE conjE, goal_cases)
  case (1 a q u w)
  then obtain r where "q = CHR ''*'' # r" using assms(2,3) append_Cons_nth [of p_ix a q] by auto
  then show ?case
    using 1 by (intro disjI2 exI [of _ a] exI [of _ "[]"] exI [of _ r] exI [of _ u] exI [of _ w]) simp
next
  case (2 a s q u v w)
  then obtain r where r: "q = CHR ''*'' # r"
    using assms(2,3) append_Cons_nth [of p_ix "a @ CHR ''*'' # s" q] by auto
  then have "b = glob (CHR ''*'' # r) w" using 2 glob_forget_star [of s v r w] by simp
  then show ?case
    using 2 r
    by (intro disjI2 exI [of _ "a @ CHR ''*'' # s"] exI [of _ "[]"] exI [of _ r] exI [of _ "u @ v"]
        exI [of _ w]) simp
qed

lemma state_byte:
  assumes "glob_state pattern t p_ix t_ix star_p star_t b" "p_ix < length pattern" "t_ix < length t"
    "pattern ! p_ix \<noteq> CHR ''*''" "byte_matches (pattern ! p_ix) (t ! t_ix)"
  shows "glob_state pattern t (p_ix + 1) (t_ix + 1) star_p star_t b"
  using assms(1) unfolding glob_state_def
proof (elim disjE exE conjE, goal_cases)
  case (1 a q u w)
  then obtain p r c x where "q = p # r" "pattern ! p_ix = p" "w = c # x" "t ! t_ix = c"
    using assms(2,3) append_Cons_nth [of p_ix a q] append_Cons_nth [of t_ix u w] by auto
  then show ?case
    using 1 assms(4,5)
    by (intro disjI1 exI [of _ "a @ [p]"] exI [of _ r] exI [of _ "u @ [c]"] exI [of _ x])
      (simp add: glob.simps(2))
next
  case (2 a s q u v w)
  then obtain p r c x where "q = p # r" "pattern ! p_ix = p" "w = c # x" "t ! t_ix = c"
    using assms(2,3) append_Cons_nth [of p_ix "a @ CHR ''*'' # s" q] append_Cons_nth [of t_ix "u @ v" w]
    by auto
  then show ?case
    using 2 assms(4,5)
    by (intro disjI2 exI [of _ a] exI [of _ "s @ [p]"] exI [of _ r] exI [of _ u] exI [of _ "v @ [c]"]
        exI [of _ x]) (simp add: list_all2_appendI del: glob.simps)
qed

lemma state_mismatch:
  assumes "glob_state pattern t p_ix t_ix star_p star_t b" "t_ix < length t"
    "p_ix < length pattern \<longrightarrow> pattern ! p_ix \<noteq> CHR ''*'' \<and> \<not> byte_matches (pattern ! p_ix) (t ! t_ix)"
  shows "(case (star_p, star_t) of
      (Some p, Some i) \<Rightarrow> glob_state pattern t (p + 1) (i + 1) star_p (Some (i + 1)) b
    | _ \<Rightarrow> \<not> b)"
  using assms(1) unfolding glob_state_def
proof (elim disjE exE conjE, goal_cases)
  case (1 a q u w)
  have "q = [] \<or> (hd q \<noteq> CHR ''*'' \<and> \<not> byte_matches (hd q) (hd w))" "w \<noteq> []"
    using 1 assms(2,3) by (cases q; cases w; auto)+
  then have "\<not> glob ([] @ q) ([] @ w)" by (intro glob_mismatch) auto
  then show ?case using 1 by simp
next
  case (2 a s q u v w)
  have q: "q = [] \<or> (hd q \<noteq> CHR ''*'' \<and> \<not> byte_matches (hd q) (hd w))" "w \<noteq> []"
    using 2 assms(2,3) by (cases q; cases w; auto simp: nth_append)+
  then have no: "\<not> glob (s @ q) (v @ w)" using 2 by (intro glob_mismatch) auto
  obtain c x where c: "v @ w = c # x" using q(2) by (cases "v @ w") auto
  then have "b = glob (CHR ''*'' # s @ q) x" using 2 no glob_star_step [of "s @ q" c x] by simp
  then have "glob_state pattern t (length a + 1) (length u + 1) star_p (Some (length u + 1)) b"
    unfolding glob_state_def using 2 c
    by (intro disjI2 exI [of _ a] exI [of _ "[]"] exI [of _ "s @ q"] exI [of _ "u @ [c]"] exI [of _ x])
      (simp del: glob.simps)
  then show ?case using 2 by (simp add: glob_state_def)
qed

lemma state_end:
  assumes "glob_state pattern t p_ix t_ix star_p star_t b" "length t \<le> t_ix"
  shows "(skip_stars pattern p_ix = length pattern) = b"
  using assms(1) unfolding glob_state_def
proof (elim disjE exE conjE, goal_cases)
  case (1 a q u w)
  then show ?case using assms(2) skip_stars_end [of a q] glob_Nil [of q] by simp
next
  case (2 a s q u v w)
  then show ?case
    using assms(2) skip_stars_end [of "a @ CHR ''*'' # s" q] glob_end [of s v q]
    by (simp del: glob.simps)
qed

lemma glob_loop_state:
  "glob_state pattern t p_ix t_ix star_p star_t b \<Longrightarrow>
    (case glob_loop pattern t p_ix t_ix star_p star_t of
       None \<Rightarrow> False | Some p \<Rightarrow> skip_stars pattern p = length pattern) = b"
proof (induction pattern t p_ix t_ix star_p star_t rule: glob_loop.induct)
  case (1 pattern t p_ix t_ix star_p star_t)
  note IH = 1(1-4) and prem = 1(5)
  let ?p = "pattern ! p_ix"
  consider "length t \<le> t_ix" | "t_ix < length t" "p_ix < length pattern" "?p = CHR ''*''"
    | "t_ix < length t" "p_ix < length pattern" "?p \<noteq> CHR ''*''" "?p = CHR ''?''"
    | "t_ix < length t" "p_ix < length pattern" "?p \<noteq> CHR ''*''" "?p \<noteq> CHR ''?''"
      "eq_ignore_ascii_case ?p (t ! t_ix)"
    | "t_ix < length t"
      "p_ix < length pattern \<longrightarrow> ?p \<noteq> CHR ''*'' \<and> \<not> byte_matches ?p (t ! t_ix)"
    by (metis byte_matches_def not_less)
  then show ?case
  proof cases
    case 1
    then have "glob_loop pattern t p_ix t_ix star_p star_t = Some p_ix"
      by (subst glob_loop.simps) simp
    then show ?thesis using state_end [OF prem 1] by simp
  next
    case 2
    then have "glob_loop pattern t p_ix t_ix star_p star_t
        = glob_loop pattern t (p_ix + 1) t_ix (Some p_ix) (Some t_ix)"
      by (subst glob_loop.simps) simp
    moreover have "glob_state pattern t (p_ix + 1) t_ix (Some p_ix) (Some t_ix) b"
      using state_star [OF prem] 2 by blast
    ultimately show ?thesis using IH(1) 2 by (metis not_less)
  next
    case 3
    then have "glob_loop pattern t p_ix t_ix star_p star_t
        = glob_loop pattern t (p_ix + 1) (t_ix + 1) star_p star_t"
      by (subst glob_loop.simps) simp
    moreover have "glob_state pattern t (p_ix + 1) (t_ix + 1) star_p star_t b"
      using state_byte [OF prem 3(2,1,3)] 3(4) unfolding byte_matches_def by blast
    ultimately show ?thesis using IH(2) 3 by (metis not_less)
  next
    case 4
    then have "glob_loop pattern t p_ix t_ix star_p star_t
        = glob_loop pattern t (p_ix + 1) (t_ix + 1) star_p star_t"
      by (subst glob_loop.simps) simp
    moreover have "glob_state pattern t (p_ix + 1) (t_ix + 1) star_p star_t b"
      using state_byte [OF prem 4(2,1,3)] 4(5) unfolding byte_matches_def by blast
    ultimately show ?thesis using IH(3) 4 by (metis not_less)
  next
    case 5
    then have no: "\<not> length t \<le> t_ix" "\<not> (p_ix < length pattern \<and> ?p = CHR ''*'')"
      "\<not> (p_ix < length pattern \<and> ?p = CHR ''?'')"
      "\<not> (p_ix < length pattern \<and> eq_ignore_ascii_case ?p (t ! t_ix))"
      by (auto simp: byte_matches_def)
    then have loop: "glob_loop pattern t p_ix t_ix star_p star_t =
      (case (star_p, star_t) of
         (Some p, Some i) \<Rightarrow> glob_loop pattern t (p + 1) (i + 1) star_p (Some (i + 1))
       | _ \<Rightarrow> None)"
      by (subst glob_loop.simps) (simp only: if_False)
    note retry = state_mismatch [OF prem 5]
    show ?thesis
    proof (cases star_p)
      case None
      then show ?thesis using loop retry by simp
    next
      case p: (Some p)
      show ?thesis
      proof (cases star_t)
        case None
        then show ?thesis using p loop retry by simp
      next
        case (Some i)
        then show ?thesis using IH(4) [OF no refl p Some] p loop retry by simp
      qed
    qed
  qed
qed

theorem glob_match_glob: "glob_match_bytes pattern t = glob pattern t"
proof -
  have "glob_state pattern t 0 0 None None (glob pattern t)"
    unfolding glob_state_def
    by (intro disjI1 exI [of _ "[]"] exI [of _ pattern] exI [of _ t]) simp
  then show ?thesis unfolding glob_match_bytes_def by (rule glob_loop_state)
qed

section \<open>What the database represents\<close>

text \<open>One line of \<open>modules.alias\<close>: the pattern and the module that serves it.\<close>

definition alias_line :: "string \<Rightarrow> (string \<times> string) option" where
  "alias_line line =
     Option.bind (strip_prefix ALIAS_PREFIX (str_trim line)) (\<lambda>rest.
       map_option (\<lambda>(pattern, module). (str_trim pattern, str_trim module)) (rsplit_once (CHR '' '') rest))"

definition alias_view :: "string \<Rightarrow> alias_entry \<Rightarrow> string \<times> string" where
  "alias_view src a = (text_slice src (al_pattern a), text_slice src (al_module a))"

lemma parse_alias_view:
  assumes "stands_at src offset line"
  shows "map_option (alias_view src) (parse_alias line offset) = alias_line line"
proof (cases "strip_prefix ALIAS_PREFIX (str_trim line)")
  case (Some rest)
  let ?base = "offset + (length line - length (trim_start line))"
  have "stands_at src ?base (ALIAS_PREFIX @ rest @ [])"
    using at_trim [OF assms] Some by (simp add: strip_prefix_Some)
  moreover have "utf8_valid ALIAS_PREFIX" by (simp add: utf8_valid_ascii byte_between_def)
  moreover have "utf8_valid rest"
    using at_valid [OF calculation(1)] utf8_append [OF calculation(2)] by simp
  ultimately have rest: "stands_at src (?base + length ALIAS_PREFIX) rest" by (rule at_middle)
  show ?thesis
  proof (cases "rsplit_once (CHR '' '') rest")
    case None
    then show ?thesis using Some by (simp add: parse_alias_def alias_line_def Let_def)
  next
    case (Some pm)
    obtain pattern module where pm: "pm = (pattern, module)" by (cases pm)
    have blank: "byte_between 0 0x7F (CHR '' '')" by (simp add: byte_between_def)
    have r: "rest = pattern @ CHR '' '' # module" using Some pm by (simp add: rsplit_once_Some)
    note s = at_separator [OF rest [unfolded r] blank]
    note s = span_at_slice [OF s(1)] span_at_slice [OF s(2)]
    show ?thesis
      using s Some pm \<open>strip_prefix _ _ = Some rest\<close>
      by (simp add: parse_alias_def alias_line_def alias_view_def Let_def add.assoc)
  qed
qed (simp add: parse_alias_def alias_line_def Let_def)

lemma parse_text_view:
  assumes "utf8_valid src"
  shows "map (alias_view src) (parse_text src) = List.map_filter alias_line (split_at newline src)"
proof -
  let ?step = "\<lambda>(line, offset) entries.
    case parse_alias line offset of None \<Rightarrow> entries | Some alias \<Rightarrow> entries @ [alias]"
  have "map (alias_view src) (fold ?step ls entries)
      = map (alias_view src) entries @ List.map_filter alias_line (map fst ls)"
    if "\<forall>(line, offset) \<in> set ls. stands_at src offset line" for ls entries
    using that
  proof (induction ls arbitrary: entries)
    case (Cons l ls)
    obtain line offset where l: "l = (line, offset)" by (cases l)
    have "map_option (alias_view src) (parse_alias line offset) = alias_line line"
      using Cons.prems l by (auto intro: parse_alias_view)
    then show ?case
      using Cons l by (cases "parse_alias line offset"; cases "alias_line line")
        (auto simp: List.map_filter_simps)
  qed (simp add: List.map_filter_simps)
  moreover have "byte_between 0 0x7F newline" by (simp add: byte_between_def newline_def)
  ultimately show ?thesis
    using at_pieces [OF at_whole [OF assms]] by (simp add: parse_text_def for_each_line_def)
qed

lemma find_map_map: "find_map f (map g xs) = find_map (\<lambda>x. f (g x)) xs"
  by (induction xs) (simp_all split: option.split)

lemma find_module_lines:
  assumes "utf8_valid src"
  shows "find_module \<lparr>al_text = src, al_entries = parse_text src\<rparr> modalias
    = find_map (\<lambda>(pattern, module). if glob pattern modalias then Some module else None)
        (List.map_filter alias_line (split_at newline src))"
  unfolding parse_text_view [OF assms, symmetric] find_map_map
  by (simp add: find_module_def alias_view_def glob_match_glob cong: if_cong)

end
