(* ===== verification/Modd.thy ===== *)
theory Modd
  imports Kmod_Alias
begin

text \<open>
  Loading of kernel modules: the loader of \<open>libs/kmod/src/kernel.rs\<close>, the sysfs scan of
  \<open>libs/kmod/src/sysfs.rs\<close>, the module daemon \<open>services/modd\<close> (sweep, uevent parser and event
  loop) and the early loading of \<open>init/millefeuille/src/modules.rs\<close>.  The file system, the
  decompressor and the kernel answer through the fields of \<open>kernel_env\<close>; their answers may
  change from one attempt to the next, which \<open>attempts\<close> counts.  \<open>inits\<close> records the relative
  paths whose initialisation the kernel accepted, in order.
\<close>

section \<open>The loader\<close>

datatype load_error =
  NotFound string | LoadIo nat | Decompress string | Syscall nat | InvalidPath string

record kernel_env =
  env_exists :: "nat \<Rightarrow> string \<Rightarrow> bool"
  env_open :: "nat \<Rightarrow> string \<Rightarrow> nat + string"
  env_decode_all :: "string \<Rightarrow> string + string"
  env_init_module :: "nat \<Rightarrow> string \<Rightarrow> nat + unit"
  env_finit_module :: "nat \<Rightarrow> string \<Rightarrow> nat + unit"

record module_loader =
  mod_dir :: string
  loaded :: "string set"
  attempts :: nat
  inits :: "string list"

definition module_loader_new :: "string \<Rightarrow> module_loader" where
  "module_loader_new dir = \<lparr>mod_dir = dir, loaded = {}, attempts = 0, inits = []\<rparr>"

abbreviation (input) EEXIST :: nat where "EEXIST \<equiv> 17"

definition map_init_module_result :: "nat + unit \<Rightarrow> load_error + unit" where
  "map_init_module_result r =
     (case r of Inr _ \<Rightarrow> Ok () | Inl e \<Rightarrow> if e = EEXIST then Ok () else Err (Syscall e))"

definition init_module_image :: "kernel_env \<Rightarrow> nat \<Rightarrow> string \<Rightarrow> load_error + unit" where
  "init_module_image env n path =
     (case env_open env n path of
        Inl e \<Rightarrow> Err (LoadIo e)
      | Inr content \<Rightarrow>
          if extension path = Some ''zst'' then
            case env_decode_all env content of
              Inl e \<Rightarrow> Err (Decompress (''zstd: '' @ e))
            | Inr img \<Rightarrow> map_init_module_result (env_init_module env n img)
          else map_init_module_result (env_finit_module env n content))"

definition load_by_path ::
  "kernel_env \<Rightarrow> string \<Rightarrow> module_loader \<Rightarrow> (load_error + bool) \<times> module_loader" where
  "load_by_path env relative_path ld =
     (case get_module_name relative_path of
        None \<Rightarrow> (Err (InvalidPath relative_path), ld)
      | Some module_name \<Rightarrow>
          if module_name \<in> loaded ld then (Ok False, ld)
          else
            let full_path = path_join (mod_dir ld) relative_path;
                n = attempts ld;
                ld = ld\<lparr>attempts := n + 1\<rparr>
            in if \<not> env_exists env n full_path then (Err (NotFound full_path), ld)
               else
                 case init_module_image env n full_path of
                   Inl e \<Rightarrow> (Err e, ld)
                 | Inr _ \<Rightarrow> (Ok True, ld\<lparr>loaded := insert module_name (loaded ld),
                                          inits := inits ld @ [relative_path]\<rparr>))"

fun load_each ::
  "kernel_env \<Rightarrow> string list \<Rightarrow> nat \<Rightarrow> module_loader \<Rightarrow> (load_error + nat) \<times> module_loader" where
  "load_each env [] loaded_count ld = (Ok loaded_count, ld)"
| "load_each env (path # rest) loaded_count ld =
     (case load_by_path env path ld of
        (Inl e, ld) \<Rightarrow> (Err e, ld)
      | (Inr new, ld) \<Rightarrow>
          load_each env rest (if new then saturating_add u64_max loaded_count 1 else loaded_count) ld)"

definition load_module ::
  "kernel_env \<Rightarrow> string \<Rightarrow> dep_db \<Rightarrow> module_loader \<Rightarrow> (load_error + nat) \<times> module_loader" where
  "load_module env module_name db ld =
     (case resolve_load_order db module_name of
        None \<Rightarrow> (Err (NotFound module_name), ld)
      | Some load_order \<Rightarrow> load_each env load_order 0 ld)"

section \<open>Devices in sysfs\<close>

text \<open>
  \<open>/sys/bus\<close> as one scan reads it: an entry or a directory that cannot be read is an error
  number, and each device directory holds what reading its \<open>modalias\<close> file answers.
\<close>

record bus_dir =
  has_devices :: bool
  device_entries :: "nat + (nat + (nat + string)) list"

record sysfs =
  bus_exists :: bool
  bus_entries :: "nat + (nat + bus_dir) list"

definition ok_values :: "('e + 'a) list \<Rightarrow> 'a list" where
  "ok_values rs = List.map_filter (\<lambda>r. case r of Inl _ \<Rightarrow> None | Inr x \<Rightarrow> Some x) rs"

definition read_modalias :: "nat + string \<Rightarrow> string option" where
  "read_modalias answer =
     (case read_to_string answer of
        Inl _ \<Rightarrow> None
      | Inr s \<Rightarrow> let modalias = str_trim s in if modalias = [] then None else Some modalias)"

definition for_each_modalias :: "sysfs \<Rightarrow> (string \<Rightarrow> 'a \<Rightarrow> 'a) \<Rightarrow> 'a \<Rightarrow> (nat + unit) \<times> 'a" where
  "for_each_modalias sys callback st =
     (if \<not> bus_exists sys then (Ok (), st)
      else
        case bus_entries sys of
          Inl e \<Rightarrow> (Err e, st)
        | Inr entries \<Rightarrow>
            let devices_dirs = filter has_devices (ok_values entries) in
            (Ok (), fold (\<lambda>dir st.
               case device_entries dir of
                 Inl _ \<Rightarrow> st
               | Inr devices \<Rightarrow> fold callback (List.map_filter read_modalias (ok_values devices)) st)
               devices_dirs st))"

section \<open>The module daemon\<close>

record modd_loader =
  md_aliases :: alias_db
  md_deps :: dep_db
  md_kernel :: module_loader

definition loader_new :: "string \<Rightarrow> nat + string \<Rightarrow> nat + string \<Rightarrow> io_error + modd_loader" where
  "loader_new dir alias_answer dep_answer =
     and_then (aliasdb_load alias_answer) (\<lambda>aliases.
     and_then (depdb_load dep_answer) (\<lambda>deps.
       Ok \<lparr>md_aliases = aliases, md_deps = deps, md_kernel = module_loader_new dir\<rparr>))"

definition loader_load :: "kernel_env \<Rightarrow> string \<Rightarrow> modd_loader \<Rightarrow> nat \<times> modd_loader" where
  "loader_load env modalias md =
     (case find_module (md_aliases md) modalias of
        None \<Rightarrow> (0, md)
      | Some module_name \<Rightarrow>
          case load_module env module_name (md_deps md) (md_kernel md) of
            (Inr cnt, ld) \<Rightarrow> (if cnt > 0 then cnt else 0, md\<lparr>md_kernel := ld\<rparr>)
          | (Inl _, ld) \<Rightarrow> (0, md\<lparr>md_kernel := ld\<rparr>))"

definition load_unseen ::
  "kernel_env \<Rightarrow> string \<Rightarrow> string set \<times> modd_loader \<Rightarrow> nat \<times> string set \<times> modd_loader" where
  "load_unseen env modalias st =
     (let (seen_aliases, md) = st in
      if modalias \<in> seen_aliases then (0, seen_aliases, md)
      else let (cnt, md) = loader_load env modalias md in (cnt, insert modalias seen_aliases, md))"

definition sweep :: "kernel_env \<Rightarrow> sysfs \<Rightarrow> modd_loader \<Rightarrow> nat \<times> modd_loader" where
  "sweep env sys md =
     (let (_, total, _, md) =
        for_each_modalias sys (\<lambda>modalias (total, seen_aliases, md).
          let (cnt, st) = load_unseen env modalias (seen_aliases, md)
          in (saturating_add u64_max total cnt, st)) (0, {}, md)
      in (total, md))"

section \<open>Uevents and the event loop\<close>

datatype uevent_action = Add | Remove | Other string

record uevent =
  ue_action :: uevent_action
  ue_modalias :: "string option"
  ue_subsystem :: "string option"

definition parse_action :: "string \<Rightarrow> uevent_action" where
  "parse_action act =
     (if act = ''add'' then Add else if act = ''remove'' then Remove else Other act)"

fun scan_keys :: "string list \<Rightarrow> string option \<Rightarrow> string option \<Rightarrow> string option \<times> string option" where
  "scan_keys [] modalias subsystem = (modalias, subsystem)"
| "scan_keys (s # parts) modalias subsystem =
     (case split_once (CHR ''='') s of
        None \<Rightarrow> scan_keys parts modalias subsystem
      | Some (k, v) \<Rightarrow>
          if k = ''MODALIAS'' then scan_keys parts (Some v) subsystem
          else if k = ''SUBSYSTEM'' then scan_keys parts modalias (Some v)
          else scan_keys parts modalias subsystem)"

definition parse_uevent :: "string \<Rightarrow> uevent" where
  "parse_uevent data =
     (case filter (\<lambda>part. utf8_valid part \<and> part \<noteq> []) (split_at (CHR 0x00) data) of
        [] \<Rightarrow> \<lparr>ue_action = Other [], ue_modalias = None, ue_subsystem = None\<rparr>
      | header # parts \<Rightarrow>
          let action = (case split_once (CHR ''@'') header of
                          None \<Rightarrow> Other header | Some (act, _) \<Rightarrow> parse_action act)
          in if action \<noteq> Add then \<lparr>ue_action = action, ue_modalias = None, ue_subsystem = None\<rparr>
             else let (modalias, subsystem) = scan_keys parts None None
                  in \<lparr>ue_action = action, ue_modalias = modalias, ue_subsystem = subsystem\<rparr>)"

abbreviation (input) UEVENT_MAX_SIZE :: nat where "UEVENT_MAX_SIZE \<equiv> 8192"

text \<open>Receiving fills a buffer of fixed size; the rest of a longer datagram is lost.\<close>

definition uevent_recv :: "nat + string \<Rightarrow> nat + uevent" where
  "uevent_recv answer =
     (case answer of
        Inl e \<Rightarrow> Err e
      | Inr datagram \<Rightarrow> Ok (parse_uevent (take UEVENT_MAX_SIZE datagram)))"

text \<open>
  The loop consumes the answers of the socket; it is left when receiving fails, which the
  second component reports.  With no further answer it is still waiting.
\<close>

fun event_loop :: "kernel_env \<Rightarrow> (nat + string) list \<Rightarrow> modd_loader \<Rightarrow> modd_loader \<times> bool" where
  "event_loop env [] md = (md, False)"
| "event_loop env (answer # answers) md =
     (case uevent_recv answer of
        Inl _ \<Rightarrow> (md, True)
      | Inr event \<Rightarrow>
          if ue_action event \<noteq> Add then event_loop env answers md
          else
            case ue_modalias event of
              None \<Rightarrow> event_loop env answers md
            | Some modalias \<Rightarrow> event_loop env answers (snd (loader_load env modalias md)))"

text \<open>What the world answers to \<open>main\<close>, in the order in which it asks.\<close>

record modd_io =
  io_status :: "nat + unit"
  io_release :: string
  io_aliases :: "nat + string"
  io_deps :: "nat + string"
  io_listen :: "nat + unit"
  io_sysfs :: sysfs
  io_ready :: "nat + unit"
  io_uevents :: "(nat + string) list"

datatype modd_error = MdOs nat | MdLoad io_error

definition modd_main :: "kernel_env \<Rightarrow> modd_io \<Rightarrow> modd_error + modd_loader \<times> bool" where
  "modd_main env io =
     and_then (map_err MdOs (io_status io)) (\<lambda>_.
     and_then (map_err MdLoad
         (loader_new (path_join ''/lib/modules'' (io_release io)) (io_aliases io) (io_deps io))) (\<lambda>md.
     and_then (map_err MdOs (io_listen io)) (\<lambda>_.
       let (_, md) = sweep env (io_sysfs io) md in
     and_then (map_err MdOs (io_ready io)) (\<lambda>_.
       Ok (event_loop env (io_uevents io) md)))))"

section \<open>Early loading\<close>

definition module_dir :: "string \<Rightarrow> string \<Rightarrow> string" where
  "module_dir root krel = path_join (path_join root ''lib/modules'') krel"

definition millefeuille_load ::
  "kernel_env \<Rightarrow> string \<Rightarrow> string \<Rightarrow> nat + string \<Rightarrow> nat + string \<Rightarrow> sysfs
    \<Rightarrow> io_error + nat \<times> module_loader" where
  "millefeuille_load env root krel alias_answer dep_answer sys =
     and_then (aliasdb_load alias_answer) (\<lambda>aliases.
     and_then (depdb_load dep_answer) (\<lambda>deps.
       case for_each_modalias sys (\<lambda>modalias (total, ld).
              case find_module aliases modalias of
                None \<Rightarrow> (total, ld)
              | Some module_name \<Rightarrow>
                  case load_module env module_name deps ld of
                    (Inr cnt, ld) \<Rightarrow> (saturating_add u64_max total cnt, ld)
                  | (Inl _, ld) \<Rightarrow> (total, ld))
              (0, module_loader_new (module_dir root krel)) of
         (Inl e, _) \<Rightarrow> Err (OsError e)
       | (Inr _, result) \<Rightarrow> Ok result))"

end
