(* ===== verification/Modd_Properties.thy ===== *)
theory Modd_Properties
  imports Modd
begin

text \<open>
  Properties of kernel module loading, from the alias pattern that a device matches to the
  order in which modules reach the kernel.
\<close>

section \<open>Lemmas\<close>

definition name_of :: "string \<Rightarrow> string" where
  "name_of path = the (get_module_name path)"

text \<open>
  What the loader has done so far: no module twice, and each one after the modules it
  depends on, unless they depend on it in turn.
\<close>

definition loads_in_order :: "dep_db \<Rightarrow> string list \<Rightarrow> bool" where
  "loads_in_order db ps \<longleftrightarrow>
     distinct (map name_of ps)
     \<and> (\<forall>pre p post. ps = pre @ p # post \<longrightarrow>
          (\<exists>i < length (db_modules db). module_path db i = p
             \<and> (\<forall>d. (i, d) \<in> dep_edges db \<longrightarrow>
                  module_key db d \<in> name_of ` set pre \<or> (d, i) \<in> (dep_edges db)\<^sup>*)))"

definition loader_inv :: "dep_db \<Rightarrow> module_loader \<Rightarrow> bool" where
  "loader_inv db ld \<longleftrightarrow> loaded ld = name_of ` set (inits ld) \<and> loads_in_order db (inits ld)"

definition named_paths :: "dep_db \<Rightarrow> bool" where
  "named_paths db \<longleftrightarrow>
     (\<forall>i < length (db_modules db). get_module_name (module_path db i) = Some (module_key db i))"

lemma index_named_paths: "utf8_valid src \<Longrightarrow> named_paths (index src)"
  by (simp add: named_paths_def index_entry)

lemma depdb_load_Ok: "depdb_load answer = Ok db \<longleftrightarrow> (\<exists>src. answer = Inr src \<and> utf8_valid src \<and> db = index src)"
  by (auto simp: depdb_load_def read_to_string_def result_iffs split: sum.splits if_splits)

lemma aliasdb_load_Ok:
  "aliasdb_load answer = Ok db \<longleftrightarrow>
    (\<exists>src. answer = Inr src \<and> utf8_valid src \<and> db = \<lparr>al_text = src, al_entries = parse_text src\<rparr>)"
  by (auto simp: aliasdb_load_def read_to_string_def result_iffs split: sum.splits if_splits)

lemma loads_in_order_snoc:
  assumes "loads_in_order db ps" "i < length (db_modules db)" "name_of (module_path db i) \<notin> name_of ` set ps"
    "\<forall>d. (i, d) \<in> dep_edges db \<longrightarrow> module_key db d \<in> name_of ` set ps \<or> (d, i) \<in> (dep_edges db)\<^sup>*"
  shows "loads_in_order db (ps @ [module_path db i])"
  unfolding loads_in_order_def
proof (intro conjI allI impI)
  show "distinct (map name_of (ps @ [module_path db i]))"
    using assms(1,3) by (simp add: loads_in_order_def)
  fix pre p post
  assume split: "ps @ [module_path db i] = pre @ p # post"
  show "\<exists>i < length (db_modules db). module_path db i = p
    \<and> (\<forall>d. (i, d) \<in> dep_edges db \<longrightarrow> module_key db d \<in> name_of ` set pre \<or> (d, i) \<in> (dep_edges db)\<^sup>*)"
  proof (cases post rule: rev_cases)
    case Nil
    then show ?thesis using split assms(2,4) by auto
  next
    case (snoc post' x)
    then have "ps = pre @ p # post'" using split by (simp flip: append_Cons append_assoc)
    then show ?thesis using assms(1) by (simp add: loads_in_order_def)
  qed
qed

text \<open>One module of a load order, the modules before it being loaded.\<close>

lemma load_by_path_inv:
  assumes "named_paths db" "loader_inv db ld" "i < length (db_modules db)"
    "\<forall>d. (i, d) \<in> dep_edges db \<longrightarrow> module_key db d \<in> loaded ld \<or> (d, i) \<in> (dep_edges db)\<^sup>*"
    "load_by_path env (module_path db i) ld = (r, ld')"
  shows "loader_inv db ld' \<and> loaded ld \<subseteq> loaded ld'
    \<and> (\<forall>b. r = Ok b \<longrightarrow> module_key db i \<in> loaded ld'
         \<and> length (inits ld') = length (inits ld) + (if b then 1 else 0))"
proof -
  have name: "get_module_name (module_path db i) = Some (module_key db i)"
    "name_of (module_path db i) = module_key db i"
    using assms(1,3) by (auto simp: named_paths_def name_of_def)
  have new: "loader_inv db (ld\<lparr>attempts := n, loaded := insert (module_key db i) (loaded ld),
      inits := inits ld @ [module_path db i]\<rparr>)" if "module_key db i \<notin> loaded ld" for n
    using loads_in_order_snoc [of db "inits ld" i] assms(2-4) name that by (auto simp: loader_inv_def)
  have idle: "loader_inv db (ld\<lparr>attempts := n\<rparr>)" for n using assms(2) by (simp add: loader_inv_def)
  show ?thesis
    using assms(2,5) new idle
    by (auto simp: load_by_path_def name Let_def split: if_splits sum.splits)
qed

lemma load_each_inv:
  assumes "named_paths db" "set ixs \<subseteq> {..< length (db_modules db)}"
  shows "loader_inv db ld \<Longrightarrow> deps_before db V ixs \<Longrightarrow> \<forall>d \<in> V. module_key db d \<in> loaded ld \<Longrightarrow>
    load_each env (map (module_path db) ixs) cnt ld = (r, ld') \<Longrightarrow>
    loader_inv db ld' \<and> loaded ld \<subseteq> loaded ld' \<and> (\<forall>n. r = Ok n \<longrightarrow> module_key db ` set ixs \<subseteq> loaded ld')"
  using assms(2)
proof (induction ixs arbitrary: V cnt ld)
  case (Cons i ixs)
  obtain s ld1 where s: "load_by_path env (module_path db i) ld = (s, ld1)"
    by (cases "load_by_path env (module_path db i) ld")
  have one: "loader_inv db ld1 \<and> loaded ld \<subseteq> loaded ld1 \<and> (\<forall>b. s = Ok b \<longrightarrow> module_key db i \<in> loaded ld1
         \<and> length (inits ld1) = length (inits ld) + (if b then 1 else 0))"
    by (rule load_by_path_inv [OF assms(1) Cons(2) _ _ s]) (use Cons(3,4,6) in auto)
  show ?case
  proof (cases s)
    case (Inl e)
    then show ?thesis using Cons(5) s one by auto
  next
    case (Inr b)
    have "loader_inv db ld' \<and> loaded ld1 \<subseteq> loaded ld' \<and> (\<forall>n. r = Ok n \<longrightarrow> module_key db ` set ixs \<subseteq> loaded ld')"
      by (rule Cons.IH [where V = "insert i V"]) (use Cons Inr s one in auto)
    then show ?thesis using one Inr by auto
  qed
qed auto

lemma edges_bound: "(i, j) \<in> (dep_edges db)\<^sup>* \<Longrightarrow> i < length (db_modules db) \<Longrightarrow> j < length (db_modules db)"
  by (induction rule: rtrancl_induct) (auto simp: dep_edges_def dest: dep_indices_bound)

lemma load_module_inv:
  assumes "named_paths db" "loader_inv db ld" "load_module env name db ld = (r, ld')"
  shows "loader_inv db ld' \<and> loaded ld \<subseteq> loaded ld'
    \<and> (\<forall>n. r = Ok n \<longrightarrow> (\<exists>start. dep_find db name = Some start
         \<and> (\<forall>i. (start, i) \<in> (dep_edges db)\<^sup>* \<longrightarrow> module_key db i \<in> loaded ld')))"
proof (cases "resolve_load_order db name")
  case None
  then show ?thesis using assms by (auto simp: load_module_def)
next
  case (Some order)
  obtain start ixs where o: "dep_find db name = Some start" "order = map (module_path db) ixs"
    "distinct ixs" "set ixs = {i. (start, i) \<in> (dep_edges db)\<^sup>*}" "deps_before db {} ixs"
    using load_order_spec [OF Some] by metis
  have "set ixs \<subseteq> {..< length (db_modules db)}"
    using o(4) edges_bound dep_find_bound [OF o(1)] by auto
  then show ?thesis
    using load_each_inv [OF assms(1) _ assms(2) o(5), of env 0 r ld'] assms(3) Some o
    by (auto simp: load_module_def)
qed

text \<open>The same for the daemon, over the sweep and the event loop.\<close>

definition modd_inv :: "alias_db \<Rightarrow> dep_db \<Rightarrow> modd_loader \<Rightarrow> bool" where
  "modd_inv al db md \<longleftrightarrow> md_aliases md = al \<and> md_deps md = db \<and> loader_inv db (md_kernel md)"

lemma loader_load_inv:
  "named_paths db \<Longrightarrow> modd_inv al db md \<Longrightarrow> modd_inv al db (snd (loader_load env modalias md))"
  using load_module_inv [of db "md_kernel md" env]
  by (auto simp: loader_load_def modd_inv_def split: option.split prod.split sum.split)

lemma for_each_modalias_invariant:
  assumes "\<And>modalias st. P st \<Longrightarrow> P (callback modalias st)" "P st"
  shows "P (snd (for_each_modalias sys callback st))"
proof -
  have inner: "P (fold callback ms st)" if "P st" for ms st
    using that by (induction ms arbitrary: st) (auto intro: assms(1))
  have "P (fold (\<lambda>dir st. case device_entries dir of Inl _ \<Rightarrow> st
      | Inr devices \<Rightarrow> fold callback (List.map_filter read_modalias (ok_values devices)) st) dirs st)" for dirs
    using assms(2) by (induction dirs arbitrary: st) (auto intro: inner split: sum.split)
  then show ?thesis
    using assms(2) by (auto simp: for_each_modalias_def Let_def split: sum.split)
qed

lemma sweep_inv: "named_paths db \<Longrightarrow> modd_inv al db md \<Longrightarrow> modd_inv al db (snd (sweep env sys md))"
proof -
  assume db: "named_paths db" and md: "modd_inv al db md"
  let ?P = "\<lambda>(total :: nat, seen_aliases :: string set, md). modd_inv al db md"
  have "?P (snd (for_each_modalias sys (\<lambda>modalias (total, seen_aliases, md).
      let (cnt, st) = load_unseen env modalias (seen_aliases, md)
      in (saturating_add u64_max total cnt, st)) (0, {}, md)))"
    by (rule for_each_modalias_invariant)
      (use md loader_load_inv [OF db, of al _ env] in
        \<open>auto simp: load_unseen_def Let_def split: prod.splits if_splits, metis snd_conv\<close>)
  then show ?thesis by (auto simp: sweep_def Let_def split: prod.splits)
qed

lemma event_loop_inv:
  "named_paths db \<Longrightarrow> modd_inv al db md \<Longrightarrow> modd_inv al db (fst (event_loop env answers md))"
  by (induction env answers md rule: event_loop.induct)
    (auto simp: loader_load_inv split: sum.split option.split)

lemma event_loop_append:
  "\<forall>a \<in> set xs. \<not> isl a \<Longrightarrow>
    event_loop env (xs @ ys) md = event_loop env ys (fst (event_loop env xs md))"
  by (induction xs arbitrary: md) (auto simp: uevent_recv_def split: sum.splits option.splits)

lemma event_loop_left: "snd (event_loop env xs md) \<longleftrightarrow> (\<exists>a \<in> set xs. isl a)"
  by (induction xs arbitrary: md) (auto simp: uevent_recv_def split: sum.splits option.splits)

text \<open>The loop of a run that reached it starts in a state that satisfies the invariant.\<close>

lemma modd_main_Ok:
  assumes "modd_main env io = Ok r"
  obtains asrc dsrc md0 where "io_aliases io = Inr asrc" "io_deps io = Inr dsrc"
    "utf8_valid asrc" "utf8_valid dsrc" "named_paths (index dsrc)"
    "modd_inv \<lparr>al_text = asrc, al_entries = parse_text asrc\<rparr> (index dsrc) md0"
    "\<And>answers. modd_main env (io\<lparr>io_uevents := answers\<rparr>) = Ok (event_loop env answers md0)"
    "r = event_loop env (io_uevents io) md0"
proof -
  obtain asrc dsrc where src: "io_aliases io = Inr asrc" "io_deps io = Inr dsrc"
    "utf8_valid asrc" "utf8_valid dsrc"
    using assms by (auto simp: modd_main_def loader_new_def result_iffs depdb_load_Ok aliasdb_load_Ok)
  let ?al = "\<lparr>al_text = asrc, al_entries = parse_text asrc\<rparr>"
  define md1 where "md1 = \<lparr>md_aliases = ?al, md_deps = index dsrc,
    md_kernel = module_loader_new (path_join ''/lib/modules'' (io_release io))\<rparr>"
  have new: "loader_new (path_join ''/lib/modules'' (io_release io)) (io_aliases io) (io_deps io) = Ok md1"
    using src by (simp add: loader_new_def aliasdb_load_def depdb_load_def read_to_string_def md1_def)
  have main: "modd_main env (io\<lparr>io_uevents := answers\<rparr>)
      = Ok (event_loop env answers (snd (sweep env (io_sysfs io) md1)))" for answers
    using assms by (auto simp: modd_main_def new result_iffs split: prod.splits)
  have "modd_inv ?al (index dsrc) md1"
    by (simp add: modd_inv_def md1_def loader_inv_def module_loader_new_def loads_in_order_def)
  then have "modd_inv ?al (index dsrc) (snd (sweep env (io_sysfs io) md1))"
    by (rule sweep_inv [OF index_named_paths [OF src(4)]])
  moreover have "r = event_loop env (io_uevents io) (snd (sweep env (io_sysfs io) md1))"
    using main [of "io_uevents io"] assms by simp
  ultimately show ?thesis
    using that [OF src index_named_paths [OF src(4)] _ main] by blast
qed

text \<open>An environment in which every module file is there and the kernel takes every module.\<close>

definition cooperative :: "kernel_env \<Rightarrow> bool" where
  "cooperative env \<longleftrightarrow>
     (\<forall>n path. env_exists env n path \<and> is_ok (env_open env n path))
     \<and> (\<forall>n img. is_ok (env_decode_all env img) \<and> is_ok (env_init_module env n img)
          \<and> is_ok (env_finit_module env n img))"

lemma cooperative_image:
  assumes "cooperative env"
  shows "init_module_image env n path = Ok ()"
proof -
  obtain content where open_file: "env_open env n path = Inr content"
    using assms unfolding cooperative_def is_ok_iff by blast
  obtain img where decode: "env_decode_all env content = Inr img"
    using assms unfolding cooperative_def is_ok_iff by blast
  have "env_init_module env n img = Inr ()" "env_finit_module env n content = Inr ()"
    using assms by (auto simp: cooperative_def is_ok_iff)
  then show ?thesis
    using open_file decode by (simp add: init_module_image_def map_init_module_result_def)
qed

lemma load_each_cooperative:
  assumes "cooperative env" "\<forall>p \<in> set ps. get_module_name p \<noteq> None"
  shows "\<exists>n ld'. load_each env ps cnt ld = (Ok n, ld')"
  using assms(2)
proof (induction ps arbitrary: cnt ld)
  case (Cons p ps)
  have ex: "env_exists env n path" for n path using assms(1) by (simp add: cooperative_def)
  obtain name where name: "get_module_name p = Some name" using Cons.prems by auto
  have "\<exists>b ld1. load_by_path env p ld = (Ok b, ld1)"
    using name cooperative_image [OF assms(1)] ex
    by (cases "name \<in> loaded ld") (auto simp: load_by_path_def Let_def)
  then show ?case using Cons by auto
qed simp

lemma load_module_cooperative:
  assumes "cooperative env" "named_paths db" "dep_find db name = Some start"
  shows "\<exists>n ld'. load_module env name db ld = (Ok n, ld')"
proof -
  obtain order where o: "resolve_load_order db name = Some order"
    using assms(3) by (simp add: resolve_load_order_def)
  obtain start' ixs where ixs: "dep_find db name = Some start'" "order = map (module_path db) ixs"
    "set ixs = {i. (start', i) \<in> (dep_edges db)\<^sup>*}"
    using load_order_spec [OF o] by metis
  have "\<forall>p \<in> set order. get_module_name p \<noteq> None"
    using ixs assms(2) edges_bound dep_find_bound [OF ixs(1)] by (auto simp: named_paths_def)
  then show ?thesis using load_each_cooperative [OF assms(1)] o by (simp add: load_module_def)
qed

text \<open>A lookup by name succeeds for every module that a line of the file defines.\<close>

lemma dep_find_line:
  assumes "utf8_valid src" "(n, rest) \<in> set (List.map_filter dep_line (split_at newline src))"
    "key n = key name"
  shows "\<exists>start. dep_find (index src) name = Some start"
proof -
  have "(n, rest) \<in> set (db_view (index src))" using index_view [OF assms(1)] assms(2) by simp
  then obtain i where "i < length (db_modules (index src))" "module_key (index src) i = key name"
    using assms(3) by (auto simp: db_view_def entry_view_def module_key_def in_set_conv_nth)
  then show ?thesis using dep_find_key(2) [OF index_sorted] by (metis not_Some_eq)
qed

lemma add_event_loads:
  assumes env: "cooperative env"
    and main: "modd_main env (io\<lparr>io_uevents := answers @ [Inr datagram]\<rparr>) = Ok (md, left)"
    and received: "\<forall>a \<in> set answers. \<not> isl a"
    and event: "parse_uevent (take UEVENT_MAX_SIZE datagram)
      = \<lparr>ue_action = Add, ue_modalias = Some modalias, ue_subsystem = sub\<rparr>"
    and served: "find_map (\<lambda>(pattern, module). if glob pattern modalias then Some module else None)
      (List.map_filter alias_line (split_at newline asrc)) = Some name" "io_aliases io = Inr asrc"
    and line: "(n, rest) \<in> set (List.map_filter dep_line (split_at newline dsrc))" "key n = key name"
      "io_deps io = Inr dsrc"
  shows "\<exists>start < length (db_modules (md_deps md)). module_key (md_deps md) start = key name
    \<and> (\<forall>i. (start, i) \<in> (dep_edges (md_deps md))\<^sup>* \<longrightarrow> module_key (md_deps md) i \<in> loaded (md_kernel md))"
proof -
  let ?al = "\<lparr>al_text = asrc, al_entries = parse_text asrc\<rparr>"
  obtain md0 where m: "utf8_valid asrc" "utf8_valid dsrc" "named_paths (index dsrc)"
    "modd_inv ?al (index dsrc) md0" "(md, left) = event_loop env (answers @ [Inr datagram]) md0"
    using modd_main_Ok [OF main] served(2) line(3) by (auto simp del: event_loop.simps)
  define md1 where "md1 = fst (event_loop env answers md0)"
  have inv: "modd_inv ?al (index dsrc) md1" unfolding md1_def by (rule event_loop_inv) (rule m)+
  have "(md, left) = event_loop env [Inr datagram] md1"
    using m(5) event_loop_append [OF received] by (simp add: md1_def)
  then have md: "md = snd (loader_load env modalias md1)"
    using event by (simp add: uevent_recv_def)
  have found: "find_module (md_aliases md1) modalias = Some name"
    using inv served(1) find_module_lines [OF m(1), of modalias] by (simp add: modd_inv_def)
  obtain start where start: "dep_find (index dsrc) name = Some start"
    using dep_find_line [OF m(2) line(1,2)] by blast
  obtain cnt ld where load: "load_module env name (index dsrc) (md_kernel md1) = (Ok cnt, ld)"
    using load_module_cooperative [OF env m(3) start] by blast
  have "md_kernel md = ld" "md_deps md = index dsrc"
    using md found load inv by (simp_all add: loader_load_def modd_inv_def)
  moreover have "\<forall>i. (start, i) \<in> (dep_edges (index dsrc))\<^sup>* \<longrightarrow> module_key (index dsrc) i \<in> loaded ld"
    using load_module_inv [OF m(3) _ load] inv start by (auto simp: modd_inv_def)
  ultimately show ?thesis
    using dep_find_bound [OF start] dep_find_key(1) [OF index_sorted start] by auto
qed

section \<open>An example\<close>

definition demo_deps :: string where
  "demo_deps = ''net/igc.ko: ptp-x.ko'' @ [newline] @ ''ptp-x.ko:'' @ [newline]"

definition demo_aliases :: string where
  "demo_aliases = ''alias pci:v8* igc'' @ [newline]"

definition demo_event :: string where
  "demo_event = ''add@/devices/pci0'' @ [CHR 0x00] @ ''MODALIAS=pci:v8d5'' @ [CHR 0x00]"

definition demo_env :: kernel_env where
  "demo_env = \<lparr>env_exists = (\<lambda>_ _. True), env_open = (\<lambda>_ path. Inr path), env_decode_all = Inr,
     env_init_module = (\<lambda>_ _. Inr ()), env_finit_module = (\<lambda>_ _. Inr ())\<rparr>"

definition demo_sysfs :: sysfs where
  "demo_sysfs = \<lparr>bus_exists = True, bus_entries = Inr []\<rparr>"

lemma demo_valid: "utf8_valid demo_deps" "utf8_valid demo_aliases"
  by code_simp+

lemma demo_lines:
  "List.map_filter dep_line (split_at newline demo_deps)
    = [(''igc'', ''net/igc.ko'', [''ptp-x'']), (''ptp-x'', ''ptp-x.ko'', [])]"
proof -
  have "split_at newline demo_deps = [''net/igc.ko: ptp-x.ko'', ''ptp-x.ko:'', []]" by code_simp
  moreover have "dep_line ''net/igc.ko: ptp-x.ko'' = Some (''igc'', ''net/igc.ko'', [''ptp-x''])"
    "dep_line ''ptp-x.ko:'' = Some (''ptp-x'', ''ptp-x.ko'', [])" "dep_line [] = None"
    by (simp_all add: dep_line_def str_trim_graphic graphic_def byte_between_def file_name_of_def
        stripped_name_def strip_suffix_def List.map_filter_simps)
  ultimately show ?thesis by (simp add: List.map_filter_simps)
qed

lemma demo_alias_lines:
  "List.map_filter alias_line (split_at newline demo_aliases) = [(''pci:v8*'', ''igc'')]"
proof -
  have "split_at newline demo_aliases = [''alias pci:v8* igc'', []]" by code_simp
  then show ?thesis
    by (simp add: alias_line_def str_trim_graphic graphic_def byte_between_def rsplit_once_def
        List.map_filter_simps)
qed

lemma demo_uevent:
  "parse_uevent (take UEVENT_MAX_SIZE demo_event)
    = \<lparr>ue_action = Add, ue_modalias = Some ''pci:v8d5'', ue_subsystem = None\<rparr>"
  by code_simp

lemma demo_glob: "glob ''pci:v8*'' ''pci:v8d5''"
  unfolding glob_match_glob [symmetric] by code_simp

lemma demo_cooperative: "cooperative demo_env"
  by (simp add: cooperative_def demo_env_def)

definition demo_io :: modd_io where
  "demo_io = \<lparr>io_status = Ok (), io_release = ''6.18'', io_aliases = Inr demo_aliases,
     io_deps = Inr demo_deps, io_listen = Ok (), io_sysfs = demo_sysfs, io_ready = Ok (), io_uevents = []\<rparr>"

lemma demo_run: "\<exists>md. modd_main env (demo_io\<lparr>io_uevents := answers\<rparr>) = Ok (md, \<exists>a \<in> set answers. isl a)"
proof -
  obtain md1 where new: "loader_new (path_join ''/lib/modules'' ''6.18'') (Inr demo_aliases) (Inr demo_deps) = Ok md1"
    by (simp add: loader_new_def aliasdb_load_def depdb_load_def read_to_string_def demo_valid)
  obtain total md0 where sw: "sweep env demo_sysfs md1 = (total, md0)" by (cases "sweep env demo_sysfs md1")
  have "modd_main env (demo_io\<lparr>io_uevents := answers\<rparr>) = Ok (event_loop env answers md0)"
    using new sw by (simp add: modd_main_def demo_io_def)
  then show ?thesis using event_loop_left [of env answers md0] by (cases "event_loop env answers md0") simp
qed

lemma demo_alias: "find_map (\<lambda>(pattern, module). if glob pattern ''pci:v8d5'' then Some module else None)
    (List.map_filter alias_line (split_at newline demo_aliases)) = Some ''igc''"
  using demo_glob by (simp del: glob.simps add: demo_alias_lines)

lemma demo_line: "(''igc'', ''net/igc.ko'', [''ptp-x'']) \<in> set (List.map_filter dep_line (split_at newline demo_deps))"
  by (simp add: demo_lines)

lemma demo_loaded:
  assumes "modd_main demo_env (demo_io\<lparr>io_uevents := [] @ [Inr demo_event]\<rparr>) = Ok (md, False)"
  shows "''igc'' \<in> loaded (md_kernel md)"
  using add_event_loads [OF demo_cooperative assms _ demo_uevent demo_alias _ demo_line refl]
  by (auto simp: key_def demo_io_def)

section \<open>Properties\<close>

text \<open>
  C37: A modalias matches a pattern exactly when the pattern's meaning says so.  The loop with
  its single remembered star computes the declarative meaning, in which a star stands for any
  bytes, a question mark for one byte and any other byte for itself without regard to case.\<close>

theorem glob_match_equivalence: "glob_match_bytes pattern t = glob pattern t"
  by (rule glob_match_glob)

text \<open>
  C38: The database that indexing builds represents the file: reading its spans back gives, in
  the order of the module keys, the name, the path and the dependency names of every line that
  names a module, and nothing else.\<close>

theorem dep_db_represents_lines:
  assumes "depdb_load answer = Ok db"
  shows "answer = Inr (db_text db) \<and>
    db_view db = sort_key (\<lambda>(name, _). key name) (List.map_filter dep_line (split_at newline (db_text db)))"
proof -
  obtain src where src: "answer = Inr src" "utf8_valid src" "db = index src"
    using assms by (auto simp: depdb_load_Ok)
  then have "db_text db = src" by (simp add: index_def split: prod.split)
  then show ?thesis using src index_view [OF src(2)] by simp
qed

theorem dep_db_represents_lines_witness:
  "\<exists>db. depdb_load (Inr demo_deps) = Ok db \<and> db_view db
    = [(''igc'', ''net/igc.ko'', [''ptp-x'']), (''ptp-x'', ''ptp-x.ko'', [])]"
proof -
  have "depdb_load (Inr demo_deps) = Ok (index demo_deps)" by (simp add: depdb_load_Ok demo_valid)
  moreover have "sort_key (\<lambda>(name, _). key name)
      [(''igc'', ''net/igc.ko'', [''ptp-x'']), (''ptp-x'', ''ptp-x.ko'', [])]
    = [(''igc'', ''net/igc.ko'', [''ptp-x'']), (''ptp-x'', ''ptp-x.ko'', [])]"
    by code_simp
  moreover have "db_text (index demo_deps) = demo_deps" by (simp add: index_def split: prod.split)
  ultimately show ?thesis
    using dep_db_represents_lines [of "Inr demo_deps" "index demo_deps"] demo_lines by simp
qed







end
