(* ===== verification/Service_Wrapper.thy ===== *)
theory Service_Wrapper
  imports Supervisor_Safety
begin

text \<open>
  The code that \<open>#[granola::service]\<close> generates around the entry point of a daemon
  (\<open>libs/granola-macros/src/lib.rs\<close>), and what the supervisor makes of the way it ends.  Opening
  the kernel log and the notification socket may fail; the answers are arguments.
\<close>

text \<open>The process ends with code 1 exactly when the generated \<open>main\<close> sees an error.\<close>

definition service_exit_code :: "'e + 'a \<Rightarrow> int" where
  "service_exit_code r = (case r of Inl _ \<Rightarrow> 1 | Inr _ \<Rightarrow> 0)"

text \<open>The datagrams sent to the supervisor after the body has ended, and the exit code.\<close>

definition service_main :: "string \<Rightarrow> 'e + unit \<Rightarrow> 'e + unit \<Rightarrow> 'e + unit \<Rightarrow> string list \<times> int" where
  "service_main name log_init socket body =
     (case and_then log_init (\<lambda>_. socket) of
        Inl e \<Rightarrow> ([], service_exit_code (Err e :: 'e + unit))
      | Inr _ \<Rightarrow> ([notifier_stopping (notifier_new name) ''Graceful shutdown''], service_exit_code body))"

lemma service_main_parses:
  assumes "field_text name"
  shows "service_main name (Ok ()) (Ok ()) body = ([d], c) \<Longrightarrow> parse_notification d = Some (NotifyStopping name)"
  using parse_stopping [of "notifier_new name" "''Graceful shutdown''"] assms
  by (auto simp: service_main_def notifier_new_def notifier_new_with_socket_def newline_def)

text \<open>An exit with code 0 is taken for the intended end of the service.\<close>

lemma clean_exit:
  assumes "map_of (services s) name = Some st"
  shows "handle_service_exit name (Some 0) s
    = s\<lparr>services := alter name (\<lambda>_. st\<lparr>pid := None, status := Stopping\<rparr>) (services s)\<rparr>"
proof -
  have "should_restart (st\<lparr>pid := None\<rparr>) (Some 0) (sup_clock s) = (False, sup_clock s)"
    by (simp add: should_restart_def)
  then show ?thesis using assms by (simp add: handle_service_exit_def Let_def)
qed

text \<open>An exit with a failure code: the service is queued unless it had announced its end.\<close>

lemma failed_exit:
  assumes "sup_inv s" "map_of (services s) name = Some st" "restart_count st < 5"
  shows "\<exists>st'. map_of (services (handle_service_exit name (Some 1) s)) name = Some st'
    \<and> status st' = (if status st = Stopping then Failed else Pending)
    \<and> queued_names (restart_queue (handle_service_exit name (Some 1) s))
      = queued_names (restart_queue s) @ (if status st = Stopping then [] else [name])"
proof -
  have nm: "svc_name (service_def st) = name" using assms(1,2) by (auto simp: sup_inv_def)
  obtain a ck where sr: "should_restart (st\<lparr>pid := None\<rparr>) (Some 1) (sup_clock s) = (a, ck)" by fastforce
  then have a: "a \<longleftrightarrow> status st \<noteq> Stopping"
    using assms(3) by (auto simp: should_restart_def split: if_splits option.splits)
  obtain q st' ck' where sch: "schedule (restart_queue s) (st\<lparr>pid := None\<rparr>) ck = (q, st', ck')"
    by (meson prod_cases3)
  show ?thesis
    using assms(2) sr sch schedule_result [OF sch] nm a
    by (auto simp: handle_service_exit_def map_of_alter mark_failed_def Let_def)
qed

end
