(* ===== verification/Spec2Isabelle.thy ===== *)
theory Spec2Isabelle
  imports Granola_Properties Parttable_Properties Workload_Properties Rbac_Properties
    Network_Properties Slaac_Properties Gpt_Refinement Modd_Properties Service_Wrapper
begin

text \<open>
  Muak is an operating system image written in Rust: an init process that supervises a small set
  of daemons, reached from outside through one API gateway.  This development models its stateful
  and format-handling parts as executable functions and proves what keeps them correct.  Paths
  below are relative to \<open>src/\<close>.

  \<^bold>\<open>How the parts interact.\<close>  \<open>init/millefeuille\<close> loads kernel modules in the initial ramdisk and
  hands over to \<open>init/granola\<close>, process 1.  Granola reads the service files, starts each service
  once its dependencies run, receives the services' notifications on a socket, reaps children and
  queues restarts.  The daemons are wrapped by code that \<open>libs/granola-macros\<close> generates.
  \<open>services/modd\<close> loads modules for devices through \<open>libs/kmod\<close>; \<open>services/networkd\<close> configures the
  interfaces by DHCP and stateless autoconfiguration through \<open>libs/netlib\<close>; \<open>services/workloadd\<close>
  runs virtual machines; \<open>services/apid\<close> checks the permissions of \<open>libs/config\<close> and forwards calls
  to them.  \<open>libs/parttable\<close> writes the partition table of the disks that all of this boots from.

  \<^bold>\<open>Shared theories.\<close>  \<open>Prelude\<close> has the result type (\<open>Ok\<close> and \<open>Err\<close> over a sum), the integer
  operations of the standard library at their width, and hash maps as association lists whose
  order stands for the unspecified iteration order.  \<open>Rust_Strings\<close>, \<open>Rust_Text\<close>, \<open>Rust_Paths\<close> and
  \<open>Rust_Order\<close> have the string, path, comparison, sorting and searching functions that the sources
  call; \<open>Bytes\<close> has buffers, little endian integers and writers; \<open>Clock\<close> has clock readings, each
  call of \<open>Instant::now()\<close> being its own reading.

  \<^bold>\<open>Init supervisor\<close> (\<open>init/granola/src\<close>).
  \<^item> \<open>Service\<close>: \<open>supervisor/service.rs\<close> and \<open>dependency.rs\<close>; \<open>Restart_Queue\<close>: \<open>supervisor/restart.rs\<close>;
    \<open>Notify\<close>: \<open>runtime/notify.rs\<close> and \<open>supervisor/notify.rs\<close>; \<open>Loader\<close>: \<open>loader.rs\<close>.
  \<^item> \<open>Supervisor\<close>: \<open>supervisor/mod.rs\<close>, \<open>spawner.rs\<close>, \<open>reaper.rs\<close> and \<open>status.rs\<close>.  The record
    \<open>supervisor\<close> is the struct of the code; one function per handler; the event loop is the step
    relation \<open>sup_step\<close>, in which any enabled event may come next.
  \<^item> \<open>Supervisor_Safety\<close>: the invariant of the loop, for every spawn backend that keeps the contract
    of the \<open>Spawn\<close> trait (locale \<open>spawn_backend\<close>), with the real spawner as an interpretation.
  \<^item> \<open>Granola_Properties\<close>: at most one child per service in every run, starts gated by
    dependencies, the effect of an exit, the cycle check of the loader as equivalent to acyclicity,
    and progress of every loaded system.
  \<^item> \<open>Service_Wrapper\<close>: \<open>libs/granola-macros/src/lib.rs\<close>, the exit code and the notifications of a
    daemon.

  \<^bold>\<open>Partition tables\<close> (\<open>libs/parttable/src\<close>).
  \<^item> \<open>Gpt_Header\<close>, \<open>Gpt_Partition\<close>, \<open>Gpt_Table\<close>, \<open>Gpt_Layout\<close>, \<open>Gpt_Io\<close> and \<open>Mbr\<close> follow the files
    of the crate; the encoders and decoders are exact to the byte.
  \<^item> \<open>Parttable_Properties\<close>: partitions never overlap and stay in the usable range under every
    sequence of operations, what a placement guarantees, the written table reads back, and the
    planning loop returns the smallest multiple of its step that fits.
  \<^item> \<open>Gpt_Refinement\<close>: the table refines a finite map from numbers to disjoint extents (locale
    \<open>partition_store\<close>), through the write to disk and the read back.

  \<^bold>\<open>Workload daemon\<close> (\<open>services/workloadd/src\<close>).
  \<^item> \<open>Workload_State\<close>: \<open>api/vm.proto\<close>, the entries and the persisted files; \<open>Workload_Actor\<close>:
    \<open>actor/state.rs\<close>, with the actor's table as the record \<open>vm_actor\<close>, the directories it writes as
    \<open>vm_store\<close>, and the relation \<open>vm_reach\<close>; \<open>Workload_Ipc\<close>: \<open>ipc/mod.rs\<close>.
  \<^item> \<open>Workload_Safety\<close>, \<open>Workload_Properties\<close>: a running machine has a process, each outcome of a
    start, recovery after a crash of the daemon, which disks start-up deletes, and the second start
    after a failed stop.

  \<^bold>\<open>Access control\<close> (\<open>libs/config/src\<close>, \<open>services/apid\<close>).
  \<^item> \<open>Permission\<close>: \<open>permission.rs\<close> and \<open>auth.rs\<close>; \<open>Rbac\<close>: the build script that turns comments of the
    protobuf files into a rule table, the access check and the routing.
  \<^item> \<open>Rbac_Properties\<close>: a request reaches a backend only with the permission its method declares,
    revoked certificates are refused, every declared method has its rule, and collapsing a
    permission set to patterns loses nothing.

  \<^bold>\<open>Network daemon\<close> (\<open>services/networkd/src\<close>, \<open>libs/netlib/src\<close>).
  \<^item> \<open>Dhcp_Framing\<close>, \<open>Dhcp_Codec\<close>, \<open>Dhcp_Client\<close>: \<open>dhcp/\<close>; \<open>Icmpv6\<close> and \<open>Slaac\<close>: \<open>slaac/\<close> of both
    directories; \<open>Statemachine\<close>: the trait (locale \<open>state_machine\<close>) and its three tables.
  \<^item> \<open>Net_Interface\<close>: the actor of one interface, with \<open>actor_reach\<close>; \<open>Net_Supervisor\<close>: discovery,
    roles and failover, with \<open>sup_reach\<close>; \<open>Net_Interface_Safety\<close> and \<open>Net_Supervisor_Safety\<close> hold
    their invariants.
  \<^item> \<open>Network_Properties\<close>, \<open>Slaac_Properties\<close>: round trips of frames and advertisements, the
    checksum as the ones' complement sum, options and lease times, the four message exchange,
    well-formed actors, roles and failover, the two hour rule, and what monitoring can lose.

  \<^bold>\<open>Kernel modules\<close> (\<open>libs/kmod/src\<close>, \<open>services/modd/src\<close>, \<open>init/millefeuille/src/modules.rs\<close>).
  \<^item> \<open>Kmod_Deps\<close>: \<open>text.rs\<close> and \<open>deps.rs\<close>; \<open>Kmod_Alias\<close>: \<open>aliases.rs\<close>; \<open>Modd\<close>: \<open>kernel.rs\<close>,
    \<open>sysfs.rs\<close>, the daemon and the early loader; \<open>Kmod_Deps_Facts\<close>: the lemmas.
  \<^item> \<open>Modd_Properties\<close>: modules reach the kernel after their dependencies, the event of a device
    loads its module, the pattern loop agrees with a recursive matcher, and the index of byte spans
    represents the lines of the file.

  The properties at the end of this theory join components: the exit of modd and of any failed
  daemon, seen by granola.

  \<^bold>\<open>Outside code as parameters.\<close>  The kernel, the file system and the third-party crates answer
  through arguments: \<open>kernel_env\<close> for module loading, \<open>vm_env\<close> for the workload daemon, the spawn
  function and the list of wait results for granola, lists of received datagrams for sockets, a
  function for the CRC-32 of \<open>crc32fast\<close>, a codec for \<open>serde_json\<close> and \<open>toml\<close>.  A property
  that relies on their documented behaviour names it as a hypothesis, and its witness instantiates
  the parameter.

  \<^bold>\<open>Bounds and termination.\<close>  No definition uses fuel.  Loops are structural recursions or functions
  with a termination proof; \<open>smallest_disk\<close> may run for ever and is a partial function with the
  value \<open>None\<close> for that, and its property says when it returns.  Event loops are relations or
  recursions over the events received.  Integers whose width matters are words, or naturals with
  the overflow written out; overflow wraps as in the release profile.

  \<^bold>\<open>Not modelled.\<close>  Log output; the tokio runtime beyond the order of events; TLS, HTTP/2 and netlink
  transport; boot-time mounts and signals; the hypervisor command lines; the builders of file
  systems (btrfs, erofs, fatfs, esp) and boot images; disk encryption, TPM and keys; OCI images and
  the registry client; consoled, timed and provisiond; the build tools, the command line client, the
  end-to-end tests and the SELinux policy.  They are system calls, third-party code behind thin
  wrappers, or formats and tools that no modelled part calls.
\<close>

section \<open>Properties across components\<close>

definition demo_modd_state :: service_state where
  "demo_modd_state = demo_state \<lparr>svc_name = ''modd'', command = ''/sbin/modd'', depends_on = []\<rparr>"

definition demo_modd_sup :: "os_world supervisor" where
  "demo_modd_sup = demo_sup\<lparr>services := [(''modd'', demo_modd_state)], restart_queue := restart_queue_new\<rparr>"

text \<open>
  C40: A failing receive ends module loading for good.  When the socket reports an error, modd
  leaves its loop with the modules it has and returns success, the process ends with code 0, and
  granola, told of that exit, neither queues the service for a restart nor counts it among the
  services to start: it stays in the stopping state without a process.\<close>

theorem uevent_error_ends_module_loading:
  assumes "modd_main env (io\<lparr>io_uevents := before\<rparr>) = Ok (md, False)"
    and "map_of (services s) ''modd'' = Some st" and "distinct (keys_of (services s))"
    and "result = modd_main env (io\<lparr>io_uevents := before @ Inl e # rest\<rparr>)"
    and "s' = handle_service_exit ''modd'' (Some (service_exit_code result)) s"
  shows "result = Ok (md, True)
    \<and> map_of (services s') ''modd'' = Some (st\<lparr>pid := None, status := Stopping\<rparr>)
    \<and> restart_queue s' = restart_queue s \<and> ''modd'' \<notin> set (collect_startable (services s'))"
proof -
  obtain md0 where loop: "\<And>answers. modd_main env (io\<lparr>io_uevents := answers\<rparr>) = Ok (event_loop env answers md0)"
    using modd_main_Ok [OF assms(1)] by simp metis
  have before: "event_loop env before md0 = (md, False)" using loop [of before] assms(1) by simp
  then have "\<forall>a \<in> set before. \<not> isl a" using event_loop_left [of env before md0] by simp
  then have exited: "result = Ok (md, True)"
    using assms(4) loop event_loop_append [of before env "Inl e # rest" md0] before
    by (simp add: uevent_recv_def)
  then have s': "s' = s\<lparr>services := alter ''modd'' (\<lambda>_. st\<lparr>pid := None, status := Stopping\<rparr>) (services s)\<rparr>"
    using assms(5) clean_exit [OF assms(2)] by (simp add: service_exit_code_def)
  have st: "map_of (services s') ''modd'' = Some (st\<lparr>pid := None, status := Stopping\<rparr>)"
    using s' assms(2) by (simp add: map_of_alter)
  have "distinct (keys_of (services s'))" using s' assms(3) by simp
  then have "''modd'' \<notin> set (collect_startable (services s'))"
    using st by (auto simp: collect_startable_def map_of_mem_iff)
  then show ?thesis using exited st s' by simp
qed

theorem uevent_error_ends_module_loading_witness:
  "\<exists>md result s'. result = modd_main demo_env (demo_io\<lparr>io_uevents := [Inr demo_event] @ Inl 105 # []\<rparr>)
    \<and> result = Ok (md, True)
    \<and> s' = handle_service_exit ''modd'' (Some (service_exit_code result)) demo_modd_sup
    \<and> restart_queue s' = restart_queue_new \<and> ''modd'' \<notin> set (collect_startable (services s'))"
proof -
  obtain md where md: "modd_main demo_env (demo_io\<lparr>io_uevents := [Inr demo_event]\<rparr>) = Ok (md, False)"
    using demo_run [of demo_env "[Inr demo_event]"] by auto
  have st: "map_of (services demo_modd_sup) ''modd'' = Some demo_modd_state"
    "distinct (keys_of (services demo_modd_sup))" "restart_queue demo_modd_sup = restart_queue_new"
    by (simp_all add: demo_modd_sup_def keys_of_def)
  show ?thesis
    using uevent_error_ends_module_loading [OF md st(1,2) refl refl, of 105 "[]"] st(3) by metis
qed

text \<open>
  C39: Whether a daemon that fails is started again depends on timing.  The generated wrapper
  announces a graceful end on every way out of the body, also on an error.  If the supervisor
  reads that datagram before it learns of the exit with code 1, the service is failed and not
  queued; if it learns of the exit first, the same service is queued for a restart.\<close>

theorem failed_daemon_restart_race:
  assumes "field_text name" "sup_inv s" "map_of (services s) name = Some st"
    "status st \<noteq> Stopping" "restart_count st < 5"
    "service_main name (Ok ()) (Ok ()) (Err e) = ([datagram], code)"
  shows "\<exists>n st1 st2. parse_notification datagram = Some n
    \<and> map_of (services (handle_service_exit name (Some code) (notify_apply n s))) name = Some st1
    \<and> status st1 = service_status.Failed
    \<and> queued_names (restart_queue (handle_service_exit name (Some code) (notify_apply n s)))
      = queued_names (restart_queue s)
    \<and> map_of (services (handle_service_exit name (Some code) s)) name = Some st2
    \<and> status st2 = Pending
    \<and> queued_names (restart_queue (handle_service_exit name (Some code) s))
      = queued_names (restart_queue s) @ [name]"
proof -
  let ?s = "notify_apply (NotifyStopping name) s"
  have code: "code = 1" using assms(6) by (simp add: service_main_def service_exit_code_def)
  have stopping: "map_of (services ?s) name = Some (st\<lparr>status := Stopping\<rparr>)"
    and queue: "restart_queue ?s = restart_queue s"
    using assms(3) by (simp_all add: apply_stopping_def map_of_alter)
  have "restart_count (st\<lparr>status := Stopping\<rparr>) < 5" using assms(5) by simp
  from failed_exit [OF notify_apply_inv [OF assms(2)] stopping this] queue
  obtain st1 where "map_of (services (handle_service_exit name (Some 1) ?s)) name = Some st1"
    "status st1 = service_status.Failed"
    "queued_names (restart_queue (handle_service_exit name (Some 1) ?s)) = queued_names (restart_queue s)"
    by auto
  moreover from failed_exit [OF assms(2,3,5)] assms(4)
  obtain st2 where "map_of (services (handle_service_exit name (Some 1) s)) name = Some st2"
    "status st2 = Pending"
    "queued_names (restart_queue (handle_service_exit name (Some 1) s)) = queued_names (restart_queue s) @ [name]"
    by auto
  ultimately show ?thesis using service_main_parses [OF assms(1,6)] code by blast
qed

theorem failed_daemon_restart_race_witness:
  "\<exists>n st1 st2. parse_notification (notifier_stopping (notifier_new ''a'') ''Graceful shutdown'') = Some n
    \<and> map_of (services (handle_service_exit ''a'' (Some 1) (notify_apply n demo_sup))) ''a'' = Some st1
    \<and> status st1 = service_status.Failed
    \<and> map_of (services (handle_service_exit ''a'' (Some 1) demo_sup)) ''a'' = Some st2 \<and> status st2 = Pending"
proof -
  have a: "field_text ''a''" by (simp add: field_text_def newline_def carriage_return_def)
  have inv: "sup_inv demo_sup" using with_backends_inv [OF demo_with_backends] .
  have st: "map_of (services demo_sup) ''a'' = Some (demo_state demo_a)" by (simp add: demo_sup_def)
  have "service_main ''a'' (Ok ()) (Ok ()) (Err ()) =
      ([notifier_stopping (notifier_new ''a'') ''Graceful shutdown''], 1)"
    by (simp add: service_main_def service_exit_code_def)
  from failed_daemon_restart_race [OF a inv st _ _ this]
  show ?thesis by (auto simp: demo_state_def service_state_new_def)
qed

end
